(* ===== verification/Prelude.thy ===== *)
theory Prelude
  imports Main "HOL-Library.Char_ord" "HOL-Library.List_Lexorder" "HOL-Library.Word"
begin

text \<open>
  Shared ground of the development: the names of the machine types, the characters that a
  string literal cannot hold, the collections of rewrite rules the component theories fill,
  and generic facts on lists and maps that several components use.
\<close>

section \<open>Machine types and characters\<close>

text \<open>Go's \<open>int32\<close>; Go's \<open>int\<close> is 64 bits wide on the platforms the image is built for.\<close>

type_synonym int32 = "32 word"

type_synonym strmap = "string \<Rightarrow> string option"

abbreviation (input) nlS :: string where "nlS \<equiv> [CHR 0x0A]"
abbreviation (input) tabS :: string where "tabS \<equiv> [CHR 0x09]"
abbreviation (input) bsS :: string where "bsS \<equiv> [CHR 0x5C]"
abbreviation (input) sqS :: string where "sqS \<equiv> [CHR 0x27]"

definition max_int64 :: int where "max_int64 = 9223372036854775807"
definition min_int64 :: int where "min_int64 = - 9223372036854775808"

section \<open>Rule collections\<close>

named_theorems gostr \<open>unfolding rules of the string functions\<close>
named_theorems layout \<open>names and paths the operator gives to what it creates\<close>
named_theorems effect \<open>unfolding rules of the effect combinators\<close>
named_theorems wprule \<open>weakest preconditions of the effect combinators\<close>

section \<open>Text made of lines\<close>

text \<open>A line ends with a newline.\<close>

definition ln :: "string \<Rightarrow> string" where
  "ln l = l @ nlS"

definition unlines :: "string list \<Rightarrow> string" where
  "unlines ls = concat (map ln ls)"

lemma unlines_Nil [simp]: "unlines [] = []"
  by (simp add: unlines_def)

lemma unlines_Cons [simp]: "unlines (l # ls) = ln l @ unlines ls"
  by (simp add: unlines_def)

lemma unlines_append: "unlines (as @ bs) = unlines as @ unlines bs"
  by (simp add: unlines_def)

section \<open>Generic lemmas\<close>

lemma takeWhile_append_stop [simp]:
  "\<forall>x\<in>set xs. P x \<Longrightarrow> \<not> P y \<Longrightarrow> takeWhile P (xs @ y # ys) = xs"
  by (induction xs) auto

lemma dropWhile_append_stop [simp]:
  "\<forall>x\<in>set xs. P x \<Longrightarrow> \<not> P y \<Longrightarrow> dropWhile P (xs @ y # ys) = y # ys"
  by (induction xs) auto

lemma filter_not_mem_set: "set (filter (\<lambda>x. x \<notin> A) xs) = set xs - A"
  by auto

lemma map_upd_dom_other: "k \<noteq> j \<Longrightarrow> (m(k \<mapsto> v)) j = m j"
  by simp

lemma append_suffix_neq:
  "length xs = length ys \<Longrightarrow> xs \<noteq> ys \<Longrightarrow> a @ xs \<noteq> b @ ys"
  by (metis append_eq_append_conv)

end
