(* ===== verification/GoStd.thy ===== *)
theory GoStd
  imports Prelude
begin

text \<open>
  The parts of Go's standard library the operator calls, on strings of bytes: \<open>strings\<close>,
  \<open>strconv\<close>, \<open>path\<close>, \<open>encoding/base64\<close> (URL alphabet, no padding) and \<open>slices.Sort\<close>. Strings
  are lists of \<open>char\<close>; the model is exact on ASCII, which is what the CRD's names, versions and
  durations are made of.
\<close>

section \<open>strings\<close>

definition hasPrefix :: "string \<Rightarrow> string \<Rightarrow> bool" where
  "hasPrefix s p = (take (length p) s = p)"

definition hasSuffix :: "string \<Rightarrow> string \<Rightarrow> bool" where
  "hasSuffix s p = (length p \<le> length s \<and> drop (length s - length p) s = p)"

definition trimPrefix :: "string \<Rightarrow> string \<Rightarrow> string" where
  "trimPrefix s p = (if hasPrefix s p then drop (length p) s else s)"

definition trimSuffix :: "string \<Rightarrow> string \<Rightarrow> string" where
  "trimSuffix s p = (if hasSuffix s p then take (length s - length p) s else s)"

text \<open>\<open>before, _, _ := strings.Cut(s, sep)\<close> for a one-byte separator.\<close>

definition cutBefore :: "char \<Rightarrow> string \<Rightarrow> string" where
  "cutBefore c s = takeWhile (\<lambda>x. x \<noteq> c) s"

text \<open>What follows the last occurrence of a byte, and whether there is one
  (\<open>strings.LastIndex\<close> and the slice after it).\<close>

fun afterLast :: "char \<Rightarrow> string \<Rightarrow> string option" where
  "afterLast c [] = None"
| "afterLast c (x # xs) =
     (case afterLast c xs of Some r \<Rightarrow> Some r | None \<Rightarrow> if x = c then Some xs else None)"

definition isSpace :: "char \<Rightarrow> bool" where
  "isSpace c = (c = CHR '' '' \<or> c = CHR 0x09 \<or> c = CHR 0x0A \<or> c = CHR 0x0B
                \<or> c = CHR 0x0C \<or> c = CHR 0x0D)"

definition trimSpace :: "string \<Rightarrow> string" where
  "trimSpace s = rev (dropWhile isSpace (rev (dropWhile isSpace s)))"

text \<open>\<open>strings.FieldsSeq\<close>: the maximal runs of non-space bytes.\<close>

fun strFieldsAux :: "string \<Rightarrow> string \<Rightarrow> string list" where
  "strFieldsAux cur [] = (if cur = [] then [] else [rev cur])"
| "strFieldsAux cur (c # cs) =
     (if isSpace c then (if cur = [] then [] else [rev cur]) @ strFieldsAux [] cs
      else strFieldsAux (c # cur) cs)"

definition strFields :: "string \<Rightarrow> string list" where
  "strFields s = strFieldsAux [] s"

text \<open>\<open>strings.SplitSeq(s, sep)\<close> for a one-byte separator: always at least one piece.\<close>

fun splitOn :: "char \<Rightarrow> string \<Rightarrow> string list" where
  "splitOn c [] = [[]]"
| "splitOn c (x # xs) =
     (if x = c then [] # splitOn c xs
      else (case splitOn c xs of [] \<Rightarrow> [[x]] | p # ps \<Rightarrow> (x # p) # ps))"

fun joinWith :: "string \<Rightarrow> string list \<Rightarrow> string" where
  "joinWith sep [] = []"
| "joinWith sep [x] = x"
| "joinWith sep (x # y # xs) = x @ sep @ joinWith sep (y # xs)"

section \<open>strconv\<close>

definition isDigit :: "char \<Rightarrow> bool" where
  "isDigit c = (CHR ''0'' \<le> c \<and> c \<le> CHR ''9'')"

definition digitVal :: "char \<Rightarrow> int" where
  "digitVal c = int (of_char c) - 48"

definition digitChar :: "nat \<Rightarrow> char" where
  "digitChar d = char_of (48 + d mod 10)"

text \<open>\<open>%d\<close> of a non-negative and of any integer.\<close>

fun showNat :: "nat \<Rightarrow> string" where
  "showNat n = (if n < 10 then [digitChar n] else showNat (n div 10) @ [digitChar (n mod 10)])"

declare showNat.simps [simp del]

definition showInt :: "int \<Rightarrow> string" where
  "showInt i = (if i < 0 then CHR ''-'' # showNat (nat (- i)) else showNat (nat i))"

definition showInt32 :: "int32 \<Rightarrow> string" where
  "showInt32 w = showInt (sint w)"

definition digitsVal :: "string \<Rightarrow> int" where
  "digitsVal s = foldl (\<lambda>a c. 10 * a + digitVal c) 0 s"

text \<open>\<open>strconv.Atoi\<close>: an optional sign, then decimal digits, within the range of \<open>int\<close>.
  \<open>None\<close> is an error.\<close>

definition atoi :: "string \<Rightarrow> int option" where
  "atoi s =
     (let neg = (s \<noteq> [] \<and> hd s = CHR ''-'');
          ds = (if s \<noteq> [] \<and> (hd s = CHR ''-'' \<or> hd s = CHR ''+'') then tl s else s);
          v = (if neg then - digitsVal ds else digitsVal ds)
      in if ds = [] \<or> \<not> list_all isDigit ds then None
         else if v < min_int64 \<or> max_int64 < v then None
         else Some v)"

text \<open>\<open>%q\<close>, \<open>strconv.Quote\<close>: printable bytes as they are, the rest escaped.\<close>

definition hexDigit :: "nat \<Rightarrow> char" where
  "hexDigit d = ''0123456789abcdef'' ! (d mod 16)"

definition quoteChar :: "char \<Rightarrow> string" where
  "quoteChar c =
     (if c = CHR 0x22 \<or> c = CHR 0x5C then [CHR 0x5C, c]
      else if c = CHR 0x07 then [CHR 0x5C, CHR ''a'']
      else if c = CHR 0x08 then [CHR 0x5C, CHR ''b'']
      else if c = CHR 0x0C then [CHR 0x5C, CHR ''f'']
      else if c = CHR 0x0A then [CHR 0x5C, CHR ''n'']
      else if c = CHR 0x0D then [CHR 0x5C, CHR ''r'']
      else if c = CHR 0x09 then [CHR 0x5C, CHR ''t'']
      else if c = CHR 0x0B then [CHR 0x5C, CHR ''v'']
      else if c < CHR '' '' \<or> c = CHR 0x7F
        then [CHR 0x5C, CHR ''x'', hexDigit (of_char c div 16), hexDigit (of_char c)]
      else [c])"

definition quote :: "string \<Rightarrow> string" where
  "quote s = [CHR 0x22] @ concat (map quoteChar s) @ [CHR 0x22]"

section \<open>path\<close>

text \<open>
  \<open>path.Clean\<close> works on the elements between slashes: empty and \<open>.\<close> elements go, \<open>..\<close> takes the
  element before it away, at the root it is dropped and in a relative path it stays.
\<close>

fun cleanElems :: "bool \<Rightarrow> string list \<Rightarrow> string list \<Rightarrow> string list" where
  "cleanElems rooted out [] = rev out"
| "cleanElems rooted out (e # es) =
     (if e = [] \<or> e = ''.'' then cleanElems rooted out es
      else if e = ''..'' then
        (case out of
           [] \<Rightarrow> if rooted then cleanElems rooted [] es else cleanElems rooted [e] es
         | o1 # os \<Rightarrow> if o1 = ''..'' then cleanElems rooted (e # out) es
                     else cleanElems rooted os es)
      else cleanElems rooted (e # out) es)"

definition pathClean :: "string \<Rightarrow> string" where
  "pathClean p =
     (let rooted = (p \<noteq> [] \<and> hd p = CHR ''/'');
          body = joinWith ''/'' (cleanElems rooted [] (splitOn (CHR ''/'') p))
      in if rooted then CHR ''/'' # body else if body = [] then ''.'' else body)"

definition pathJoin :: "string list \<Rightarrow> string" where
  "pathJoin es =
     (let ne = filter (\<lambda>e. e \<noteq> []) es
      in if ne = [] then [] else pathClean (joinWith ''/'' ne))"

section \<open>encoding/base64, RawURLEncoding\<close>

definition b64Alphabet :: string where
  "b64Alphabet = ''ABCDEFGHIJKLMNOPQRSTUVWXYZabcdefghijklmnopqrstuvwxyz0123456789-_''"

definition b64Char :: "nat \<Rightarrow> char" where
  "b64Char v = b64Alphabet ! (v mod 64)"

text \<open>Bytes are naturals below 256.\<close>

fun b64RawURL :: "nat list \<Rightarrow> string" where
  "b64RawURL [] = []"
| "b64RawURL [a] = [b64Char (a div 4), b64Char (a * 16)]"
| "b64RawURL [a, b] = [b64Char (a div 4), b64Char (a * 16 + b div 16), b64Char (b * 4)]"
| "b64RawURL (a # b # c # bytes) =
     b64Char (a div 4) # b64Char (a * 16 + b div 16) # b64Char (b * 4 + c div 64) # b64Char c
     # b64RawURL bytes"

section \<open>Facts\<close>

lemma hasSuffix_append [simp]: "hasSuffix (s @ p) p"
  by (simp add: hasSuffix_def)

lemma trimSuffix_append [simp]: "trimSuffix (s @ p) p = s"
  by (simp add: trimSuffix_def)

lemma hasSuffix_iff: "hasSuffix s p \<longleftrightarrow> (\<exists>b. s = b @ p)"
  unfolding hasSuffix_def
  by (metis append_take_drop_id append_eq_conv_conj diff_diff_cancel length_append
      length_drop add_diff_cancel_right' le_add2)

lemma trimSuffix_restore: "hasSuffix s p \<Longrightarrow> trimSuffix s p @ p = s"
  by (auto simp: hasSuffix_iff)

lemma hasPrefix_append [simp]: "hasPrefix (p @ s) p"
  by (simp add: hasPrefix_def)

lemma trimPrefix_append [simp]: "trimPrefix (p @ s) p = s"
  by (simp add: trimPrefix_def)

lemma cutBefore_append [simp]: "c \<notin> set s \<Longrightarrow> cutBefore c (s @ c # r) = s"
  unfolding cutBefore_def by (rule takeWhile_append_stop) auto

lemma cutBefore_none [simp]: "c \<notin> set s \<Longrightarrow> cutBefore c s = s"
  unfolding cutBefore_def by (auto simp: takeWhile_eq_all_conv)

lemma cutBefore_no_sep [simp]: "c \<notin> set (cutBefore c s)"
  unfolding cutBefore_def by (auto dest: set_takeWhileD)

lemma afterLast_None_iff: "afterLast c s = None \<longleftrightarrow> c \<notin> set s"
  by (induction s) (auto split: option.splits)

lemma afterLast_None [simp]: "c \<notin> set s \<Longrightarrow> afterLast c s = None"
  by (simp add: afterLast_None_iff)

lemma afterLast_append [simp]: "c \<notin> set r \<Longrightarrow> afterLast c (s @ c # r) = Some r"
  by (induction s) auto

lemma isDigit_digitChar [simp]: "isDigit (digitChar d)"
proof -
  have "d mod 10 < 10" by simp
  then have "48 + d mod 10 < 256" by linarith
  then show ?thesis by (simp add: isDigit_def digitChar_def less_eq_char_def)
qed

lemma digitVal_digitChar [simp]: "digitVal (digitChar d) = int (d mod 10)"
proof -
  have "d mod 10 < 10" by simp
  then have "48 + d mod 10 < 256" by linarith
  then show ?thesis by (simp add: digitVal_def digitChar_def)
qed

lemma showNat_not_empty [simp]: "showNat n \<noteq> []"
  by (subst showNat.simps) simp

lemma showNat_digits: "list_all isDigit (showNat n)"
proof (induction n rule: showNat.induct)
  case (1 n)
  then show ?case by (subst showNat.simps) (auto simp: list_all_iff)
qed

lemma digitsVal_snoc: "digitsVal (s @ [c]) = 10 * digitsVal s + digitVal c"
  by (simp add: digitsVal_def)

lemma digitsVal_showNat [simp]: "digitsVal (showNat n) = int n"
proof (induction n rule: showNat.induct)
  case (1 n)
  show ?case
  proof (cases "n < 10")
    case True
    then show ?thesis by (subst showNat.simps) (simp add: digitsVal_def)
  next
    case False
    with 1 have "digitsVal (showNat (n div 10)) = int (n div 10)" by simp
    moreover have "10 * int (n div 10) + int (n mod 10) = int n" by presburger
    ultimately show ?thesis using False
      by (subst showNat.simps) (simp add: digitsVal_snoc)
  qed
qed

lemma isDigit_not_sign: "isDigit c \<Longrightarrow> c \<noteq> CHR ''-'' \<and> c \<noteq> CHR ''+''"
  by (auto simp: isDigit_def less_eq_char_def)

lemma showNat_hd: "isDigit (hd (showNat n))"
  using showNat_digits [of n] showNat_not_empty [of n]
  by (cases "showNat n") auto

text \<open>Printing and reading back a number gives the number, as long as it fits \<open>int\<close>.\<close>

lemma atoi_showNat: "int n \<le> max_int64 \<Longrightarrow> atoi (showNat n) = Some (int n)"
  using isDigit_not_sign [OF showNat_hd [of n]] showNat_digits [of n]
  by (simp add: atoi_def Let_def min_int64_def)

lemma digitVal_range: "isDigit c \<Longrightarrow> 0 \<le> digitVal c \<and> digitVal c < 10"
  by (auto simp: isDigit_def digitVal_def less_eq_char_def)

lemma digitsVal_bounds:
  "list_all isDigit s \<Longrightarrow> 0 \<le> digitsVal s \<and> digitsVal s < 10 ^ length s"
proof (induction s rule: rev_induct)
  case Nil
  then show ?case by (simp add: digitsVal_def)
next
  case (snoc c s)
  then have "0 \<le> digitVal c \<and> digitVal c < 10" by (simp add: digitVal_range)
  with snoc show ?case by (simp add: digitsVal_snoc)
qed

lemma atoi_digits:
  assumes "s \<noteq> []" and "list_all isDigit s"
  shows "atoi s = (if digitsVal s \<le> max_int64 then Some (digitsVal s) else None)"
proof -
  have "isDigit (hd s)" using assms by (cases s) auto
  from isDigit_not_sign [OF this] digitsVal_bounds [OF assms(2)] assms show ?thesis
    by (simp add: atoi_def Let_def min_int64_def)
qed

lemma quote_plain: "\<forall>c\<in>set s. quoteChar c = [c] \<Longrightarrow> quote s = [CHR 0x22] @ s @ [CHR 0x22]"
proof -
  assume "\<forall>c\<in>set s. quoteChar c = [c]"
  then have "concat (map quoteChar s) = s" by (induction s) auto
  then show ?thesis by (simp add: quote_def)
qed

lemma length_b64RawURL:
  "length bytes = 3 * k \<Longrightarrow> length (b64RawURL bytes) = 4 * k"
proof (induction bytes arbitrary: k rule: b64RawURL.induct)
  case (4 a b c bytes)
  then obtain j where "k = Suc j" by (cases k) auto
  with 4 show ?case by simp
next
  case (3 a b)
  from 3(1) have "2 = 3 * k" by simp
  then show ?case by presburger
qed simp_all

lemma b64Char_alphabet: "b64Char v \<in> set b64Alphabet"
  unfolding b64Char_def by (rule nth_mem) (simp add: b64Alphabet_def)

lemma b64RawURL_alphabet: "set (b64RawURL bytes) \<subseteq> set b64Alphabet"
  by (induction bytes rule: b64RawURL.induct) (auto simp: b64Char_alphabet)

end
