(* ===== verification/Api.thy ===== *)
theory Api
  imports GoStd
begin

text \<open>
  The custom resource of \<open>api/v1/instance_types.go\<close>: one record per struct, in the order of the
  file, and the validation the CRD derives from the \<open>+kubebuilder\<close> markers as predicates.
  An optional pointer field is an \<open>option\<close>; an optional string or number is its zero value when it
  is absent, as in Go. \<open>resource.Quantity\<close> is an opaque string, and of \<open>metav1.ObjectMeta\<close> only
  what the controller reads or writes is kept.
\<close>

section \<open>The spec\<close>

record DatabaseSpec =
  db_name :: string
  db_alias :: "string option"
  db_shadow :: bool
  db_pageSize :: int32
  db_charset :: string
  db_collation :: string

record ServiceSpec =
  ss_type :: string
  ss_port :: int32

record StorageVolumeSpec =
  vol_class :: string
  vol_size :: string

record StorageSpec =
  sg_primary :: StorageVolumeSpec
  sg_shadow :: "StorageVolumeSpec option"

record LocalBackupSpec =
  lb_storage :: StorageVolumeSpec

record BackupDestinationSpec =
  bd_local :: "LocalBackupSpec option"

definition BackupModeLogical :: string where "BackupModeLogical = ''logical''"
definition BackupModePhysical :: string where "BackupModePhysical = ''physical''"

record BackupModeSpec =
  mo_type :: string
  mo_incremental :: bool

record RetentionSpec =
  rt_hour :: string
  rt_day :: string
  rt_week :: string
  rt_month :: string
  rt_year :: string

record BackupSpec =
  bk_enabled :: bool
  bk_destinations :: "BackupDestinationSpec list"
  bk_image :: string
  bk_backupOnDelete :: "bool option"
  bk_compress :: bool
  bk_mode :: BackupModeSpec
  bk_retention :: RetentionSpec

record SysdbaAuthSpec =
  sy_secretRef :: string

record AuthenticationSpec =
  au_sysdba :: SysdbaAuthSpec

record InstanceSpec =
  sp_image :: string
  sp_version :: string
  sp_databases :: "DatabaseSpec list"
  sp_service :: ServiceSpec
  sp_storage :: StorageSpec
  sp_authentication :: AuthenticationSpec
  sp_backup :: BackupSpec

section \<open>The status\<close>

datatype UpgradeStage = BackingUp | Releasing | Restoring

text \<open>The stages in their order.\<close>

instantiation UpgradeStage :: linorder
begin

definition stageRank :: "UpgradeStage \<Rightarrow> nat" where
  "stageRank s = (case s of BackingUp \<Rightarrow> 0 | Releasing \<Rightarrow> 1 | Restoring \<Rightarrow> 2)"

definition less_eq_UpgradeStage :: "UpgradeStage \<Rightarrow> UpgradeStage \<Rightarrow> bool" where
  "s \<le> t \<longleftrightarrow> stageRank s \<le> stageRank t"

definition less_UpgradeStage :: "UpgradeStage \<Rightarrow> UpgradeStage \<Rightarrow> bool" where
  "s < t \<longleftrightarrow> stageRank s < stageRank t"

instance
  by standard (auto simp: less_eq_UpgradeStage_def less_UpgradeStage_def stageRank_def split: UpgradeStage.splits)

end

record UpgradeStatus =
  up_fromVersion :: string
  up_toVersion :: string
  up_stage :: UpgradeStage

text \<open>\<open>metav1.Condition\<close>, without the transition time, which the controller leaves to the library.\<close>

record Condition =
  cond_type :: string
  cond_status :: string
  cond_reason :: string
  cond_message :: string
  cond_observedGeneration :: int

record InstanceStatus =
  st_conditions :: "Condition list"
  st_databases :: "string list"
  st_databaseCount :: int32
  st_phase :: string
  st_error :: string
  st_message :: string
  st_warning :: string
  st_firebirdVersion :: string
  st_upgrade :: "UpgradeStatus option"

record Instance =
  in_name :: string
  in_namespace :: string
  in_generation :: int
  in_deleting :: bool
  in_finalizers :: "string list"
  in_spec :: InstanceSpec
  in_status :: InstanceStatus

section \<open>Validation by the CRD\<close>

text \<open>\<open>Pattern=^([0-9]+[hdwmy])?$\<close> and \<open>MaxLength=16\<close> of every retention field.\<close>

definition retentionPattern :: "string \<Rightarrow> bool" where
  "retentionPattern s =
     (s = [] \<or> (2 \<le> length s \<and> list_all isDigit (butlast s) \<and> last s \<in> set ''hdwmy''))"

definition retentionFieldValid :: "string \<Rightarrow> bool" where
  "retentionFieldValid s = (retentionPattern s \<and> length s \<le> 16)"

definition retentionFields :: "RetentionSpec \<Rightarrow> string list" where
  "retentionFields r = [rt_hour r, rt_day r, rt_week r, rt_month r, rt_year r]"

definition retentionSpecValid :: "RetentionSpec \<Rightarrow> bool" where
  "retentionSpecValid r = list_all retentionFieldValid (retentionFields r)"

text \<open>The rule on \<open>BackupSpec\<close>: with \<open>mode.incremental\<close>, at most one field matches \<open>[1-9]\<close>. An
  absent field counts as \<open>0\<close>, which never does.\<close>

definition matchesNonzeroDigit :: "string \<Rightarrow> bool" where
  "matchesNonzeroDigit s = list_ex (\<lambda>c. CHR ''1'' \<le> c \<and> c \<le> CHR ''9'') s"

definition backupSpecValid :: "BackupSpec \<Rightarrow> bool" where
  "backupSpecValid b =
     (\<not> mo_incremental (bk_mode b)
      \<or> length (filter matchesNonzeroDigit
          (map (\<lambda>s. if s = [] then ''0'' else s) (retentionFields (bk_retention b)))) \<le> 1)"

definition backupModeSpecValid :: "BackupModeSpec \<Rightarrow> bool" where
  "backupModeSpecValid m =
     (mo_type m \<in> {BackupModeLogical, BackupModePhysical, []}
      \<and> (\<not> mo_incremental m \<or> mo_type m = BackupModePhysical))"

definition databaseSpecValid :: "DatabaseSpec \<Rightarrow> bool" where
  "databaseSpecValid d = (db_name d \<noteq> [] \<and> db_pageSize d \<in> {4096, 8192, 16384})"

definition serviceSpecValid :: "ServiceSpec \<Rightarrow> bool" where
  "serviceSpecValid s =
     (ss_type s \<in> {''ClusterIP'', ''NodePort'', ''LoadBalancer''}
      \<and> 1 \<le> sint (ss_port s) \<and> sint (ss_port s) \<le> 65535)"

text \<open>The two rules on \<open>InstanceSpec\<close>, the list-map key of \<open>databases\<close>, and the fields' own.\<close>

definition instanceSpecValid :: "InstanceSpec \<Rightarrow> bool" where
  "instanceSpecValid s =
     (sp_image s \<noteq> [] \<and> sp_version s \<noteq> []
      \<and> sp_databases s \<noteq> [] \<and> distinct (map db_name (sp_databases s))
      \<and> list_all databaseSpecValid (sp_databases s)
      \<and> serviceSpecValid (sp_service s)
      \<and> (\<not> list_ex db_shadow (sp_databases s) \<or> sg_shadow (sp_storage s) \<noteq> None)
      \<and> (\<not> bk_enabled (sp_backup s) \<or> bk_destinations (sp_backup s) \<noteq> [])
      \<and> backupSpecValid (sp_backup s)
      \<and> backupModeSpecValid (bk_mode (sp_backup s))
      \<and> retentionSpecValid (bk_retention (sp_backup s)))"

section \<open>Names and shorthands used by every component\<close>

type_synonym nsname = "string \<times> string" \<comment> \<open>namespace, name\<close>

abbreviation in_key :: "Instance \<Rightarrow> nsname" where
  "in_key i \<equiv> (in_namespace i, in_name i)"

abbreviation version_of :: "Instance \<Rightarrow> string" where
  "version_of i \<equiv> sp_version (in_spec i)"

abbreviation spec_databases :: "Instance \<Rightarrow> DatabaseSpec list" where
  "spec_databases i \<equiv> sp_databases (in_spec i)"

abbreviation status_databases :: "Instance \<Rightarrow> string list" where
  "status_databases i \<equiv> st_databases (in_status i)"

abbreviation upgrade_of :: "Instance \<Rightarrow> UpgradeStatus option" where
  "upgrade_of i \<equiv> st_upgrade (in_status i)"

abbreviation upd_status :: "(InstanceStatus \<Rightarrow> InstanceStatus) \<Rightarrow> Instance \<Rightarrow> Instance" where
  "upd_status f i \<equiv> i\<lparr>in_status := f (in_status i)\<rparr>"

end
