(* ===== verification/Kube.thy ===== *)
theory Kube
  imports Api
begin

text \<open>
  The Kubernetes objects the controller builds, with the fields it sets or reads, and the error
  values its calls return. The cluster itself is not modelled: it is whoever answers the requests
  of theory Effects.
\<close>

section \<open>Objects\<close>

text \<open>\<open>om_created\<close> says that the creation timestamp is set, \<open>om_owners\<close> holds the owner references.\<close>

record ObjectMeta =
  om_name :: string
  om_namespace :: string
  om_labels :: strmap
  om_created :: bool
  om_owners :: "string list"

record ConfigMap =
  cm_meta :: ObjectMeta
  cm_data :: strmap

record ServicePort =
  po_name :: string
  po_protocol :: string
  po_port :: int32
  po_targetPort :: int32

record Service =
  svc_meta :: ObjectMeta
  svc_type :: string
  svc_selector :: strmap
  svc_ports :: "ServicePort list"
  svc_clusterIP :: string

record PVC =
  pvc_meta :: ObjectMeta
  pvc_accessModes :: "string list"
  pvc_size :: string
  pvc_class :: "string option"

record Secret =
  sec_meta :: ObjectMeta
  sec_data :: strmap
  sec_stringData :: strmap

record SecurityContext =
  sx_allowPrivilegeEscalation :: "bool option"
  sx_seccompProfile :: string

record VolumeMount =
  vm_name :: string
  vm_path :: string
  vm_subPath :: string
  vm_readOnly :: bool

datatype VolumeSource = PVCSource string | ConfigMapSource string

record Volume =
  v_name :: string
  v_source :: VolumeSource

text \<open>An environment variable with a value, or with a Secret's name and key.\<close>

datatype EnvVar = EnvValue string string | EnvSecret string string string

record Container =
  ct_name :: string
  ct_image :: string
  ct_security :: SecurityContext
  ct_ports :: "(string \<times> int32) list"
  ct_command :: "string list"
  ct_env :: "EnvVar list"
  ct_mounts :: "VolumeMount list"

text \<open>The affinity is the list of required pod affinity terms: label selector and topology key.\<close>

record PodSpec =
  psp_restartPolicy :: string
  psp_affinity :: "(strmap \<times> string) list"
  psp_initContainers :: "Container list"
  psp_containers :: "Container list"
  psp_volumes :: "Volume list"

record Terminated =
  te_exitCode :: int32
  te_reason :: string
  te_message :: string

record PodStatus =
  pst_phase :: string
  pst_reason :: string
  pst_terminated :: "Terminated option list" \<comment> \<open>one per container status\<close>

record Pod =
  pod_meta :: ObjectMeta
  pod_spec :: PodSpec
  pod_status :: PodStatus

record PodTemplate =
  pt_labels :: strmap
  pt_annotations :: strmap
  pt_spec :: PodSpec

record StatefulSet =
  sts_meta :: ObjectMeta
  sts_replicas :: "int32 option"
  sts_selector :: "strmap option"
  sts_serviceName :: string
  sts_template :: PodTemplate
  sts_statusReplicas :: int32
  sts_readyReplicas :: int32

record CronJobSpec =
  cj_schedule :: string
  cj_concurrencyPolicy :: string
  cj_successfulJobsHistoryLimit :: "int32 option"
  cj_failedJobsHistoryLimit :: "int32 option"
  cj_jobLabels :: strmap
  cj_backoffLimit :: "int32 option"
  cj_activeDeadlineSeconds :: "int option"
  cj_template :: PodTemplate

record CronJob =
  cj_meta :: ObjectMeta
  cj_spec :: CronJobSpec

definition PodSucceeded :: string where "PodSucceeded = ''Succeeded''"
definition PodFailed :: string where "PodFailed = ''Failed''"

text \<open>Fresh values, as Go's composite literals leave the fields they do not name.\<close>

definition emptyPodSpec :: PodSpec where
  "emptyPodSpec = \<lparr>psp_restartPolicy = [], psp_affinity = [], psp_initContainers = [],
     psp_containers = [], psp_volumes = []\<rparr>"

definition emptyPodStatus :: PodStatus where
  "emptyPodStatus = \<lparr>pst_phase = [], pst_reason = [], pst_terminated = []\<rparr>"

definition plainMount :: "string \<Rightarrow> string \<Rightarrow> VolumeMount" where
  "plainMount name p = \<lparr>vm_name = name, vm_path = p, vm_subPath = [], vm_readOnly = False\<rparr>"

section \<open>Errors\<close>

text \<open>
  What a call can fail with: an API error that is or is not \<open>NotFound\<close>, a command's exit code
  (\<open>utilexec.CodeExitError\<close>), the controller's own \<open>waitingError\<close>, a plain \<open>fmt.Errorf\<close>, and one
  that wraps another (\<open>%w\<close>) between two texts. A run-time panic unwinds to the manager, which
  recovers it into an error; it is an error value here that no caller looks at. \<open>OutOfFuel\<close> is the
  model's own: a loop without a bound that has used up its fuel.
\<close>

datatype error =
    ApiNotFound string
  | ApiError string
  | CodeExit int string
  | Waiting string
  | Errorf string
  | Wrapf string error string
  | Panicked string
  | OutOfFuel

primrec errorMsg :: "error \<Rightarrow> string" where
  "errorMsg (ApiNotFound m) = m"
| "errorMsg (ApiError m) = m"
| "errorMsg (CodeExit c m) = m"
| "errorMsg (Waiting m) = m"
| "errorMsg (Errorf m) = m"
| "errorMsg (Wrapf pre e post) = pre @ errorMsg e @ post"
| "errorMsg (Panicked m) = ''panic: '' @ m"
| "errorMsg OutOfFuel = ''out of fuel''"

text \<open>\<open>apierrors.IsNotFound\<close> on an error as an API call returns it.\<close>

fun isNotFound :: "error \<Rightarrow> bool" where
  "isNotFound (ApiNotFound m) = True"
| "isNotFound (Wrapf pre e post) = isNotFound e"
| "isNotFound _ = False"

text \<open>\<open>errors.As\<close> for \<open>*waitingError\<close> and for \<open>CodeExitError\<close>, through the wrapping.\<close>

fun asWaiting :: "error \<Rightarrow> string option" where
  "asWaiting (Waiting m) = Some m"
| "asWaiting (Wrapf pre e post) = asWaiting e"
| "asWaiting _ = None"

text \<open>No return to the caller: a panic that unwinds, or a loop still running.\<close>

fun isPanic :: "error \<Rightarrow> bool" where
  "isPanic (Panicked m) = True"
| "isPanic OutOfFuel = True"
| "isPanic (Wrapf pre e post) = isPanic e"
| "isPanic _ = False"

fun isCodeExit :: "error \<Rightarrow> bool" where
  "isCodeExit (CodeExit c m) = True"
| "isCodeExit (Wrapf pre e post) = isCodeExit e"
| "isCodeExit _ = False"

section \<open>Library helpers\<close>

text \<open>
  The helpers of \<open>controller-runtime\<close> and \<open>apimachinery\<close> the controller calls on values, as a
  parameter of the definitions that use them.
\<close>

record lib =
  lib_setControllerReference :: "Instance \<Rightarrow> ObjectMeta \<Rightarrow> error + ObjectMeta"
  lib_setStatusCondition :: "Condition list \<Rightarrow> Condition \<Rightarrow> Condition list \<times> bool"
  lib_findStatusCondition :: "Condition list \<Rightarrow> string \<Rightarrow> Condition option"
  lib_containsFinalizer :: "string list \<Rightarrow> string \<Rightarrow> bool"
  lib_addFinalizer :: "string list \<Rightarrow> string \<Rightarrow> string list"
  lib_removeFinalizer :: "string list \<Rightarrow> string \<Rightarrow> string list"

end
