(* ===== verification/Effects.thy ===== *)
theory Effects
  imports Kube
begin

text \<open>
  How the controller talks to the outside: a program is a tree of requests to the API server, to a
  pod (exec) or to the random source, each followed by what the code does with the answer. The
  answers are not modelled at all: every statement about \<open>steps\<close> holds for whatever the cluster
  says, in particular for every error it may return and for every change other writers make
  between two requests. A hypothesis on the answers, where a property needs one, is a predicate on
  the events of the run.
\<close>

section \<open>Requests and answers\<close>

text \<open>
  \<open>controllerutil.CreateOrUpdate\<close> is library code: it hands the caller's mutate function the object
  it found or a fresh one (\<open>Fetch\<close>), then creates or updates it (\<open>Store\<close>); both are answered
  from outside. A patch carries the object before and after.
\<close>

datatype request =
    QGetInstance nsname
  | QUpdateInstance Instance
  | QUpdateStatus Instance
  | QListInstances string string string
  | QGetSts nsname
  | QUpdateSts StatefulSet
  | QFetchSts nsname
  | QStoreSts StatefulSet
  | QGetPvc nsname
  | QCreatePvc PVC
  | QDeletePvc nsname
  | QPatchPvc PVC PVC
  | QGetSecret nsname
  | QCreateSecret Secret
  | QPatchSecret Secret Secret
  | QGetPod nsname
  | QCreatePod Pod
  | QDeletePod nsname
  | QPatchPod Pod Pod
  | QGetCronJob nsname
  | QDeleteCronJob nsname
  | QFetchCronJob nsname
  | QStoreCronJob CronJob
  | QFetchConfigMap nsname
  | QStoreConfigMap ConfigMap
  | QFetchService nsname
  | QStoreService Service
  | QExec string string "string list" "string option"
  | QRand nat

datatype answer =
    RErr error
  | RUnit
  | RInstance Instance
  | RInstances "Instance list"
  | RSts StatefulSet
  | RPvc PVC
  | RSecret Secret
  | RPod Pod
  | RCronJob CronJob
  | RConfigMap ConfigMap
  | RService Service
  | RExec string string "error option" \<comment> \<open>stdout, stderr, how it ended\<close>
  | RBytes "nat list"

type_synonym event = "request \<times> answer"

text \<open>An answer of the wrong kind reads as an error.\<close>

definition malformed :: "error + 'a" where
  "malformed = Inl (ApiError ''malformed answer'')"

fun asUnit :: "answer \<Rightarrow> error + unit" where
  "asUnit (RErr e) = Inl e" | "asUnit _ = Inr ()"

fun asInstance :: "answer \<Rightarrow> error + Instance" where
  "asInstance (RErr e) = Inl e" | "asInstance (RInstance x) = Inr x" | "asInstance _ = malformed"

fun asInstances :: "answer \<Rightarrow> error + Instance list" where
  "asInstances (RErr e) = Inl e" | "asInstances (RInstances x) = Inr x"
| "asInstances _ = malformed"

fun asSts :: "answer \<Rightarrow> error + StatefulSet" where
  "asSts (RErr e) = Inl e" | "asSts (RSts x) = Inr x" | "asSts _ = malformed"

fun asPvc :: "answer \<Rightarrow> error + PVC" where
  "asPvc (RErr e) = Inl e" | "asPvc (RPvc x) = Inr x" | "asPvc _ = malformed"

fun asSecret :: "answer \<Rightarrow> error + Secret" where
  "asSecret (RErr e) = Inl e" | "asSecret (RSecret x) = Inr x" | "asSecret _ = malformed"

fun asPod :: "answer \<Rightarrow> error + Pod" where
  "asPod (RErr e) = Inl e" | "asPod (RPod x) = Inr x" | "asPod _ = malformed"

fun asCronJob :: "answer \<Rightarrow> error + CronJob" where
  "asCronJob (RErr e) = Inl e" | "asCronJob (RCronJob x) = Inr x" | "asCronJob _ = malformed"

fun asConfigMap :: "answer \<Rightarrow> error + ConfigMap" where
  "asConfigMap (RErr e) = Inl e" | "asConfigMap (RConfigMap x) = Inr x"
| "asConfigMap _ = malformed"

fun asService :: "answer \<Rightarrow> error + Service" where
  "asService (RErr e) = Inl e" | "asService (RService x) = Inr x" | "asService _ = malformed"

fun asBytes :: "answer \<Rightarrow> error + nat list" where
  "asBytes (RErr e) = Inl e" | "asBytes (RBytes x) = Inr x" | "asBytes _ = malformed"

section \<open>Programs\<close>

datatype 'a io = Ret 'a | Call request "answer \<Rightarrow> 'a io"

primrec bindIO :: "'a io \<Rightarrow> ('a \<Rightarrow> 'b io) \<Rightarrow> 'b io" where
  "bindIO (Ret a) f = f a"
| "bindIO (Call q k) f = Call q (\<lambda>r. bindIO (k r) f)"

lemma bindIO_Ret [simp]: "bindIO m Ret = m"
  by (induction m) auto

lemma bindIO_assoc [simp]: "bindIO (bindIO m f) g = bindIO m (\<lambda>x. bindIO (f x) g)"
  by (induction m) auto

text \<open>
  A run, cut off anywhere: the events so far and what is left of the program. A run that ends in
  \<open>Ret\<close> has returned; any other is one the process crashed in or is still in.
\<close>

inductive steps :: "'a io \<Rightarrow> event list \<Rightarrow> 'a io \<Rightarrow> bool" where
  stop: "steps p [] p"
| call: "steps (k r) tr p \<Longrightarrow> steps (Call q k) ((q, r) # tr) p"

inductive_cases steps_RetE: "steps (Ret a) tr p"
inductive_cases steps_CallE: "steps (Call q k) tr p"
inductive_simps steps_Nil_iff: "steps p [] p'"

text \<open>A run against an environment that answers from the history, latest event first.\<close>

primrec runWith :: "(event list \<Rightarrow> request \<Rightarrow> answer) \<Rightarrow> 'a io \<Rightarrow> event list \<Rightarrow> 'a \<times> event list" where
  "runWith env (Ret a) h = (a, h)"
| "runWith env (Call q k) h = runWith env (k (env h q)) ((q, env h q) # h)"

lemma runWith_steps:
  "runWith env p h = (a, h') \<Longrightarrow> \<exists>tr. h' = rev tr @ h \<and> steps p tr (Ret a)"
proof (induction p arbitrary: h)
  case (Ret x)
  then show ?case by (auto intro: steps.stop)
next
  case (Call q k)
  let ?r = "env h q"
  from Call.prems have "runWith env (k ?r) ((q, ?r) # h) = (a, h')" by simp
  then obtain tr where "h' = rev tr @ (q, ?r) # h" and "steps (k ?r) tr (Ret a)"
    using Call.IH [OF rangeI] by blast
  then have "h' = rev ((q, ?r) # tr) @ h" and "steps (Call q k) ((q, ?r) # tr) (Ret a)"
    by (auto intro: steps.call)
  then show ?case by blast
qed

section \<open>Weakest preconditions\<close>

text \<open>
  \<open>wp A G Q p h\<close>: started after history \<open>h\<close> (latest event first), every request of \<open>p\<close> satisfies
  the guard \<open>G\<close> at the time it is made, and \<open>p\<close> returns in \<open>Q\<close>, as long as the answers satisfy
  \<open>A\<close>.
\<close>

primrec wp :: "(event list \<Rightarrow> request \<Rightarrow> answer \<Rightarrow> bool) \<Rightarrow> (event list \<Rightarrow> request \<Rightarrow> bool)
    \<Rightarrow> ('a \<Rightarrow> event list \<Rightarrow> bool) \<Rightarrow> 'a io \<Rightarrow> event list \<Rightarrow> bool" where
  "wp A G Q (Ret a) h = Q a h"
| "wp A G Q (Call q k) h =
     (G h q \<and> (\<forall>r. A h q r \<longrightarrow> wp A G Q (k r) ((q, r) # h)))"

lemma wp_bindIO [simp]: "wp A G Q (bindIO m f) h = wp A G (\<lambda>a. wp A G Q (f a)) m h"
  by (induction m arbitrary: h) auto

lemma wp_mono:
  "wp A G Q p h \<Longrightarrow> (\<And>a h'. Q a h' \<Longrightarrow> Q' a h') \<Longrightarrow> (\<And>h' q. G h' q \<Longrightarrow> G' h' q) \<Longrightarrow> wp A G' Q' p h"
  by (induction p arbitrary: h) auto

lemma wp_conj:
  "wp A G Q p h \<Longrightarrow> wp A G' Q' p h
   \<Longrightarrow> wp A (\<lambda>h q. G h q \<and> G' h q) (\<lambda>a h. Q a h \<and> Q' a h) p h"
  by (induction p arbitrary: h) auto

text \<open>The answers of a trace after a history satisfy \<open>A\<close>.\<close>

fun answered :: "(event list \<Rightarrow> request \<Rightarrow> answer \<Rightarrow> bool) \<Rightarrow> event list \<Rightarrow> event list \<Rightarrow> bool" where
  "answered A h [] = True"
| "answered A h ((q, r) # tr) = (A h q r \<and> answered A ((q, r) # h) tr)"

lemma answered_history_free:
  "answered (\<lambda>h q r. P q r) h tr \<longleftrightarrow> (\<forall>(q, r)\<in>set tr. P q r)"
  by (induction tr arbitrary: h) auto

text \<open>Soundness: along a run, every request met the guard, and a result is in \<open>Q\<close>.\<close>

lemma wp_guard:
  "steps p tr p' \<Longrightarrow> wp A G Q p h \<Longrightarrow> answered A h tr \<Longrightarrow> tr = pre @ (q, r) # post
   \<Longrightarrow> G (rev pre @ h) q"
proof (induction arbitrary: h pre rule: steps.induct)
  case (stop p)
  then show ?case by simp
next
  case (call k r0 tr p q0)
  show ?case
  proof (cases pre)
    case Nil
    with call.prems show ?thesis by simp
  next
    case (Cons ev pre')
    with call.prems have "tr = pre' @ (q, r) # post" and "ev = (q0, r0)" by auto
    moreover have "wp A G Q (k r0) ((q0, r0) # h)" and "answered A ((q0, r0) # h) tr"
      using call.prems(1,2) by auto
    ultimately show ?thesis using call.IH Cons by fastforce
  qed
qed

lemma wp_result:
  "steps p tr p' \<Longrightarrow> wp A G Q p h \<Longrightarrow> answered A h tr \<Longrightarrow> p' = Ret a \<Longrightarrow> Q a (rev tr @ h)"
  by (induction arbitrary: h rule: steps.induct) auto

lemma wp_request:
  "steps p tr p' \<Longrightarrow> wp A (\<lambda>h q. R q) Q p h \<Longrightarrow> answered A h tr \<Longrightarrow> (q, r) \<in> set tr \<Longrightarrow> R q"
  by (metis split_list wp_guard)

section \<open>Actions on the instance\<close>

text \<open>
  The methods of the reconciler change the \<open>Instance\<close> object they are handed, also when they then
  fail, and return a value or an error: an action takes the object and gives the result with the
  object as it is left.
\<close>

type_synonym 'a act = "Instance \<Rightarrow> ((error + 'a) \<times> Instance) io"

definition ok :: "'a \<Rightarrow> 'a act" where
  "ok x = (\<lambda>i. Ret (Inr x, i))"

definition failA :: "error \<Rightarrow> 'a act" where
  "failA e = (\<lambda>i. Ret (Inl e, i))"

definition withI :: "(Instance \<Rightarrow> 'a act) \<Rightarrow> 'a act" where
  "withI f = (\<lambda>i. f i i)"

definition modifyI :: "(Instance \<Rightarrow> Instance) \<Rightarrow> unit act" where
  "modifyI f = (\<lambda>i. Ret (Inr (), f i))"

definition callA :: "request \<Rightarrow> (answer \<Rightarrow> error + 'a) \<Rightarrow> 'a act" where
  "callA q proj = (\<lambda>i. Call q (\<lambda>r. Ret (proj r, i)))"

text \<open>Inspect the outcome, as a \<open>switch\<close> on the error does.\<close>

definition tryA :: "'a act \<Rightarrow> (error + 'a \<Rightarrow> 'b act) \<Rightarrow> 'b act" where
  "tryA m f = (\<lambda>i. bindIO (m i) (\<lambda>(r, j). f r j))"

text \<open>\<open>x, err := m; if err != nil { return err }\<close>, then the rest.\<close>

definition bindA :: "'a act \<Rightarrow> ('a \<Rightarrow> 'b act) \<Rightarrow> 'b act" where
  "bindA m f = tryA m (\<lambda>r. case r of Inl e \<Rightarrow> failA e | Inr x \<Rightarrow> f x)"

definition thenA :: "unit act \<Rightarrow> 'b act \<Rightarrow> 'b act" where
  "thenA m n = bindA m (\<lambda>_. n)"

text \<open>\<open>if err := m; err != nil { return fmt.Errorf("...: %w", err) }\<close>\<close>

definition wrapA :: "string \<Rightarrow> 'a act \<Rightarrow> 'a act" where
  "wrapA pre m = tryA m (\<lambda>r. case r of Inl e \<Rightarrow> failA (Wrapf pre e []) | Inr x \<Rightarrow> ok x)"

definition whenA :: "bool \<Rightarrow> unit act \<Rightarrow> unit act" where
  "whenA b m = (if b then m else ok ())"

primrec forA :: "'x list \<Rightarrow> ('x \<Rightarrow> unit act) \<Rightarrow> unit act" where
  "forA [] f = ok ()"
| "forA (x # xs) f = thenA (f x) (forA xs f)"

text \<open>A write of the instance: on success the server's copy replaces the object.\<close>

definition replaceA :: "(Instance \<Rightarrow> request) \<Rightarrow> unit act" where
  "replaceA q = (\<lambda>i. Call (q i) (\<lambda>r. case asInstance r of
      Inl e \<Rightarrow> Ret (Inl e, i) | Inr j \<Rightarrow> Ret (Inr (), j)))"

definition updateStatus :: "unit act" where
  "updateStatus = replaceA QUpdateStatus"

definition updateInstance :: "unit act" where
  "updateInstance = replaceA QUpdateInstance"

lemmas act_defs [effect] =
  ok_def failA_def withI_def modifyI_def callA_def tryA_def bindA_def thenA_def wrapA_def whenA_def
  replaceA_def updateStatus_def updateInstance_def

section \<open>Rules for actions\<close>

definition wpa :: "(event list \<Rightarrow> request \<Rightarrow> answer \<Rightarrow> bool) \<Rightarrow> (event list \<Rightarrow> request \<Rightarrow> bool)
    \<Rightarrow> (error + 'a \<Rightarrow> Instance \<Rightarrow> event list \<Rightarrow> bool) \<Rightarrow> 'a act \<Rightarrow> Instance \<Rightarrow> event list \<Rightarrow> bool" where
  "wpa A G Q m i h = wp A G (\<lambda>(r, j) h'. Q r j h') (m i) h"

lemma wpa_ok [wprule]: "wpa A G Q (ok x) i h = Q (Inr x) i h"
  by (simp add: wpa_def ok_def)

lemma wpa_failA [wprule]: "wpa A G Q (failA e) i h = Q (Inl e) i h"
  by (simp add: wpa_def failA_def)

lemma wpa_withI [wprule]: "wpa A G Q (withI f) i h = wpa A G Q (f i) i h"
  by (simp add: wpa_def withI_def)

lemma wpa_modifyI [wprule]: "wpa A G Q (modifyI f) i h = Q (Inr ()) (f i) h"
  by (simp add: wpa_def modifyI_def)

lemma wpa_callA [wprule]:
  "wpa A G Q (callA q proj) i h =
     (G h q \<and> (\<forall>r. A h q r \<longrightarrow> Q (proj r) i ((q, r) # h)))"
  by (simp add: wpa_def callA_def)

lemma wpa_tryA [wprule]:
  "wpa A G Q (tryA m f) i h = wpa A G (\<lambda>r j h'. wpa A G Q (f r) j h') m i h"
  by (simp add: wpa_def tryA_def case_prod_unfold)

text \<open>The two outcomes are two implications rather than a \<open>case\<close>, so that the simplifier goes on
  inside them.\<close>

lemma wpa_bindA [wprule]:
  "wpa A G Q (bindA m f) i h =
     wpa A G (\<lambda>r j h'. (\<forall>e. r = Inl e \<longrightarrow> Q (Inl e) j h') \<and>
                      (\<forall>x. r = Inr x \<longrightarrow> wpa A G Q (f x) j h')) m i h"
  unfolding bindA_def wpa_tryA
  by (rule arg_cong [where f = "\<lambda>P. wpa A G P m i h"]) (auto simp: fun_eq_iff wpa_failA split: sum.splits)

lemma wpa_thenA [wprule]:
  "wpa A G Q (thenA m n) i h =
     wpa A G (\<lambda>r j h'. (\<forall>e. r = Inl e \<longrightarrow> Q (Inl e) j h') \<and>
                      (\<forall>x. r = Inr x \<longrightarrow> wpa A G Q n j h')) m i h"
  by (simp add: thenA_def wpa_bindA)

lemma wpa_wrapA [wprule]:
  "wpa A G Q (wrapA pre m) i h =
     wpa A G (\<lambda>r j h'. (\<forall>e. r = Inl e \<longrightarrow> Q (Inl (Wrapf pre e [])) j h') \<and>
                      (\<forall>x. r = Inr x \<longrightarrow> Q (Inr x) j h')) m i h"
  unfolding wrapA_def wpa_tryA
  by (rule arg_cong [where f = "\<lambda>P. wpa A G P m i h"])
    (auto simp: fun_eq_iff wpa_failA wpa_ok split: sum.splits)

lemma wpa_whenA [wprule]:
  "wpa A G Q (whenA b m) i h = (if b then wpa A G Q m i h else Q (Inr ()) i h)"
  by (simp add: whenA_def wpa_ok)

lemma wpa_replaceA [wprule]:
  "wpa A G Q (replaceA q) i h =
     (G h (q i) \<and> (\<forall>r. A h (q i) r \<longrightarrow>
        (\<forall>e. asInstance r = Inl e \<longrightarrow> Q (Inl e) i ((q i, r) # h)) \<and>
        (\<forall>j. asInstance r = Inr j \<longrightarrow> Q (Inr ()) j ((q i, r) # h))))"
  by (auto simp: wpa_def replaceA_def split: sum.splits)

lemma wpa_updateStatus [wprule]:
  "wpa A G Q updateStatus i h =
     (G h (QUpdateStatus i) \<and> (\<forall>r. A h (QUpdateStatus i) r \<longrightarrow>
        (\<forall>e. asInstance r = Inl e \<longrightarrow> Q (Inl e) i ((QUpdateStatus i, r) # h)) \<and>
        (\<forall>j. asInstance r = Inr j \<longrightarrow> Q (Inr ()) j ((QUpdateStatus i, r) # h))))"
  by (simp add: updateStatus_def wpa_replaceA)

lemma wpa_updateInstance [wprule]:
  "wpa A G Q updateInstance i h =
     (G h (QUpdateInstance i) \<and> (\<forall>r. A h (QUpdateInstance i) r \<longrightarrow>
        (\<forall>e. asInstance r = Inl e \<longrightarrow> Q (Inl e) i ((QUpdateInstance i, r) # h)) \<and>
        (\<forall>j. asInstance r = Inr j \<longrightarrow> Q (Inr ()) j ((QUpdateInstance i, r) # h))))"
  by (simp add: updateInstance_def wpa_replaceA)

lemma wpa_case_sum [wprule]:
  "wpa A G Q (case r of Inl e \<Rightarrow> f e | Inr x \<Rightarrow> g x) i h =
     ((\<forall>e. r = Inl e \<longrightarrow> wpa A G Q (f e) i h) \<and> (\<forall>x. r = Inr x \<longrightarrow> wpa A G Q (g x) i h))"
  by (cases r) auto

lemma wpa_case_option [wprule]:
  "wpa A G Q (case r of None \<Rightarrow> m | Some x \<Rightarrow> g x) i h =
     ((r = None \<longrightarrow> wpa A G Q m i h) \<and> (\<forall>x. r = Some x \<longrightarrow> wpa A G Q (g x) i h))"
  by (cases r) auto

lemma wpa_If [wprule]:
  "wpa A G Q (if b then m else n) i h =
     ((b \<longrightarrow> wpa A G Q m i h) \<and> (\<not> b \<longrightarrow> wpa A G Q n i h))"
  by simp

lemma wpa_mono:
  "wpa A G Q m i h \<Longrightarrow> (\<And>r j h'. Q r j h' \<Longrightarrow> Q' r j h') \<Longrightarrow> (\<And>h' q. G h' q \<Longrightarrow> G' h' q)
   \<Longrightarrow> wpa A G' Q' m i h"
  unfolding wpa_def by (erule wp_mono) auto

lemma wpa_conj:
  "wpa A G Q m i h \<Longrightarrow> wpa A G' Q' m i h
   \<Longrightarrow> wpa A (\<lambda>h q. G h q \<and> G' h q) (\<lambda>r j h. Q r j h \<and> Q' r j h) m i h"
  unfolding wpa_def using wp_conj [of A G _ "m i" h G'] by (fastforce elim: wp_mono)

lemma wpa_trivial: "wpa A (\<lambda>_ _. True) (\<lambda>_ _ _. True) m i h"
proof -
  have "wp A (\<lambda>_ _. True) (\<lambda>_ _. True) p h" for p :: "((error + 'a) \<times> Instance) io" and h
    by (induction p arbitrary: h) auto
  then show ?thesis by (simp add: wpa_def case_prod_unfold)
qed

text \<open>Loops: an invariant of the instance and the history that every pass keeps.\<close>

lemma wpa_forA:
  assumes inv: "I i h"
    and pass: "\<And>x j h'. x \<in> set xs \<Longrightarrow> I j h' \<Longrightarrow>
      wpa A G (\<lambda>r j' h''. (\<forall>e. r = Inl e \<longrightarrow> Q (Inl e) j' h'') \<and> (\<forall>u. r = Inr u \<longrightarrow> I j' h'')) (f x) j h'"
    and exit: "\<And>j h'. I j h' \<Longrightarrow> Q (Inr ()) j h'"
  shows "wpa A G Q (forA xs f) i h"
  using inv pass
proof (induction xs arbitrary: i h)
  case Nil
  then show ?case by (simp add: wpa_ok exit)
next
  case (Cons x xs)
  have "wpa A G (\<lambda>r j' h''. (\<forall>e. r = Inl e \<longrightarrow> Q (Inl e) j' h'') \<and> (\<forall>u. r = Inr u \<longrightarrow> I j' h'')) (f x) i h"
    using Cons.prems by simp
  then have "wpa A G (\<lambda>r j h'. (\<forall>e. r = Inl e \<longrightarrow> Q (Inl e) j h') \<and>
      (\<forall>u. r = Inr u \<longrightarrow> wpa A G Q (forA xs f) j h')) (f x) i h"
    by (rule wpa_mono) (use Cons in auto)
  then show ?case by (simp add: wpa_thenA)
qed

text \<open>The outcome of a step that does not touch the object.\<close>

definition untouched :: "Instance \<Rightarrow> event list \<Rightarrow> (event set \<Rightarrow> bool) \<Rightarrow> error + 'a \<Rightarrow> Instance \<Rightarrow> event list \<Rightarrow> bool" where
  "untouched i h P r j h' = (j = i \<and> set h \<subseteq> set h' \<and> (\<forall>x. r = Inr x \<longrightarrow> P (set h')))"

lemma untouched_simps [simp]:
  "untouched i h P (Inl e) j h' \<longleftrightarrow> j = i \<and> set h \<subseteq> set h'"
  "untouched i h P (Inr x) j h' \<longleftrightarrow> j = i \<and> set h \<subseteq> set h' \<and> P (set h')"
  by (auto simp: untouched_def)

lemma untouchedD: "untouched i h P r j h' \<Longrightarrow> j = i \<and> set h \<subseteq> set h'"
  by (auto simp: untouched_def)

lemma untouched_wrapA:
  "wpa A G (untouched i h P) m i h' \<Longrightarrow> wpa A G (untouched i h P) (wrapA pre m) i h'"
  unfolding wpa_wrapA by (erule wpa_mono) (auto simp: untouched_def)

text \<open>Steps that do not touch the object, one after the other: what each has seen stays seen, and the
  later ones may rely on it.\<close>

lemma untouched_bindA:
  assumes "wpa A G (untouched i h P) m i h"
    and next_step: "\<And>x h'. set h \<subseteq> set h' \<Longrightarrow> P (set h') \<Longrightarrow> wpa A G (untouched i h' Q) (f x) i h'"
    and mono: "\<And>E F. P E \<Longrightarrow> E \<subseteq> F \<Longrightarrow> P F"
  shows "wpa A G (untouched i h (\<lambda>E. P E \<and> Q E)) (bindA m f) i h"
proof -
  have "wpa A G (untouched i h (\<lambda>E. P E \<and> Q E)) (f x) i h'" if "set h \<subseteq> set h'" "P (set h')" for x h'
    by (rule wpa_mono [OF next_step [OF that]])
      (use that mono [of "set h'"] in \<open>auto simp: untouched_def\<close>)
  then show ?thesis
    unfolding wpa_bindA by (intro wpa_mono [OF assms(1)]) (auto simp: untouched_def)
qed

lemma untouched_thenA:
  assumes "wpa A G (untouched i h P) m i h" and "\<And>h'. wpa A G (untouched i h' Q) n i h'"
    and "\<And>E F. P E \<Longrightarrow> E \<subseteq> F \<Longrightarrow> P F"
  shows "wpa A G (untouched i h (\<lambda>E. P E \<and> Q E)) (thenA m n) i h"
  unfolding thenA_def by (rule untouched_bindA [OF assms(1)]) (use assms(2,3) in auto)

text \<open>A loop over steps that do not touch the object: each step's result holds at the end.\<close>

lemma untouched_forA:
  assumes "\<And>x h'. x \<in> set xs \<Longrightarrow> wpa A G (untouched i h' (P x)) (f x) i h'"
    and mono: "\<And>x E F. P x E \<Longrightarrow> E \<subseteq> F \<Longrightarrow> P x F"
  shows "wpa A G (untouched i h (\<lambda>E. \<forall>x\<in>set xs. P x E)) (forA xs f) i h"
  using assms(1)
proof (induction xs arbitrary: h)
  case Nil
  then show ?case by (simp add: wpa_ok)
next
  case (Cons x xs)
  have step: "wpa A G (untouched i h' (\<lambda>E. \<forall>y\<in>set (x # xs). P y E)) (forA xs f) i h''"
    if "set h' \<subseteq> set h''" "P x (set h'')" for h' h''
    using Cons.IH [of h''] Cons.prems that
    by (auto elim!: wpa_mono simp: untouched_def dest: mono [of x])
  have "wpa A G (untouched i h (P x)) (f x) i h" using Cons.prems by simp
  then show ?case
    unfolding forA.simps wpa_thenA
  proof (rule wpa_mono)
    fix r j h' assume "untouched i h (P x) r j h'"
    then show "(\<forall>e. r = Inl e \<longrightarrow> untouched i h (\<lambda>E. \<forall>y\<in>set (x # xs). P y E) (Inl e) j h')
      \<and> (\<forall>u. r = Inr u \<longrightarrow> wpa A G (untouched i h (\<lambda>E. \<forall>y\<in>set (x # xs). P y E)) (forA xs f) j h')"
      using step [of h h'] by (cases r) auto
  qed
qed

text \<open>What the rules give for a run, whatever the cluster answers.\<close>

lemma wpa_run:
  assumes "steps (m i) tr p" and "wpa (\<lambda>_ _ _. True) G Q m i []"
  shows "(\<forall>pre q a post. tr = pre @ (q, a) # post \<longrightarrow> G (rev pre) q)
    \<and> (\<forall>r j. p = Ret (r, j) \<longrightarrow> Q r j (rev tr))"
proof -
  have any: "answered (\<lambda>_ _ _. True) [] t" for t
    by (simp add: answered_history_free [where P = "\<lambda>_ _. True"] case_prod_unfold)
  show ?thesis
    using wp_guard [OF assms(1) assms(2) [unfolded wpa_def] any]
      wp_result [OF assms(1) assms(2) [unfolded wpa_def] any] by fastforce
qed

section \<open>What the API server promises\<close>

text \<open>
  A write that is accepted is answered with the object as it was written: with optimistic locking a
  write is refused when somebody else changed the object meanwhile. Properties that follow the
  object over several writes assume it, by name.
\<close>

definition echo :: "request \<Rightarrow> answer \<Rightarrow> bool" where
  "echo q r = (\<forall>i j. (q = QUpdateStatus i \<or> q = QUpdateInstance i) \<and> r = RInstance j \<longrightarrow> j = i)"

definition honest :: "event list \<Rightarrow> bool" where
  "honest tr = list_all (\<lambda>(q, r). echo q r) tr"

abbreviation echoes :: "event list \<Rightarrow> request \<Rightarrow> answer \<Rightarrow> bool" where
  "echoes \<equiv> \<lambda>h. echo"

lemma asInstance_Inr: "asInstance r = Inr j \<longleftrightarrow> r = RInstance j"
  by (cases r) (auto simp: malformed_def)

lemma asSts_Inr: "asSts r = Inr s \<longleftrightarrow> r = RSts s"
  by (cases r) (auto simp: malformed_def)

lemma asPod_Inr: "asPod r = Inr s \<longleftrightarrow> r = RPod s"
  by (cases r) (auto simp: malformed_def)

lemma asCronJob_Inr [simp]: "asCronJob r = Inr cj \<longleftrightarrow> r = RCronJob cj"
  by (cases r) (auto simp: malformed_def)

lemma asConfigMap_Inr: "asConfigMap r = Inr cm \<longleftrightarrow> r = RConfigMap cm"
  by (cases r) (auto simp: malformed_def)

lemma asService_Inr: "asService r = Inr svc \<longleftrightarrow> r = RService svc"
  by (cases r) (auto simp: malformed_def)

lemma asSecret_Inr: "asSecret r = Inr s \<longleftrightarrow> r = RSecret s"
  by (cases r) (auto simp: malformed_def)

lemma asPvc_Inr: "asPvc r = Inr s \<longleftrightarrow> r = RPvc s"
  by (cases r) (auto simp: malformed_def)

lemma asUnit_Inl: "asUnit r = Inl e \<longleftrightarrow> r = RErr e"
  by (cases r) auto

lemmas answer_values = asConfigMap_Inr asService_Inr asInstance_Inr asSts_Inr asPod_Inr asSecret_Inr asPvc_Inr asUnit_Inl

lemma echo_status [simp]: "echo (QUpdateStatus i) (RInstance j) \<longleftrightarrow> j = i"
  by (auto simp: echo_def)

lemma echo_instance [simp]: "echo (QUpdateInstance i) (RInstance j) \<longleftrightarrow> j = i"
  by (auto simp: echo_def)

lemma honest_Nil [simp]: "honest []"
  by (simp add: honest_def)

lemma honest_Cons [simp]: "honest ((q, r) # tr) \<longleftrightarrow> echo q r \<and> honest tr"
  by (simp add: honest_def)

lemma answered_echoes: "answered echoes h tr = honest tr"
  unfolding answered_history_free honest_def list_all_iff ..

text \<open>The instance as the server holds it: the last one it accepted.\<close>

fun stored :: "Instance \<Rightarrow> event list \<Rightarrow> Instance" where
  "stored i [] = i"
| "stored i ((QUpdateStatus j, RInstance k) # h) = k"
| "stored i ((QUpdateInstance j, RInstance k) # h) = k"
| "stored i (ev # h) = stored i h"

section \<open>The requests an action can make\<close>

definition emits :: "(request \<Rightarrow> bool) \<Rightarrow> 'a act \<Rightarrow> bool" where
  "emits R m = (\<forall>i h. wpa (\<lambda>_ _ _. True) (\<lambda>_ q. R q) (\<lambda>_ _ _. True) m i h)"

named_theorems emit \<open>introduction rules for the requests of an action\<close>

lemma emits_ok [emit]: "emits R (ok x)"
  by (simp add: emits_def wpa_ok)

lemma emits_failA [emit]: "emits R (failA e)"
  by (simp add: emits_def wpa_failA)

lemma emits_modifyI [emit]: "emits R (modifyI f)"
  by (simp add: emits_def wpa_modifyI)

lemma emits_callA [emit]: "R q \<Longrightarrow> emits R (callA q proj)"
  by (simp add: emits_def wpa_callA)

lemma emits_withI [emit]: "(\<And>i. emits R (f i)) \<Longrightarrow> emits R (withI f)"
  by (simp add: emits_def wpa_withI)

lemma emits_tryA [emit]:
  assumes "emits R m" and "\<And>r. emits R (f r)"
  shows "emits R (tryA m f)"
  unfolding emits_def wpa_tryA
proof (intro allI)
  fix i h
  have "wpa (\<lambda>_ _ _. True) (\<lambda>_ q. R q) (\<lambda>_ _ _. True) m i h"
    using assms(1) by (simp add: emits_def)
  then show "wpa (\<lambda>_ _ _. True) (\<lambda>_ q. R q) (\<lambda>r j h'. wpa (\<lambda>_ _ _. True) (\<lambda>_ q. R q)
      (\<lambda>_ _ _. True) (f r) j h') m i h"
    by (rule wpa_mono) (use assms(2) in \<open>auto simp: emits_def\<close>)
qed

lemma emits_bindA [emit]: "emits R m \<Longrightarrow> (\<And>x. emits R (f x)) \<Longrightarrow> emits R (bindA m f)"
  unfolding bindA_def by (rule emits_tryA) (auto intro: emits_failA split: sum.splits)

lemma emits_thenA [emit]: "emits R m \<Longrightarrow> emits R n \<Longrightarrow> emits R (thenA m n)"
  unfolding thenA_def by (rule emits_bindA)

lemma emits_wrapA [emit]: "emits R m \<Longrightarrow> emits R (wrapA pre m)"
  unfolding wrapA_def by (rule emits_tryA) (auto intro: emits_failA emits_ok split: sum.splits)

lemma emits_whenA [emit]: "(b \<Longrightarrow> emits R m) \<Longrightarrow> emits R (whenA b m)"
  by (simp add: whenA_def emits_ok)

lemma emits_forA [emit]: "(\<And>x. x \<in> set xs \<Longrightarrow> emits R (f x)) \<Longrightarrow> emits R (forA xs f)"
  by (induction xs) (auto intro: emit)

lemma emits_replaceA [emit]: "(\<And>i. R (q i)) \<Longrightarrow> emits R (replaceA q)"
  by (simp add: emits_def wpa_replaceA)

lemma emits_updateStatus [emit]: "(\<And>i. R (QUpdateStatus i)) \<Longrightarrow> emits R updateStatus"
  unfolding updateStatus_def by (rule emits_replaceA)

lemma emits_updateInstance [emit]: "(\<And>i. R (QUpdateInstance i)) \<Longrightarrow> emits R updateInstance"
  unfolding updateInstance_def by (rule emits_replaceA)

lemma emits_if [emit]: "(b \<Longrightarrow> emits R m) \<Longrightarrow> (\<not> b \<Longrightarrow> emits R n) \<Longrightarrow> emits R (if b then m else n)"
  by simp

lemma emits_sum [emit]:
  "(\<And>e. r = Inl e \<Longrightarrow> emits R (f e)) \<Longrightarrow> (\<And>x. r = Inr x \<Longrightarrow> emits R (g x))
   \<Longrightarrow> emits R (case r of Inl e \<Rightarrow> f e | Inr x \<Rightarrow> g x)"
  by (cases r) auto

lemma emits_option [emit]:
  "(r = None \<Longrightarrow> emits R m) \<Longrightarrow> (\<And>x. r = Some x \<Longrightarrow> emits R (g x))
   \<Longrightarrow> emits R (case r of None \<Rightarrow> m | Some x \<Rightarrow> g x)"
  by (cases r) auto

lemma emits_mono: "emits R m \<Longrightarrow> (\<And>q. R q \<Longrightarrow> R' q) \<Longrightarrow> emits R' m"
  unfolding emits_def by (blast intro: wpa_mono)

text \<open>Every answer allowed is the weakest environment; a stronger one changes nothing.\<close>

lemma wp_stronger_answers:
  "wp A' G Q p h \<Longrightarrow> (\<And>h q r. A h q r \<Longrightarrow> A' h q r) \<Longrightarrow> wp A G Q p h"
  by (induction p arbitrary: h) auto

text \<open>Other answers will do as long as, in an invariant of the history, the guard makes them good ones.\<close>

lemma wp_under:
  "wp A G Q p h \<Longrightarrow> I h \<Longrightarrow> (\<And>h q r. I h \<Longrightarrow> G h q \<Longrightarrow> A' h q r \<Longrightarrow> A h q r \<and> I ((q, r) # h)) \<Longrightarrow> wp A' G Q p h"
proof (induction p arbitrary: h)
  case (Call q k)
  then show ?case by auto
qed simp

lemma wp_any_answer:
  "wp (\<lambda>_ _ _. True) G Q p h \<Longrightarrow> wp A G Q p h"
  by (rule wp_stronger_answers) simp_all

lemma emits_wpa: "emits R m \<Longrightarrow> wpa A (\<lambda>_ q. R q) (\<lambda>_ _ _. True) m i h"
  unfolding emits_def wpa_def by (blast intro: wp_any_answer)

lemma emits_steps: "emits R m \<Longrightarrow> steps (m i) tr p \<Longrightarrow> (q, r) \<in> set tr \<Longrightarrow> R q"
  using wp_request [of "m i" tr p "\<lambda>_ _ _. True" R "\<lambda>_ _. True" "[]" q r]
  unfolding emits_def wpa_def
  by (simp add: answered_history_free [where P = "\<lambda>_ _. True"] case_prod_unfold)

section \<open>What an action leaves as it is\<close>

text \<open>
  \<open>steady f m\<close>: as long as accepted writes are echoed, \<open>m\<close> neither changes \<open>f\<close> of the object nor
  asks the server to store an object with another \<open>f\<close>. It composes like \<open>emits\<close>.
\<close>

fun writes_object :: "request \<Rightarrow> bool" where
  "writes_object (QUpdateStatus j) = True"
| "writes_object (QUpdateInstance j) = True"
| "writes_object _ = False"

fun sameIn :: "(Instance \<Rightarrow> 'k) \<Rightarrow> 'k \<Rightarrow> request \<Rightarrow> bool" where
  "sameIn f k (QUpdateStatus j) = (f j = k)"
| "sameIn f k (QUpdateInstance j) = (f j = k)"
| "sameIn f k q = True"

lemma sameIn_other: "\<not> writes_object q \<Longrightarrow> sameIn f k q"
  by (cases q) auto

definition steady :: "(Instance \<Rightarrow> 'k) \<Rightarrow> 'a act \<Rightarrow> bool" where
  "steady f m = (\<forall>i h. wpa echoes (\<lambda>_. sameIn f (f i)) (\<lambda>r j h'. f j = f i) m i h)"

named_theorems keep \<open>introduction rules for what an action leaves as it is\<close>

lemma steady_ok [keep]: "steady f (ok x)"
  by (simp add: steady_def wpa_ok)

lemma steady_failA [keep]: "steady f (failA e)"
  by (simp add: steady_def wpa_failA)

lemma steady_modifyI [keep]: "(\<And>i. f (g i) = f i) \<Longrightarrow> steady f (modifyI g)"
  by (simp add: steady_def wpa_modifyI)

lemma steady_callA [keep]: "\<not> writes_object q \<Longrightarrow> steady f (callA q proj)"
  by (simp add: steady_def wpa_callA sameIn_other)

lemma steady_withI [keep]: "(\<And>i. steady f (g i)) \<Longrightarrow> steady f (withI g)"
  by (simp add: steady_def wpa_withI)

lemma steady_tryA [keep]:
  assumes "steady f m" and "\<And>r. steady f (g r)"
  shows "steady f (tryA m g)"
  unfolding steady_def wpa_tryA
proof (intro allI)
  fix i h
  have "wpa echoes (\<lambda>_. sameIn f (f i)) (\<lambda>r j h'. f j = f i) m i h"
    using assms(1) by (simp add: steady_def)
  then show "wpa echoes (\<lambda>_. sameIn f (f i))
      (\<lambda>r j h'. wpa echoes (\<lambda>_. sameIn f (f i)) (\<lambda>r j h'. f j = f i) (g r) j h') m i h"
  proof (rule wpa_mono)
    fix r j h' assume "f j = f i"
    then show "wpa echoes (\<lambda>_. sameIn f (f i)) (\<lambda>r j h'. f j = f i) (g r) j h'"
      using assms(2) [of r] by (metis steady_def)
  qed
qed

lemma steady_bindA [keep]: "steady f m \<Longrightarrow> (\<And>x. steady f (g x)) \<Longrightarrow> steady f (bindA m g)"
  unfolding bindA_def by (rule steady_tryA) (auto intro: steady_failA split: sum.splits)

lemma steady_thenA [keep]: "steady f m \<Longrightarrow> steady f n \<Longrightarrow> steady f (thenA m n)"
  unfolding thenA_def by (rule steady_bindA)

lemma steady_wrapA [keep]: "steady f m \<Longrightarrow> steady f (wrapA pre m)"
  unfolding wrapA_def by (rule steady_tryA) (auto intro: steady_failA steady_ok split: sum.splits)

lemma steady_whenA [keep]: "(b \<Longrightarrow> steady f m) \<Longrightarrow> steady f (whenA b m)"
  by (simp add: whenA_def steady_ok)

lemma steady_forA [keep]: "(\<And>x. x \<in> set xs \<Longrightarrow> steady f (g x)) \<Longrightarrow> steady f (forA xs g)"
  by (induction xs) (auto intro: keep)

lemma steady_updateStatus [keep]: "steady f updateStatus"
  by (auto simp: steady_def wpa_updateStatus asInstance_Inr)

lemma steady_updateInstance [keep]: "steady f updateInstance"
  by (auto simp: steady_def wpa_updateInstance asInstance_Inr)

lemma steady_if [keep]: "(b \<Longrightarrow> steady f m) \<Longrightarrow> (\<not> b \<Longrightarrow> steady f n) \<Longrightarrow> steady f (if b then m else n)"
  by simp

lemma steady_sum [keep]:
  "(\<And>e. r = Inl e \<Longrightarrow> steady f (g e)) \<Longrightarrow> (\<And>x. r = Inr x \<Longrightarrow> steady f (g' x))
   \<Longrightarrow> steady f (case r of Inl e \<Rightarrow> g e | Inr x \<Rightarrow> g' x)"
  by (cases r) auto

lemma steady_option [keep]:
  "(r = None \<Longrightarrow> steady f m) \<Longrightarrow> (\<And>x. r = Some x \<Longrightarrow> steady f (g x))
   \<Longrightarrow> steady f (case r of None \<Rightarrow> m | Some x \<Rightarrow> g x)"
  by (cases r) auto

lemma steady_wpa: "steady f m \<Longrightarrow> wpa echoes (\<lambda>_ _. True) (\<lambda>r j h'. f j = f i) m i h"
  unfolding steady_def by (blast intro: wpa_mono)

text \<open>Where the object and the server agree on \<open>f\<close>, they still do after a steady action.\<close>

definition agrees :: "(Instance \<Rightarrow> 'k) \<Rightarrow> Instance \<Rightarrow> 'k \<Rightarrow> Instance \<Rightarrow> event list \<Rightarrow> bool" where
  "agrees f s k i h = (f i = k \<and> f (stored s h) = k)"

lemma stored_step:
  "echo q r \<Longrightarrow> sameIn f k q \<Longrightarrow> f (stored s h) = k \<Longrightarrow> f (stored s ((q, r) # h)) = k"
  by (cases q; cases r) auto

lemma wp_stored:
  "wp echoes (\<lambda>_. sameIn f k) Q p h \<Longrightarrow> f (stored s h) = k
   \<Longrightarrow> wp echoes (\<lambda>h q. sameIn f k q \<and> f (stored s h) = k) (\<lambda>a h'. Q a h' \<and> f (stored s h') = k) p h"
proof (induction p arbitrary: h)
  case (Ret a)
  then show ?case by simp
next
  case (Call q c)
  show ?case
  proof (simp, intro conjI allI impI)
    show "sameIn f k q" and "f (stored s h) = k" using Call.prems by simp_all
    fix r assume e: "echo q r"
    show "wp echoes (\<lambda>h q. sameIn f k q \<and> f (stored s h) = k)
        (\<lambda>a h'. Q a h' \<and> f (stored s h') = k) (c r) ((q, r) # h)"
      using Call.IH [OF rangeI, of r "(q, r) # h"] Call.prems e
        stored_step [OF e \<open>sameIn f k q\<close> \<open>f (stored s h) = k\<close>] by simp
  qed
qed

lemma steady_agrees:
  assumes "steady f m" and "agrees f s k i h"
  shows "wpa echoes (\<lambda>h q. sameIn f k q \<and> f (stored s h) = k) (\<lambda>r j h'. agrees f s k j h') m i h"
proof -
  have fi: "f i = k" and st: "f (stored s h) = k" using assms(2) by (simp_all add: agrees_def)
  have "wp echoes (\<lambda>_. sameIn f k) (\<lambda>(r, j) h'. f j = k) (m i) h"
    using assms(1) fi by (auto simp: steady_def wpa_def)
  from wp_stored [OF this st] show ?thesis
    unfolding wpa_def by (rule wp_mono) (auto simp: agrees_def)
qed

text \<open>The history only grows.\<close>

lemma wp_extends:
  "wp A G Q p h \<Longrightarrow> wp A (\<lambda>h' q. G h' q \<and> set h \<subseteq> set h') (\<lambda>a h'. Q a h' \<and> set h \<subseteq> set h') p h"
proof (induction p arbitrary: h)
  case (Ret a)
  then show ?case by simp
next
  case (Call q k)
  show ?case
  proof (simp, intro conjI allI impI)
    show "G h q" using Call.prems by simp
    fix r assume "A h q r"
    then have "wp A G Q (k r) ((q, r) # h)" using Call.prems by simp
    from Call.IH [OF rangeI this]
    show "wp A (\<lambda>h' q. G h' q \<and> set h \<subseteq> set h') (\<lambda>a h'. Q a h' \<and> set h \<subseteq> set h') (k r) ((q, r) # h)"
      by (rule wp_mono) auto
  qed
qed

lemma wpa_extends:
  "wpa A G Q m i h \<Longrightarrow> wpa A (\<lambda>h' q. G h' q \<and> set h \<subseteq> set h')
     (\<lambda>r j h'. Q r j h' \<and> set h \<subseteq> set h') m i h"
  unfolding wpa_def by (drule wp_extends) (erule wp_mono, auto)

end
