(* ===== verification/Status.thy ===== *)
theory Status
  imports Effects
begin

text \<open>
  The writers of \<open>instance.Status\<close> in \<open>instance_controller.go\<close>. All of them follow one contract: when
  the status already says what they would write they make no request, otherwise they change the
  object and make exactly one status update, whose answer replaces the object. The contract is a
  locale; each writer is an interpretation of it.
\<close>

section \<open>The writers\<close>

definition conditionTypeAvailable :: string where "conditionTypeAvailable = ''Available''"
definition phaseProvisioning :: string where "phaseProvisioning = ''Provisioning''"
definition phaseReady :: string where "phaseReady = ''Ready''"
definition phaseDeleting :: string where "phaseDeleting = ''Deleting''"
definition phaseUpgrading :: string where "phaseUpgrading = ''Upgrading''"

definition setProgress :: "string \<Rightarrow> unit act" where
  "setProgress message = withI (\<lambda>i.
     if st_message (in_status i) = message \<and> st_error (in_status i) = [] then ok ()
     else thenA (modifyI (upd_status (\<lambda>s. s\<lparr>st_message := message, st_error := []\<rparr>)))
            (wrapA ''failed to report progress: '' updateStatus))"

definition setDeletionMessage :: "string \<Rightarrow> unit act" where
  "setDeletionMessage message = withI (\<lambda>i.
     if st_message (in_status i) = message then ok ()
     else thenA (modifyI (upd_status (\<lambda>s. s\<lparr>st_message := message\<rparr>)))
            (wrapA ''failed to report deletion progress: '' updateStatus))"

definition errorText :: "error option \<Rightarrow> string" where
  "errorText reconcileErr = (case reconcileErr of None \<Rightarrow> [] | Some e \<Rightarrow> errorMsg e)"

text \<open>The text of \<open>status.message\<close>: the error, else the warning, else why the instance is or is not
  available.\<close>

definition errorSummary :: "lib \<Rightarrow> string \<Rightarrow> InstanceStatus \<Rightarrow> string" where
  "errorSummary L message s =
     (if message \<noteq> [] then message
      else if st_warning s \<noteq> [] then st_warning s
      else case lib_findStatusCondition L (st_conditions s) conditionTypeAvailable of
             Some c \<Rightarrow> cond_message c | None \<Rightarrow> [])"

definition setError :: "lib \<Rightarrow> error option \<Rightarrow> unit act" where
  "setError L reconcileErr = withI (\<lambda>i.
     let message = errorText reconcileErr; summary = errorSummary L message (in_status i) in
     if st_error (in_status i) = message \<and> st_message (in_status i) = summary then ok ()
     else thenA (modifyI (upd_status (\<lambda>s. s\<lparr>st_error := message, st_message := summary\<rparr>)))
            updateStatus)"

definition setPhase :: "string \<Rightarrow> unit act" where
  "setPhase phase = withI (\<lambda>i.
     if st_phase (in_status i) = phase then ok ()
     else thenA (modifyI (upd_status (\<lambda>s. s\<lparr>st_phase := phase\<rparr>))) updateStatus)"

definition availableCondition :: "string \<Rightarrow> string \<Rightarrow> string \<Rightarrow> Instance \<Rightarrow> Condition" where
  "availableCondition status reason message i =
     \<lparr>cond_type = conditionTypeAvailable, cond_status = status, cond_reason = reason,
      cond_message = message, cond_observedGeneration = in_generation i\<rparr>"

definition setAvailable :: "lib \<Rightarrow> string \<Rightarrow> string \<Rightarrow> string \<Rightarrow> unit act" where
  "setAvailable L status reason message = withI (\<lambda>i.
     let (conds, changed) = lib_setStatusCondition L (st_conditions (in_status i))
           (availableCondition status reason message i) in
     thenA (modifyI (upd_status (\<lambda>s. s\<lparr>st_conditions := conds\<rparr>)))
       (if \<not> changed then ok () else updateStatus))"

section \<open>The contract\<close>

text \<open>
  \<open>edited i\<close> is the object as the writer leaves it before the update, \<open>settled i\<close> that no update is
  needed, \<open>wrapped e\<close> the error it returns when the update fails with \<open>e\<close>.
\<close>

locale status_writer =
  fixes writer :: "unit act"
    and settled :: "Instance \<Rightarrow> bool"
    and edited :: "Instance \<Rightarrow> Instance"
    and wrapped :: "error \<Rightarrow> error"
  assumes skips: "settled i \<Longrightarrow> writer i = Ret (Inr (), edited i)"
    and writes: "\<not> settled i \<Longrightarrow> writer i =
      Call (QUpdateStatus (edited i)) (\<lambda>r. case asInstance r of
        Inl e \<Rightarrow> Ret (Inl (wrapped e), edited i) | Inr j \<Rightarrow> Ret (Inr (), j))"
    and keeps_spec: "in_spec (edited i) = in_spec i"
    and keeps_name: "in_key (edited i) = in_key i"
    and keeps_upgrade: "upgrade_of (edited i) = upgrade_of i"
begin

lemma wpa_writer:
  "wpa A G Q writer i h =
     (if settled i then Q (Inr ()) (edited i) h
      else G h (QUpdateStatus (edited i)) \<and> (\<forall>r. A h (QUpdateStatus (edited i)) r \<longrightarrow>
        (\<forall>e. asInstance r = Inl e \<longrightarrow> Q (Inl (wrapped e)) (edited i) ((QUpdateStatus (edited i), r) # h)) \<and>
        (\<forall>j. asInstance r = Inr j \<longrightarrow> Q (Inr ()) j ((QUpdateStatus (edited i), r) # h))))"
  by (cases "settled i") (auto simp: wpa_def skips writes split: sum.splits)

lemma emits_writer: "(\<And>j. R (QUpdateStatus j)) \<Longrightarrow> emits R writer"
  by (auto simp: emits_def wpa_writer)

lemma steady_writer: "(\<And>i. f (edited i) = f i) \<Longrightarrow> steady f writer"
  by (auto simp: steady_def wpa_writer asInstance_Inr)

text \<open>With echoed writes the object is the edited one in every case, and the history says whether the
  server has it.\<close>

lemma writer_echo:
  assumes "\<not> settled i \<Longrightarrow> G h (QUpdateStatus (edited i))"
    and "settled i \<Longrightarrow> Q (Inr ()) (edited i) h"
    and "\<And>a e. \<not> settled i \<Longrightarrow> Q (Inl (wrapped e)) (edited i) ((QUpdateStatus (edited i), a) # h)"
    and "\<not> settled i \<Longrightarrow> Q (Inr ()) (edited i) ((QUpdateStatus (edited i), RInstance (edited i)) # h)"
  shows "wpa echoes G Q writer i h"
  using assms by (auto simp: wpa_writer asInstance_Inr)

text \<open>At most one request, a status update of the edited object.\<close>

lemma writer_requests:
  "steps (writer i) tr p \<Longrightarrow> tr = [] \<or> (\<exists>r. \<not> settled i \<and> tr = [(QUpdateStatus (edited i), r)])"
proof (cases "settled i")
  case True
  assume "steps (writer i) tr p"
  then show ?thesis by (simp add: skips [OF True]) (erule steps_RetE, simp)
next
  case False
  assume "steps (writer i) tr p"
  with False show ?thesis
    by (auto simp: writes [OF False] split: sum.splits elim!: steps_CallE steps_RetE)
qed

end

text \<open>A writer that finds nothing to do right after its own edit.\<close>

locale settling_writer = status_writer +
  assumes settles: "settled (edited i)"
    and settled_edit: "settled i \<Longrightarrow> edited i = i"
begin

text \<open>Writing what has just been written makes no request and changes nothing, so a reconcile that
  finds its state unchanged causes no further event.\<close>

lemma writer_again: "writer (edited i) = Ret (Inr (), edited i)"
  using settles [of i] by (simp add: skips settled_edit)

end

interpretation progress: settling_writer "setProgress m"
  "\<lambda>i. st_message (in_status i) = m \<and> st_error (in_status i) = []"
  "upd_status (\<lambda>s. s\<lparr>st_message := m, st_error := []\<rparr>)"
  "\<lambda>e. Wrapf ''failed to report progress: '' e []" for m
  by unfold_locales
    (auto simp: setProgress_def withI_def thenA_def bindA_def tryA_def modifyI_def wrapA_def
      updateStatus_def replaceA_def ok_def failA_def fun_eq_iff split: sum.splits)

interpretation deletion: settling_writer "setDeletionMessage m"
  "\<lambda>i. st_message (in_status i) = m"
  "upd_status (\<lambda>s. s\<lparr>st_message := m\<rparr>)"
  "\<lambda>e. Wrapf ''failed to report deletion progress: '' e []" for m
  by unfold_locales
    (auto simp: setDeletionMessage_def withI_def thenA_def bindA_def tryA_def modifyI_def wrapA_def
      updateStatus_def replaceA_def ok_def failA_def fun_eq_iff split: sum.splits)

interpretation phase: settling_writer "setPhase ph"
  "\<lambda>i. st_phase (in_status i) = ph"
  "upd_status (\<lambda>s. s\<lparr>st_phase := ph\<rparr>)" "\<lambda>e. e" for ph
  by unfold_locales
    (auto simp: setPhase_def withI_def thenA_def bindA_def tryA_def modifyI_def
      updateStatus_def replaceA_def ok_def failA_def fun_eq_iff split: sum.splits)

definition errorSettled :: "lib \<Rightarrow> error option \<Rightarrow> Instance \<Rightarrow> bool" where
  "errorSettled L err i =
     (st_error (in_status i) = errorText err
      \<and> st_message (in_status i) = errorSummary L (errorText err) (in_status i))"

definition errorEdit :: "lib \<Rightarrow> error option \<Rightarrow> Instance \<Rightarrow> Instance" where
  "errorEdit L err i = upd_status (\<lambda>s. s\<lparr>st_error := errorText err,
     st_message := errorSummary L (errorText err) s\<rparr>) i"

interpretation reconcile_error: settling_writer "setError L err" "errorSettled L err" "errorEdit L err"
  "\<lambda>e. e" for L err
  by unfold_locales
    (auto simp: setError_def errorSettled_def errorEdit_def errorSummary_def Let_def withI_def thenA_def
      bindA_def tryA_def modifyI_def updateStatus_def replaceA_def ok_def failA_def fun_eq_iff
      split: sum.splits)

definition availableEdit :: "lib \<Rightarrow> string \<Rightarrow> string \<Rightarrow> string \<Rightarrow> Instance \<Rightarrow> Instance" where
  "availableEdit L status reason message i = upd_status (\<lambda>s. s\<lparr>st_conditions :=
     fst (lib_setStatusCondition L (st_conditions s) (availableCondition status reason message i))\<rparr>) i"

definition availableSettled :: "lib \<Rightarrow> string \<Rightarrow> string \<Rightarrow> string \<Rightarrow> Instance \<Rightarrow> bool" where
  "availableSettled L status reason message i =
     (\<not> snd (lib_setStatusCondition L (st_conditions (in_status i))
               (availableCondition status reason message i)))"

interpretation available: status_writer "setAvailable L st rs msg" "availableSettled L st rs msg"
  "availableEdit L st rs msg" "\<lambda>e. e" for L st rs msg
  by unfold_locales
    (auto simp: setAvailable_def availableSettled_def availableEdit_def Let_def withI_def thenA_def
      bindA_def tryA_def modifyI_def updateStatus_def replaceA_def ok_def failA_def fun_eq_iff
      case_prod_unfold split: sum.splits)

lemmas wpa_writers =
  progress.wpa_writer deletion.wpa_writer phase.wpa_writer reconcile_error.wpa_writer
  available.wpa_writer

lemmas emits_writers [emit] =
  progress.emits_writer deletion.emits_writer phase.emits_writer reconcile_error.emits_writer
  available.emits_writer

lemmas steady_writers [keep] =
  progress.steady_writer deletion.steady_writer phase.steady_writer reconcile_error.steady_writer
  available.steady_writer

end
