(* ===== verification/Layout.thy ===== *)
theory Layout
  imports Kube
begin

text \<open>
  The names, labels, paths and images of what the operator creates: the constants and the small
  functions of \<open>instance_resources.go\<close>, \<open>instance_provision.go\<close> and
  \<open>instance_backup_schedule.go\<close>, with the facts that keep two of them apart.
\<close>

section \<open>Constants\<close>

definition generatedPasswordLength :: nat where "generatedPasswordLength = 24"
definition firebirdPort :: int32 where "firebirdPort = 3050"
definition primaryDataMountPath :: string where "primaryDataMountPath = ''/var/lib/firebird/data''"
definition shadowDataMountPath :: string where "shadowDataMountPath = ''/var/lib/firebird/shadow''"
definition backupDataMountPath :: string where "backupDataMountPath = ''/var/lib/firebird/backup''"
definition sysdbaSecretUsernameKey :: string where "sysdbaSecretUsernameKey = ''username''"
definition sysdbaSecretPasswordKey :: string where "sysdbaSecretPasswordKey = ''password''"
definition sysdbaUsername :: string where "sysdbaUsername = ''SYSDBA''"
definition aliasesConfigMapKey :: string where "aliasesConfigMapKey = ''databases.conf''"
definition aliasesMountPath :: string where "aliasesMountPath = ''/opt/firebird/databases.conf''"
definition aliasesMountFileName :: string where "aliasesMountFileName = ''databases.conf''"
definition primaryVolumeName :: string where "primaryVolumeName = ''primary''"
definition shadowVolumeName :: string where "shadowVolumeName = ''shadow''"
definition backupVolumeName :: string where "backupVolumeName = ''backup''"
definition aliasesVolumeName :: string where "aliasesVolumeName = ''aliases''"
definition containerName :: string where "containerName = ''firebird''"
definition securityDatabaseInitContainerName :: string where
  "securityDatabaseInitContainerName = ''security-database-init''"
definition instanceLabelKey :: string where "instanceLabelKey = ''kubebird.github.io/instance''"
definition sysdbaPasswordAnnotationKey :: string where
  "sysdbaPasswordAnnotationKey = ''kubebird.github.io/sysdba-password-hash''"
definition firebirdComponentLabelKey :: string where
  "firebirdComponentLabelKey = ''app.kubernetes.io/component''"
definition firebirdComponentValue :: string where "firebirdComponentValue = ''firebird''"
definition firebirdVersionLabelKey :: string where
  "firebirdVersionLabelKey = ''kubebird.github.io/firebird-version''"
definition securityDatabaseDir :: string where "securityDatabaseDir = ''/opt/firebird''"
definition binIsql :: string where "binIsql = ''isql''"
definition binGbak :: string where "binGbak = ''gbak''"
definition binFbsvcmgr :: string where "binFbsvcmgr = ''fbsvcmgr''"
definition flagUser :: string where "flagUser = ''-user''"
definition flagPassword :: string where "flagPassword = ''-password''"
definition flagVerify :: string where "flagVerify = ''-verify''"
definition backupBaseDirName :: string where "backupBaseDirName = ''base''"

lemmas mount_paths [layout] =
  primaryDataMountPath_def shadowDataMountPath_def backupDataMountPath_def

lemmas volume_names [layout] =
  primaryVolumeName_def shadowVolumeName_def backupVolumeName_def aliasesVolumeName_def

lemmas label_keys [layout] =
  instanceLabelKey_def firebirdComponentLabelKey_def firebirdComponentValue_def
  firebirdVersionLabelKey_def

section \<open>Labels\<close>

definition labelsForInstance :: "string \<Rightarrow> strmap" where
  "labelsForInstance name =
     [''app.kubernetes.io/name'' \<mapsto> ''firebird'',
      ''app.kubernetes.io/instance'' \<mapsto> name,
      ''app.kubernetes.io/managed-by'' \<mapsto> ''kubebird-controller'',
      instanceLabelKey \<mapsto> name]"

definition firebirdPodSelector :: "string \<Rightarrow> strmap" where
  "firebirdPodSelector name = (labelsForInstance name)(firebirdComponentLabelKey \<mapsto> firebirdComponentValue)"

text \<open>Reading a Go map at a key: the zero value when it is not there.\<close>

definition mapGet :: "strmap \<Rightarrow> string \<Rightarrow> string" where
  "mapGet m k = (case m k of None \<Rightarrow> [] | Some v \<Rightarrow> v)"

text \<open>How Kubernetes matches a label selector: every pair of the selector is a label.\<close>

definition selects :: "strmap \<Rightarrow> strmap \<Rightarrow> bool" where
  "selects sel labels = (sel \<subseteq>\<^sub>m labels)"

section \<open>Names\<close>

definition sysdbaSecretRefName :: "Instance \<Rightarrow> string" where
  "sysdbaSecretRefName i =
     (let ref = sy_secretRef (au_sysdba (sp_authentication (in_spec i)))
      in if ref \<noteq> [] then ref else in_name i @ ''-sysdba'')"

definition aliasesConfigMapName :: "Instance \<Rightarrow> string" where
  "aliasesConfigMapName i = in_name i @ ''-aliases''"

definition primaryPVCName :: "Instance \<Rightarrow> string" where
  "primaryPVCName i = in_name i @ ''-'' @ primaryVolumeName"

definition shadowPVCName :: "Instance \<Rightarrow> string" where
  "shadowPVCName i = in_name i @ ''-'' @ shadowVolumeName"

definition backupPVCName :: "Instance \<Rightarrow> string" where
  "backupPVCName i = in_name i @ ''-'' @ backupVolumeName"

definition firebirdPodName :: "Instance \<Rightarrow> string" where
  "firebirdPodName i = in_name i @ ''-0''"

definition databaseBackupPodName :: "Instance \<Rightarrow> string" where
  "databaseBackupPodName i = in_name i @ ''-database-backup''"

lemmas object_names [layout] =
  aliasesConfigMapName_def primaryPVCName_def shadowPVCName_def backupPVCName_def
  firebirdPodName_def databaseBackupPodName_def

section \<open>The backup volume\<close>

fun firstLocal :: "BackupDestinationSpec list \<Rightarrow> StorageVolumeSpec option" where
  "firstLocal [] = None"
| "firstLocal (t # ts) =
     (case bd_local t of Some l \<Rightarrow> Some (lb_storage l) | None \<Rightarrow> firstLocal ts)"

definition backupVolumeSpec :: "Instance \<Rightarrow> StorageVolumeSpec option" where
  "backupVolumeSpec i =
     (if \<not> bk_enabled (sp_backup (in_spec i)) then None
      else firstLocal (bk_destinations (sp_backup (in_spec i))))"

definition backupOnDelete :: "Instance \<Rightarrow> bool" where
  "backupOnDelete i =
     (case bk_backupOnDelete (sp_backup (in_spec i)) of None \<Rightarrow> True | Some b \<Rightarrow> b)"

definition instanceBackupDir :: string where
  "instanceBackupDir = pathJoin [backupDataMountPath, backupBaseDirName]"

definition backupFileName :: "string \<Rightarrow> string" where
  "backupFileName dbName = trimSuffix dbName ''.fdb'' @ ''.fbk''"

definition backupImage :: "Instance \<Rightarrow> string" where
  "backupImage i =
     (if bk_image (sp_backup (in_spec i)) \<noteq> [] then bk_image (sp_backup (in_spec i))
      else sp_image (in_spec i) @ '':'' @ version_of i)"

definition databaseBackupImage :: "Instance \<Rightarrow> string \<Rightarrow> string" where
  "databaseBackupImage i version =
     (if version = version_of i then backupImage i
      else sp_image (in_spec i) @ '':'' @ version)"

section \<open>The security database\<close>

definition securityDatabaseFileNameForVersion :: "string \<Rightarrow> string" where
  "securityDatabaseFileNameForVersion version =
     (let major = cutBefore (CHR ''.'') version
      in ''security'' @ (if major = [] then ''4'' else major) @ ''.fdb'')"

definition securityDatabaseFileName :: "Instance \<Rightarrow> string" where
  "securityDatabaseFileName i = securityDatabaseFileNameForVersion (version_of i)"

definition securityDatabasePath :: "Instance \<Rightarrow> string" where
  "securityDatabasePath i = pathJoin [primaryDataMountPath, securityDatabaseFileName i]"

definition securityDatabaseImageDefaultPath :: "Instance \<Rightarrow> string" where
  "securityDatabaseImageDefaultPath i = pathJoin [securityDatabaseDir, securityDatabaseFileName i]"

definition securityDatabaseBackupPathForVersion :: "string \<Rightarrow> string" where
  "securityDatabaseBackupPathForVersion version =
     pathJoin [instanceBackupDir, backupFileName (securityDatabaseFileNameForVersion version)]"

text \<open>\<open>^security[0-9]+\.fbk$\<close>\<close>

definition securityDatabaseBackupPattern :: "string \<Rightarrow> bool" where
  "securityDatabaseBackupPattern s =
     (hasPrefix s ''security'' \<and> hasSuffix s ''.fbk'' \<and> 12 < length s
      \<and> list_all isDigit (trimSuffix (trimPrefix s ''security'') ''.fbk''))"

section \<open>What keeps them apart\<close>

lemma mapGet_upd [simp]: "mapGet (m(k \<mapsto> v)) k = v"
  by (simp add: mapGet_def)

text \<open>A PVC that is released never has the name of a backup PVC, whoever owns either.\<close>

lemma primary_not_backup: "primaryPVCName i \<noteq> backupPVCName j"
proof
  assume "primaryPVCName i = backupPVCName j"
  then have "last (primaryPVCName i) = last (backupPVCName j)" by simp
  then show False by (simp add: layout)
qed

lemma shadow_not_backup: "shadowPVCName i \<noteq> backupPVCName j"
proof
  assume "shadowPVCName i = backupPVCName j"
  then have "last (shadowPVCName i) = last (backupPVCName j)" by simp
  then show False by (simp add: layout)
qed

lemma primary_not_shadow: "primaryPVCName i \<noteq> shadowPVCName j"
proof
  assume "primaryPVCName i = shadowPVCName j"
  then have "last (primaryPVCName i) = last (shadowPVCName j)" by simp
  then show False by (simp add: layout)
qed

lemma backupVolumeSpec_Some:
  "backupVolumeSpec i = Some v \<longleftrightarrow>
     bk_enabled (sp_backup (in_spec i)) \<and> firstLocal (bk_destinations (sp_backup (in_spec i))) = Some v"
  by (simp add: backupVolumeSpec_def)

lemma firstLocal_Some_iff:
  "(\<exists>v. firstLocal ds = Some v) \<longleftrightarrow> (\<exists>d\<in>set ds. bd_local d \<noteq> None)"
  by (induction ds) (auto split: option.splits)

lemma backupFileName_fdb [simp]: "backupFileName (b @ ''.fdb'') = b @ ''.fbk''"
  unfolding backupFileName_def by (subst trimSuffix_append) simp

end
