(* ===== verification/Exec.thy ===== *)
theory Exec
  imports Effects Layout
begin

text \<open>
  Commands in the Firebird pod and the SYSDBA password, which every component needs:
  \<open>execInPod\<close>, \<open>execInPodOutput\<close>, \<open>databaseFileExists\<close> and \<open>sysdbaPassword\<close> of
  \<open>instance_provision.go\<close>, and \<open>generateRandomPassword\<close> of \<open>instance_resources.go\<close>.
\<close>

section \<open>Commands\<close>

text \<open>The executor cannot be made, the stream ends in an error (a \<open>CodeExitError\<close> for a non-zero
  exit), or it ends well with what the command printed.\<close>

fun asExec :: "answer \<Rightarrow> error + string" where
  "asExec (RExec out err None) = Inr out"
| "asExec (RExec out err (Some e)) =
     Inl (Wrapf ''exec failed: '' e ('' (stderr: '' @ err @ '')''))"
| "asExec (RErr e) = Inl (Wrapf ''failed to create exec executor: '' e [])"
| "asExec _ = malformed"

definition execInPod :: "string \<Rightarrow> string \<Rightarrow> string list \<Rightarrow> string \<Rightarrow> unit act" where
  "execInPod ns podName command stdin =
     bindA (callA (QExec ns podName command (Some stdin)) asExec) (\<lambda>_. ok ())"

definition execInPodOutput :: "string \<Rightarrow> string \<Rightarrow> string list \<Rightarrow> string act" where
  "execInPodOutput ns podName command = callA (QExec ns podName command None) asExec"

text \<open>\<open>test -f\<close>: a non-zero exit is a plain no, any other failure an error.\<close>

definition databaseFileExists :: "string \<Rightarrow> string \<Rightarrow> string \<Rightarrow> bool act" where
  "databaseFileExists ns podName filePath =
     tryA (execInPod ns podName [''test'', ''-f'', filePath] [])
       (\<lambda>r. case r of
          Inr _ \<Rightarrow> ok True
        | Inl e \<Rightarrow> if isCodeExit e then ok False else failA e)"

section \<open>The SYSDBA password\<close>

definition sysdbaPassword :: "string act" where
  "sysdbaPassword = withI (\<lambda>i.
     let secretRef = sysdbaSecretRefName i in
     tryA (callA (QGetSecret (in_namespace i, secretRef)) asSecret) (\<lambda>r. case r of
         Inl e \<Rightarrow>
           if isNotFound e then failA (Errorf (''SYSDBA Secret '' @ quote secretRef @ '' not found''))
           else failA (Wrapf (''failed to get SYSDBA Secret '' @ quote secretRef @ '': '') e [])
       | Inr secret \<Rightarrow> ok (mapGet (sec_data secret) sysdbaSecretPasswordKey)))"

text \<open>
  The loop draws until the encoding does not start with a dash; the fuel bounds the draws. An
  empty buffer would make \<open>password[0]\<close> panic.
\<close>

fun generateRandomPassword :: "nat \<Rightarrow> string act" where
  "generateRandomPassword 0 = failA OutOfFuel"
| "generateRandomPassword (Suc fuel) =
     bindA (callA (QRand generatedPasswordLength) asBytes) (\<lambda>buf.
       case b64RawURL buf of
         [] \<Rightarrow> failA (Panicked ''index out of range'')
       | c # cs \<Rightarrow> if c \<noteq> CHR ''-'' then ok (c # cs) else generateRandomPassword fuel)"

section \<open>Requests\<close>

lemma emits_execInPod [emit]: "R (QExec ns p c (Some s)) \<Longrightarrow> emits R (execInPod ns p c s)"
  unfolding execInPod_def by (intro emit)

lemma emits_execInPodOutput [emit]: "R (QExec ns p c None) \<Longrightarrow> emits R (execInPodOutput ns p c)"
  unfolding execInPodOutput_def by (intro emit)

lemma emits_databaseFileExists [emit]:
  "R (QExec ns p [''test'', ''-f'', f] (Some [])) \<Longrightarrow> emits R (databaseFileExists ns p f)"
  unfolding databaseFileExists_def by (intro emit)

lemma emits_sysdbaPassword [emit]: "(\<And>k. R (QGetSecret k)) \<Longrightarrow> emits R sysdbaPassword"
  unfolding sysdbaPassword_def Let_def by (intro emit)

lemma emits_generateRandomPassword [emit]:
  "R (QRand generatedPasswordLength) \<Longrightarrow> emits R (generateRandomPassword fuel)"
proof (induction fuel)
  case 0
  then show ?case by (simp add: emits_failA)
next
  case (Suc n)
  then show ?case
    by (auto intro!: emits_bindA emits_callA emits_failA emits_ok split: list.split)
qed

lemma wpa_execInPod [wprule]:
  "wpa A G Q (execInPod ns p c s) i h =
     (G h (QExec ns p c (Some s)) \<and>
      (\<forall>r. A h (QExec ns p c (Some s)) r \<longrightarrow>
         (\<forall>e. asExec r = Inl e \<longrightarrow> Q (Inl e) i ((QExec ns p c (Some s), r) # h)) \<and>
         (\<forall>x. asExec r = Inr x \<longrightarrow> Q (Inr ()) i ((QExec ns p c (Some s), r) # h))))"
  by (simp add: execInPod_def wprule)

section \<open>What they leave as it is\<close>

lemma steady_execInPod [keep]: "steady f (execInPod ns p c s)"
  unfolding execInPod_def by (intro keep) auto

lemma steady_execInPodOutput [keep]: "steady f (execInPodOutput ns p c)"
  unfolding execInPodOutput_def by (intro keep) auto

lemma steady_databaseFileExists [keep]: "steady f (databaseFileExists ns p file)"
  unfolding databaseFileExists_def by (intro keep)

lemma steady_sysdbaPassword [keep]: "steady f sysdbaPassword"
  unfolding sysdbaPassword_def Let_def by (intro keep) auto

lemma steady_generateRandomPassword [keep]: "steady f (generateRandomPassword fuel)"
proof (induction fuel)
  case 0
  then show ?case by (simp add: steady_failA)
next
  case (Suc n)
  then show ?case
    by (auto intro!: steady_bindA steady_callA steady_failA steady_ok split: list.split)
qed

section \<open>Evidence: what the pod said\<close>

definition ran :: "Instance \<Rightarrow> string list \<Rightarrow> string option \<Rightarrow> event set \<Rightarrow> bool" where
  "ran i cmd stdin E =
     (\<exists>r out. (QExec (in_namespace i) (firebirdPodName i) cmd stdin, r) \<in> E \<and> asExec r = Inr out)"

definition filePresent :: "Instance \<Rightarrow> string \<Rightarrow> event set \<Rightarrow> bool" where
  "filePresent i f E = ran i [''test'', ''-f'', f] (Some []) E"

text \<open>\<open>test\<close> ended with a non-zero code.\<close>

definition fileAbsent :: "Instance \<Rightarrow> string \<Rightarrow> event set \<Rightarrow> bool" where
  "fileAbsent i f E =
     (\<exists>r e. (QExec (in_namespace i) (firebirdPodName i) [''test'', ''-f'', f] (Some []), r) \<in> E
        \<and> asExec r = Inl e \<and> isCodeExit e)"

lemma ran_mono: "ran i cmd s E \<Longrightarrow> E \<subseteq> F \<Longrightarrow> ran i cmd s F"
  unfolding ran_def by blast

lemma fileAbsent_mono: "fileAbsent i f E \<Longrightarrow> E \<subseteq> F \<Longrightarrow> fileAbsent i f F"
  unfolding fileAbsent_def by blast

lemma wpa_databaseFileExists:
  assumes "G h (QExec (in_namespace i) (firebirdPodName i) [''test'', ''-f'', f] (Some []))"
    and "\<And>h'. set h \<subseteq> set h' \<Longrightarrow> filePresent i f (set h') \<Longrightarrow> Q (Inr True) i h'"
    and "\<And>h'. set h \<subseteq> set h' \<Longrightarrow> fileAbsent i f (set h') \<Longrightarrow> Q (Inr False) i h'"
    and "\<And>e h'. set h \<subseteq> set h' \<Longrightarrow> Q (Inl e) i h'"
  shows "wpa A G Q (databaseFileExists (in_namespace i) (firebirdPodName i) f) i h"
  unfolding databaseFileExists_def
  by (auto simp: wprule filePresent_def ran_def fileAbsent_def intro!: assms) blast+

lemma wpa_exec:
  assumes "G h (QExec (in_namespace i) (firebirdPodName i) cmd (Some s))"
    and "\<And>h'. set h \<subseteq> set h' \<Longrightarrow> ran i cmd (Some s) (set h') \<Longrightarrow> Q (Inr ()) i h'"
    and "\<And>e h'. set h \<subseteq> set h' \<Longrightarrow> Q (Inl e) i h'"
  shows "wpa A G Q (execInPod (in_namespace i) (firebirdPodName i) cmd s) i h"
  by (auto simp: wprule ran_def intro!: assms) blast

end
