(* ===== verification/SecurityDb.thy ===== *)
theory SecurityDb
  imports Layout
begin

text \<open>
  The init container's script (\<open>securityDatabaseInitScript\<close> of \<open>instance_provision.go\<close>), as the
  text the operator renders.
\<close>

section \<open>The rendered scripts\<close>

text \<open>\<open>fmt.Sprintf(securityMigrationScript, source)\<close>\<close>

definition securityMigrationScript :: "string \<Rightarrow> string" where
  \<open>securityMigrationScript source = unlines
     [''set term ^;'',
      ''EXECUTE BLOCK'',
      ''AS'',
      ''  DECLARE SRC_SEC_DB     VARCHAR(255) = '' @ sqS @ source @ ''';'',
      ''  DECLARE SRC_SEC_USER   VARCHAR(63) = 'SYSDBA';'',
      ''  DECLARE PLG$USER_NAME  SEC$USER_NAME;'',
      ''  DECLARE PLG$VERIFIER   VARCHAR(128) CHARACTER SET OCTETS;'',
      ''  DECLARE PLG$SALT       VARCHAR(32) CHARACTER SET OCTETS;'',
      ''  DECLARE PLG$COMMENT    BLOB SUB_TYPE TEXT CHARACTER SET UTF8;'',
      ''  DECLARE PLG$FIRST      SEC$NAME_PART;'',
      ''  DECLARE PLG$MIDDLE     SEC$NAME_PART;'',
      ''  DECLARE PLG$LAST       SEC$NAME_PART;'',
      ''  DECLARE PLG$ATTRIBUTES BLOB SUB_TYPE TEXT CHARACTER SET UTF8;'',
      ''  DECLARE PLG$ACTIVE     BOOLEAN;'',
      ''  DECLARE PLG$GROUP_NAME SEC$USER_NAME;'',
      ''  DECLARE PLG$UID        PLG$ID;'',
      ''  DECLARE PLG$GID        PLG$ID;'',
      ''  DECLARE PLG$PASSWD     PLG$PASSWD;'',
      ''BEGIN'',
      ''  FOR EXECUTE STATEMENT Q'!'',
      ''      SELECT PLG$USER_NAME, PLG$VERIFIER, PLG$SALT, PLG$COMMENT, PLG$FIRST,'',
      ''             PLG$MIDDLE, PLG$LAST, PLG$ATTRIBUTES, PLG$ACTIVE'',
      ''      FROM PLG$SRP'',
      ''      WHERE PLG$USER_NAME <> 'SYSDBA'' @ sqS,
      ''!'' @ sqS,
      ''      ON EXTERNAL :SRC_SEC_DB'',
      ''      AS USER :SRC_SEC_USER'',
      ''      INTO :PLG$USER_NAME, :PLG$VERIFIER, :PLG$SALT, :PLG$COMMENT, :PLG$FIRST,'',
      ''           :PLG$MIDDLE, :PLG$LAST, :PLG$ATTRIBUTES, :PLG$ACTIVE'',
      ''  DO'',
      ''    INSERT INTO PLG$SRP (PLG$USER_NAME, PLG$VERIFIER, PLG$SALT, PLG$COMMENT, PLG$FIRST,'',
      ''                         PLG$MIDDLE, PLG$LAST, PLG$ATTRIBUTES, PLG$ACTIVE)'',
      ''    VALUES (:PLG$USER_NAME, :PLG$VERIFIER, :PLG$SALT, :PLG$COMMENT, :PLG$FIRST,'',
      ''            :PLG$MIDDLE, :PLG$LAST, :PLG$ATTRIBUTES, :PLG$ACTIVE);'',
      ''  FOR EXECUTE STATEMENT Q'!'',
      ''      SELECT PLG$USER_NAME, PLG$GROUP_NAME, PLG$UID, PLG$GID, PLG$PASSWD,'',
      ''             PLG$COMMENT, PLG$FIRST_NAME, PLG$MIDDLE_NAME, PLG$LAST_NAME'',
      ''      FROM PLG$USERS'',
      ''      WHERE PLG$USER_NAME <> 'SYSDBA'' @ sqS,
      ''!'' @ sqS,
      ''      ON EXTERNAL :SRC_SEC_DB'',
      ''      AS USER :SRC_SEC_USER'',
      ''      INTO :PLG$USER_NAME, :PLG$GROUP_NAME, :PLG$UID, :PLG$GID, :PLG$PASSWD,'',
      ''           :PLG$COMMENT, :PLG$FIRST, :PLG$MIDDLE, :PLG$LAST'',
      ''  DO'',
      ''    INSERT INTO PLG$USERS (PLG$USER_NAME, PLG$GROUP_NAME, PLG$UID, PLG$GID, PLG$PASSWD,'',
      ''                           PLG$COMMENT, PLG$FIRST_NAME, PLG$MIDDLE_NAME, PLG$LAST_NAME)'',
      ''    VALUES (:PLG$USER_NAME, :PLG$GROUP_NAME, :PLG$UID, :PLG$GID, :PLG$PASSWD,'',
      ''            :PLG$COMMENT, :PLG$FIRST, :PLG$MIDDLE, :PLG$LAST);'',
      ''END^'',
      ''set term ;^'',
      ''commit;'',
      ''exit;'']\<close>

text \<open>The major version the script compares with: the file name's, between \<open>security\<close> and the
  first dot.\<close>

definition securityScriptMajor :: "Instance \<Rightarrow> string" where
  "securityScriptMajor i =
     trimPrefix (cutBefore (CHR ''.'') (securityDatabaseFileName i)) ''security''"

definition migratedPath :: string where
  "migratedPath = pathJoin [primaryDataMountPath, ''.security-migrated.fdb'']"

definition migrationSourcePath :: string where
  "migrationSourcePath = pathJoin [primaryDataMountPath, ''.security-migration-source.fdb'']"

definition securityDatabaseInitScript :: "Instance \<Rightarrow> string" where
  \<open>securityDatabaseInitScript i =
     (let dst = quote (securityDatabasePath i);
          dflt = quote (securityDatabaseImageDefaultPath i);
          dir = quote instanceBackupDir;
          major = securityScriptMajor i;
          migrated = quote migratedPath;
          source = quote migrationSourcePath
      in if backupVolumeSpec i = None then
           unlines [''set -e'',
                    ''if [ ! -f '' @ dst @ '' ]; then'',
                    tabS @ ''cp '' @ dflt @ '' '' @ dst,
                    ''fi'']
         else
           unlines
            [''set -e'',
             ''if [ ! -f '' @ dst @ '' ]; then'',
             tabS @ ''SRC='',
             tabS @ ''SRC_MAJOR='',
             tabS @ ''for f in $(ls -t '' @ dir @ ''/security*.fbk 2>/dev/null); do'',
             tabS @ tabS @ ''m=$(basename "$f" .fbk)'',
             tabS @ tabS @ ''m=${m#security}'',
             tabS @ tabS @ ''case "$m" in '' @ sqS @ sqS @ ''|*[!0-9]*) continue ;; esac'',
             tabS @ tabS @ ''if [ "$m" -le '' @ major @ '' ]; then'',
             tabS @ tabS @ tabS @ ''SRC=$f'',
             tabS @ tabS @ tabS @ ''SRC_MAJOR=$m'',
             tabS @ tabS @ tabS @ ''break'',
             tabS @ tabS @ ''fi'',
             tabS @ ''done'',
             tabS @ ''if [ -z "$SRC" ]; then'',
             tabS @ tabS @ ''cp '' @ dflt @ '' '' @ dst,
             tabS @ ''elif [ "$SRC_MAJOR" -eq 3 ] && [ '' @ major @ '' -gt 3 ]; then'',
             tabS @ tabS @ ''echo "Migrating the users of $SRC into Firebird '' @ major
               @ [CHR 0x27] @ ''s security database"'',
             tabS @ tabS @ ''rm -f '' @ migrated @ '' '' @ source,
             tabS @ tabS @ ''cp '' @ dflt @ '' '' @ migrated,
             tabS @ tabS @ binGbak @ '' -create "$SRC" '' @ source,
             tabS @ tabS @ binIsql @ '' -q -b '' @ flagUser @ '' '' @ sysdbaUsername @ '' '' @ migrated
               @ '' <<'' @ sqS @ ''SQLEOF'' @ sqS]
           @ securityMigrationScript migrationSourcePath @
           unlines
            [''SQLEOF'',
             tabS @ tabS @ ''rm -f '' @ source,
             tabS @ tabS @ ''mv '' @ migrated @ '' '' @ dst,
             tabS @ ''else'',
             tabS @ tabS @ ''echo "Restoring the security database from $SRC"'',
             tabS @ tabS @ binGbak @ '' -create -verify "$SRC" '' @ dst,
             tabS @ ''fi'',
             ''fi''])\<close>

end
