(* ===== verification/Databases.thy ===== *)
theory Databases
  imports Status Exec SecurityDb
begin

text \<open>
  The databases of a live instance (\<open>reconcileDatabases\<close> and what it calls in
  \<open>instance_provision.go\<close>): dropping those no longer declared, restoring or creating those not
  recorded yet, and warning about backups nobody declares.
\<close>

section \<open>Scripts and commands\<close>

definition databaseDropScript :: string where
  "databaseDropScript = unlines [''DROP DATABASE;'', ''QUIT;'']"

definition primaryPath :: "string \<Rightarrow> string" where
  "primaryPath name = pathJoin [primaryDataMountPath, name]"

definition shadowPath :: "string \<Rightarrow> string" where
  "shadowPath name = pathJoin [shadowDataMountPath, name]"

definition backupPath :: "string \<Rightarrow> string" where
  "backupPath name = pathJoin [instanceBackupDir, backupFileName name]"

definition createShadowLine :: "string \<Rightarrow> string" where
  "createShadowLine name = ''CREATE SHADOW 1 '' @ sqS @ shadowPath name @ sqS @ '';''"

definition databaseCreateScript :: "DatabaseSpec \<Rightarrow> string" where
  "databaseCreateScript db =
     unlines ([''CREATE DATABASE '' @ sqS @ primaryPath (db_name db) @ sqS
                 @ '' PAGE_SIZE '' @ showInt32 (db_pageSize db)
                 @ '' DEFAULT CHARACTER SET '' @ db_charset db
                 @ '' COLLATION '' @ db_collation db @ '';'']
              @ (if db_shadow db then [createShadowLine (db_name db)] else [])
              @ [''QUIT;''])"

definition sysdbaCommand :: "string \<Rightarrow> string list" where
  "sysdbaCommand password = [binIsql, flagUser, sysdbaUsername, flagPassword, password]"

section \<open>Orphaned backups\<close>

definition isOrphan :: "DatabaseSpec list \<Rightarrow> string \<Rightarrow> bool" where
  "isOrphan dbs name =
     (hasSuffix name ''.fbk'' \<and> \<not> securityDatabaseBackupPattern name
      \<and> trimSuffix name ''.fbk'' @ ''.fdb'' \<notin> set (map db_name dbs))"

definition orphansListed :: "DatabaseSpec list \<Rightarrow> string \<Rightarrow> string list" where
  "orphansListed dbs output =
     sort (map (\<lambda>name. trimSuffix name ''.fbk'' @ ''.fdb'') (filter (isOrphan dbs) (strFields output)))"

definition listBackupsCommand :: "string list" where
  "listBackupsCommand = [''sh'', ''-c'', ''ls -1 '' @ instanceBackupDir @ '' 2>/dev/null || true'']"

definition orphanedBackups :: "string \<Rightarrow> string list act" where
  "orphanedBackups podName = withI (\<lambda>i.
     bindA (wrapA (''failed to list backup directory '' @ quote instanceBackupDir @ '': '')
              (execInPodOutput (in_namespace i) podName listBackupsCommand))
       (\<lambda>output. ok (orphansListed (spec_databases i) output)))"

section \<open>Restoring a database\<close>

definition restoreCommand :: "string \<Rightarrow> DatabaseSpec \<Rightarrow> string list" where
  "restoreCommand password db =
     [binGbak, ''-create'', flagVerify, flagUser, sysdbaUsername, flagPassword, password,
      backupPath (db_name db), primaryPath (db_name db)]"

definition restoreShadowScript :: "DatabaseSpec \<Rightarrow> string" where
  "restoreShadowScript db = unlines [createShadowLine (db_name db), ''QUIT;'']"

definition runRestore :: "string \<Rightarrow> string \<Rightarrow> DatabaseSpec \<Rightarrow> unit act" where
  "runRestore podName password db = withI (\<lambda>i.
     wrapA ''gbak restore failed: '' (execInPod (in_namespace i) podName (restoreCommand password db) []))"

definition recreateShadow :: "string \<Rightarrow> string \<Rightarrow> DatabaseSpec \<Rightarrow> unit act" where
  "recreateShadow podName password db = withI (\<lambda>i.
     whenA (db_shadow db)
       (wrapA ''failed to recreate shadow file after restore: ''
         (execInPod (in_namespace i) podName (sysdbaCommand password @ [primaryPath (db_name db)])
            (restoreShadowScript db))))"

definition restoreDatabaseIfBackedUp :: "string \<Rightarrow> string \<Rightarrow> DatabaseSpec \<Rightarrow> bool act" where
  "restoreDatabaseIfBackedUp podName password db = withI (\<lambda>i.
     bindA (wrapA (''failed to check for a backup at '' @ quote (backupPath (db_name db)) @ '': '')
              (databaseFileExists (in_namespace i) podName (backupPath (db_name db)))) (\<lambda>exists.
     if \<not> exists then ok False
     else thenA (runRestore podName password db)
         (thenA (recreateShadow podName password db) (ok True))))"

section \<open>Reconciling the databases\<close>

definition pendingDatabases :: "Instance \<Rightarrow> DatabaseSpec list" where
  "pendingDatabases i = filter (\<lambda>db. db_name db \<notin> set (status_databases i)) (spec_databases i)"

definition removedDatabases :: "Instance \<Rightarrow> string list" where
  "removedDatabases i =
     filter (\<lambda>name. name \<notin> set (map db_name (spec_databases i))) (status_databases i)"

definition orphanWarningText :: "string list \<Rightarrow> string" where
  "orphanWarningText orphaned =
     (if orphaned = [] then []
      else ''the backup volume has a backup for '' @ joinWith '', '' orphaned
           @ '', but it'' @ sqS @ ''s no longer in spec.databases, so it wasn'' @ sqS @ ''t restored'')"

definition orphanWarning :: "string \<Rightarrow> DatabaseSpec list \<Rightarrow> string act" where
  "orphanWarning podName pending = withI (\<lambda>i.
     if pending \<noteq> [] \<and> backupVolumeSpec i \<noteq> None
     then bindA (wrapA ''failed to check for orphaned backups: '' (orphanedBackups podName))
            (\<lambda>orphaned. ok (orphanWarningText orphaned))
     else ok [])"

definition dropDatabase :: "string \<Rightarrow> string \<Rightarrow> string \<Rightarrow> unit act" where
  "dropDatabase podName password name = withI (\<lambda>i.
     wrapA (''failed to drop database '' @ quote name @ '': '')
       (execInPod (in_namespace i) podName (sysdbaCommand password @ [primaryPath name])
          databaseDropScript))"

definition createDatabase :: "string \<Rightarrow> string \<Rightarrow> DatabaseSpec \<Rightarrow> unit act" where
  "createDatabase podName password db = withI (\<lambda>i.
     wrapA (''failed to create database '' @ quote (db_name db) @ '': '')
       (execInPod (in_namespace i) podName (sysdbaCommand password) (databaseCreateScript db)))"

definition provisionDatabase :: "string \<Rightarrow> string \<Rightarrow> DatabaseSpec \<Rightarrow> unit act" where
  "provisionDatabase podName password db = withI (\<lambda>i.
     bindA (wrapA (''failed to check whether database '' @ quote (db_name db) @ '' already exists: '')
              (databaseFileExists (in_namespace i) podName (primaryPath (db_name db)))) (\<lambda>exists.
     if exists then ok ()
     else bindA (if backupVolumeSpec i \<noteq> None
                 then wrapA (''failed to restore database '' @ quote (db_name db) @ '' from backup: '')
                        (restoreDatabaseIfBackedUp podName password db)
                 else ok False) (\<lambda>restored.
          if restored then ok () else createDatabase podName password db)))"

definition recordDatabases :: "string list \<Rightarrow> DatabaseSpec list \<Rightarrow> string \<Rightarrow> InstanceStatus \<Rightarrow> InstanceStatus" where
  "recordDatabases removed pending warning s =
     (let databases = filter (\<lambda>name. name \<notin> set removed) (st_databases s) @ map db_name pending
      in s\<lparr>st_databases := databases, st_databaseCount := word_of_nat (length databases),
           st_warning := warning\<rparr>)"

definition reconcileDatabases :: "int32 \<Rightarrow> unit act" where
  "reconcileDatabases readyReplicas =
     (if readyReplicas = 0 then ok ()
      else withI (\<lambda>i.
        let pending = pendingDatabases i; removed = removedDatabases i;
            podName = firebirdPodName i in
        if pending = [] \<and> removed = [] then ok ()
        else bindA sysdbaPassword (\<lambda>password.
             bindA (orphanWarning podName pending) (\<lambda>warning.
             thenA (forA removed (dropDatabase podName password))
            (thenA (forA pending (provisionDatabase podName password))
            (thenA (modifyI (upd_status (recordDatabases removed pending warning)))
               updateStatus))))))"

section \<open>Requests\<close>

lemma emits_orphanWarning [emit]: "(\<And>n p c s. R (QExec n p c s)) \<Longrightarrow> emits R (orphanWarning p dbs)"
  unfolding orphanWarning_def orphanedBackups_def by (intro emit)

lemma emits_dropDatabase [emit]: "(\<And>n p c s. R (QExec n p c s)) \<Longrightarrow> emits R (dropDatabase p pw name)"
  unfolding dropDatabase_def by (intro emit)

lemma emits_provisionDatabase [emit]:
  "(\<And>n p c s. R (QExec n p c s)) \<Longrightarrow> emits R (provisionDatabase p pw db)"
  unfolding provisionDatabase_def restoreDatabaseIfBackedUp_def createDatabase_def runRestore_def recreateShadow_def by (intro emit)

lemma emits_reconcileDatabases [emit]:
  "(\<And>k. R (QGetSecret k)) \<Longrightarrow> (\<And>n p c s. R (QExec n p c s)) \<Longrightarrow> (\<And>i. R (QUpdateStatus i))
   \<Longrightarrow> emits R (reconcileDatabases ready)"
  unfolding reconcileDatabases_def Let_def by (intro emit)

section \<open>What they leave as it is\<close>

lemma steady_provisionDatabase [keep]: "steady f (provisionDatabase p pw db)"
  unfolding provisionDatabase_def restoreDatabaseIfBackedUp_def createDatabase_def runRestore_def recreateShadow_def by (intro keep)

lemma steady_dropDatabase [keep]: "steady f (dropDatabase p pw name)"
  unfolding dropDatabase_def by (intro keep)

lemma steady_orphanWarning [keep]: "steady f (orphanWarning p dbs)"
  unfolding orphanWarning_def orphanedBackups_def by (intro keep)

lemma steady_reconcileDatabases [keep]:
  assumes "\<And>removed pending warning i. f (upd_status (recordDatabases removed pending warning) i) = f i"
  shows "steady f (reconcileDatabases ready)"
  unfolding reconcileDatabases_def Let_def by (intro keep assms)

end
