(* ===== verification/Version.thy ===== *)
theory Version
  imports Exec
begin

text \<open>
  The Firebird version the running server reports (\<open>instance_version.go\<close>): reading it out of
  \<open>fbsvcmgr\<close>'s answer, recording it once per server pod, and labelling objects with it.
\<close>

section \<open>Reading the version\<close>

text \<open>\<open>([0-9]+\.[0-9]+\.[0-9]+)\<close> at the start of a text. A run of digits ends where a dot must
  follow, so the longest run is the only candidate.\<close>

definition matchVersion :: "string \<Rightarrow> string option" where
  "matchVersion s =
     (let a = takeWhile isDigit s; s1 = dropWhile isDigit s in
      if a = [] \<or> s1 = [] \<or> hd s1 \<noteq> CHR ''.'' then None
      else let b = takeWhile isDigit (tl s1); s2 = dropWhile isDigit (tl s1) in
        if b = [] \<or> s2 = [] \<or> hd s2 \<noteq> CHR ''.'' then None
        else let c = takeWhile isDigit (tl s2) in
          if c = [] then None else Some (a @ ''.'' @ b @ ''.'' @ c))"

text \<open>\<open>serverVersionPattern.FindStringSubmatch(output)\<close>: the leftmost \<open>-V\<close> that a version follows.\<close>

fun findVersion :: "string \<Rightarrow> string option" where
  "findVersion [] = None"
| "findVersion (c # cs) =
     (if hasPrefix (c # cs) ''-V''
      then (case matchVersion (drop 2 (c # cs)) of Some v \<Rightarrow> Some v | None \<Rightarrow> findVersion cs)
      else findVersion cs)"

definition parseServerVersion :: "string \<Rightarrow> error + string" where
  "parseServerVersion output =
     (case findVersion output of
        None \<Rightarrow> Inl (Errorf (''no server version found in '' @ quote output))
      | Some v \<Rightarrow> Inr v)"

section \<open>Labels\<close>

definition withFirebirdVersionLabel :: "Instance \<Rightarrow> strmap \<Rightarrow> strmap" where
  "withFirebirdVersionLabel i labels =
     (if st_firebirdVersion (in_status i) \<noteq> []
      then labels(firebirdVersionLabelKey \<mapsto> st_firebirdVersion (in_status i))
      else labels)"

text \<open>The object is given by its metadata and the patch request that new metadata make.\<close>

definition syncFirebirdVersionLabel :: "ObjectMeta \<Rightarrow> (ObjectMeta \<Rightarrow> request) \<Rightarrow> unit act" where
  "syncFirebirdVersionLabel obj patch = withI (\<lambda>i.
     let version = st_firebirdVersion (in_status i) in
     if version = [] \<or> mapGet (om_labels obj) firebirdVersionLabelKey = version then ok ()
     else callA (patch (obj\<lparr>om_labels := (om_labels obj)(firebirdVersionLabelKey \<mapsto> version)\<rparr>)) asUnit)"

section \<open>Recording the version\<close>

definition versionCommand :: "string \<Rightarrow> string list" where
  "versionCommand password =
     [''fbsvcmgr'', ''localhost:service_mgr'', flagUser, sysdbaUsername, flagPassword, password,
      ''-info_server_version'']"

definition detectFirebirdVersion :: "Pod \<Rightarrow> string act" where
  "detectFirebirdVersion pod = withI (\<lambda>i.
     bindA sysdbaPassword (\<lambda>password.
     bindA (wrapA ''failed to query Firebird server version: ''
       (execInPodOutput (in_namespace i) (om_name (pod_meta pod)) (versionCommand password))) (\<lambda>output.
     case parseServerVersion output of
       Inl e \<Rightarrow> failA (Wrapf ''failed to parse Firebird server version: '' e [])
     | Inr version \<Rightarrow>
         thenA (wrapA ''failed to label Firebird pod with its version: ''
           (callA (QPatchPod pod (pod\<lparr>pod_meta := (pod_meta pod)\<lparr>om_labels :=
              (om_labels (pod_meta pod))(firebirdVersionLabelKey \<mapsto> version)\<rparr>\<rparr>)) asUnit))
         (ok version))))"

definition reconcileFirebirdVersion :: "unit act" where
  "reconcileFirebirdVersion = withI (\<lambda>i.
     bindA (wrapA ''failed to get Firebird pod: ''
       (callA (QGetPod (in_namespace i, firebirdPodName i)) asPod)) (\<lambda>pod.
     bindA (let label = mapGet (om_labels (pod_meta pod)) firebirdVersionLabelKey
            in if label = [] then detectFirebirdVersion pod else ok label) (\<lambda>version.
     withI (\<lambda>j.
       if st_firebirdVersion (in_status j) = version then ok ()
       else thenA (modifyI (upd_status (\<lambda>s. s\<lparr>st_firebirdVersion := version\<rparr>))) updateStatus))))"

section \<open>Facts\<close>

definition isVersion :: "string \<Rightarrow> bool" where
  "isVersion v = (\<exists>a b c. v = a @ ''.'' @ b @ ''.'' @ c \<and> a \<noteq> [] \<and> b \<noteq> [] \<and> c \<noteq> []
     \<and> list_all isDigit a \<and> list_all isDigit b \<and> list_all isDigit c)"

lemma all_isDigit_takeWhile [simp]: "list_all isDigit (takeWhile isDigit s)"
  by (auto simp: list_all_iff dest: set_takeWhileD)

lemma not_isDigit_dot [simp]: "\<not> isDigit CHR ''.''"
  by (simp add: isDigit_def less_eq_char_def)

lemma matchVersion_isVersion: "matchVersion s = Some v \<Longrightarrow> isVersion v"
  unfolding matchVersion_def isVersion_def Let_def
  by (auto split: if_splits intro!: exI)

lemma matchVersion_prefix: "matchVersion s = Some v \<Longrightarrow> hasPrefix s v"
proof -
  assume m: "matchVersion s = Some v"
  define a s1 where a: "a = takeWhile isDigit s" and s1: "s1 = dropWhile isDigit s"
  define b s2 where b: "b = takeWhile isDigit (tl s1)" and s2: "s2 = dropWhile isDigit (tl s1)"
  define c s3 where c: "c = takeWhile isDigit (tl s2)" and s3: "s3 = dropWhile isDigit (tl s2)"
  have v: "v = a @ ''.'' @ b @ ''.'' @ c" and s1_dot: "s1 = CHR ''.'' # tl s1"
    and s2_dot: "s2 = CHR ''.'' # tl s2"
    using m unfolding matchVersion_def Let_def a b c s1 s2
    by (auto split: if_splits simp: list.expand)
  have "s = a @ s1" "tl s1 = b @ s2" "tl s2 = c @ s3"
    by (simp_all add: a b c s1 s2 s3)
  then have "s = v @ s3" using s1_dot s2_dot v by (metis append.assoc append_Cons append_Nil)
  then show ?thesis by simp
qed

lemma findVersion_isVersion: "findVersion s = Some v \<Longrightarrow> isVersion v"
  by (induction s) (auto split: if_splits option.splits dest: matchVersion_isVersion)

lemma takeWhile_digits: "list_all isDigit a \<Longrightarrow> takeWhile isDigit (a @ CHR ''.'' # s) = a"
  by (simp add: list_all_iff)

lemma dropWhile_digits:
  "list_all isDigit a \<Longrightarrow> dropWhile isDigit (a @ CHR ''.'' # s) = CHR ''.'' # s"
  by (simp add: list_all_iff)

lemma matchVersion_of:
  assumes "list_all isDigit a" "a \<noteq> []" "list_all isDigit b" "b \<noteq> []"
    and "list_all isDigit c" "c \<noteq> []" and "rest = [] \<or> \<not> isDigit (hd rest)"
  shows "matchVersion (a @ ''.'' @ b @ ''.'' @ c @ rest) = Some (a @ ''.'' @ b @ ''.'' @ c)"
proof -
  have "takeWhile isDigit (c @ rest) = c"
    using assms(5,7) by (cases rest) (auto simp: list_all_iff takeWhile_append2)
  then show ?thesis
    using assms by (simp add: matchVersion_def Let_def takeWhile_digits dropWhile_digits)
qed

lemma emits_syncFirebirdVersionLabel [emit]:
  "(\<And>m. R (patch m)) \<Longrightarrow> emits R (syncFirebirdVersionLabel obj patch)"
  unfolding syncFirebirdVersionLabel_def Let_def by (intro emit)

lemma emits_reconcileFirebirdVersion [emit]:
  assumes "\<And>k. R (QGetPod k)" "\<And>k. R (QGetSecret k)" "\<And>n p c s. R (QExec n p c s)"
    "\<And>a b. R (QPatchPod a b)" "\<And>i. R (QUpdateStatus i)"
  shows "emits R reconcileFirebirdVersion"
  unfolding reconcileFirebirdVersion_def detectFirebirdVersion_def Let_def
  by (intro emit assms)

lemma steady_syncFirebirdVersionLabel [keep]:
  "(\<And>m. \<not> writes_object (patch m)) \<Longrightarrow> steady f (syncFirebirdVersionLabel obj patch)"
  unfolding syncFirebirdVersionLabel_def Let_def by (intro keep)

lemma steady_reconcileFirebirdVersion [keep]:
  assumes "\<And>v i. f (upd_status (\<lambda>s. s\<lparr>st_firebirdVersion := v\<rparr>) i) = f i"
  shows "steady f reconcileFirebirdVersion"
  unfolding reconcileFirebirdVersion_def detectFirebirdVersion_def Let_def
  by (intro keep assms) auto

end
