(* ===== verification/GoCrypto.thy ===== *)
theory GoCrypto
  imports GoStd
begin

unbundle bit_operations_syntax

text \<open>
  \<open>crypto/sha256\<close> and \<open>encoding/hex\<close>, as the operator uses them to turn the SYSDBA password into
  the annotation that restarts the pod: SHA-256 of FIPS 180-4 on 32-bit words.
\<close>

type_synonym u32 = "32 word"

text \<open>The round constants and the first state: the fractional parts of the cube roots of the first 64
  primes and of the square roots of the first 8, in 32 bits.\<close>

definition sha256K :: "u32 list" where
  "sha256K =
     [1116352408, 1899447441, 3049323471, 3921009573, 961987163, 1508970993, 2453635748,
      2870763221, 3624381080, 310598401, 607225278, 1426881987, 1925078388, 2162078206,
      2614888103, 3248222580, 3835390401, 4022224774, 264347078, 604807628, 770255983,
      1249150122, 1555081692, 1996064986, 2554220882, 2821834349, 2952996808, 3210313671,
      3336571891, 3584528711, 113926993, 338241895, 666307205, 773529912, 1294757372,
      1396182291, 1695183700, 1986661051, 2177026350, 2456956037, 2730485921, 2820302411,
      3259730800, 3345764771, 3516065817, 3600352804, 4094571909, 275423344, 430227734,
      506948616, 659060556, 883997877, 958139571, 1322822218, 1537002063, 1747873779,
      1955562222, 2024104815, 2227730452, 2361852424, 2428436474, 2756734187, 3204031479,
      3329325298]"

definition sha256H0 :: "u32 list" where
  "sha256H0 = [1779033703, 3144134277, 1013904242, 2773480762, 1359893119, 2600822924, 528734635,
      1541459225]"

text \<open>The message schedule grows at its end, 16 words to 64.\<close>

primrec shaSchedule :: "nat \<Rightarrow> u32 list \<Rightarrow> u32 list" where
  "shaSchedule 0 w = w"
| "shaSchedule (Suc n) w =
     (let t = length w;
          x = w ! (t - 15);
          y = w ! (t - 2);
          s0 = word_rotr 7 x XOR word_rotr 18 x XOR drop_bit 3 x;
          s1 = word_rotr 17 y XOR word_rotr 19 y XOR drop_bit 10 y
      in shaSchedule n (w @ [w ! (t - 16) + s0 + w ! (t - 7) + s1]))"

fun shaRounds :: "(u32 \<times> u32) list \<Rightarrow> u32 list \<Rightarrow> u32 list" where
  "shaRounds ((k, w) # kws) [a, b, c, d, e, f, g, h] =
     (let S1 = word_rotr 6 e XOR word_rotr 11 e XOR word_rotr 25 e;
          ch = (e AND f) XOR (NOT e AND g);
          t1 = h + S1 + ch + k + w;
          S0 = word_rotr 2 a XOR word_rotr 13 a XOR word_rotr 22 a;
          maj = (a AND b) XOR (a AND c) XOR (b AND c)
      in shaRounds kws [t1 + S0 + maj, a, b, c, d + t1, e, f, g])"
| "shaRounds kws st = st"

definition shaBlock :: "u32 list \<Rightarrow> u32 list \<Rightarrow> u32 list" where
  "shaBlock st block = map2 (+) st (shaRounds (zip sha256K (shaSchedule 48 block)) st)"

fun wordsOf :: "nat list \<Rightarrow> u32 list" where
  "wordsOf (a # b # c # d # r) =
     word_of_nat (((a * 256 + b) * 256 + c) * 256 + d) # wordsOf r"
| "wordsOf _ = []"

primrec bigEndian :: "nat \<Rightarrow> nat \<Rightarrow> nat list" where
  "bigEndian 0 v = []"
| "bigEndian (Suc n) v = bigEndian n (v div 256) @ [v mod 256]"

definition shaPad :: "nat list \<Rightarrow> nat list" where
  "shaPad m = m @ [128] @ replicate ((119 - length m mod 64) mod 64) 0 @ bigEndian 8 (8 * length m)"

function shaBlocks :: "u32 list \<Rightarrow> u32 list \<Rightarrow> u32 list" where
  "shaBlocks st w = (if length w < 16 then st else shaBlocks (shaBlock st (take 16 w)) (drop 16 w))"
  by pat_completeness auto
termination
  by (relation "measure (\<lambda>(st, w). length w)") auto

declare shaBlocks.simps [simp del]

definition sha256Sum :: "nat list \<Rightarrow> nat list" where
  "sha256Sum m = concat (map (\<lambda>w. bigEndian 4 (unat w)) (shaBlocks sha256H0 (wordsOf (shaPad m))))"

definition hexEncode :: "nat list \<Rightarrow> string" where
  "hexEncode bytes = concat (map (\<lambda>b. [hexDigit (b div 16), hexDigit b]) bytes)"

section \<open>The shape of a digest\<close>

lemma length_bigEndian [simp]: "length (bigEndian n v) = n"
  by (induction n arbitrary: v) auto

lemma length_shaRounds: "length st = 8 \<Longrightarrow> length (shaRounds kws st) = 8"
proof (induction kws arbitrary: st)
  case Nil
  then show ?case by simp
next
  case (Cons kw kws)
  obtain k w where "kw = (k, w)" by force
  moreover obtain a b c d e f g h where "st = [a, b, c, d, e, f, g, h]"
    using Cons.prems by (auto simp: numeral_eq_Suc length_Suc_conv)
  ultimately show ?case using Cons.IH by (simp add: Let_def)
qed

lemma length_shaBlocks: "length st = 8 \<Longrightarrow> length (shaBlocks st w) = 8"
proof (induction st w rule: shaBlocks.induct)
  case (1 st w)
  then show ?case
    by (subst shaBlocks.simps) (simp add: shaBlock_def length_shaRounds)
qed

lemma length_sha256Sum: "length (sha256Sum m) = 32"
  by (simp add: sha256Sum_def length_concat o_def sum_list_triv length_shaBlocks sha256H0_def)

text \<open>The padded message fills whole blocks, so no byte of the password is left out.\<close>

lemma length_shaPad: "length (shaPad m) mod 64 = 0"
proof -
  define r where "r = length m mod 64"
  have r: "r < 64" by (simp add: r_def)
  have m: "length m = 64 * (length m div 64) + r" by (simp add: r_def)
  have len: "length (shaPad m) = length m + 1 + (119 - r) mod 64 + 8"
    by (simp add: shaPad_def r_def)
  show ?thesis
  proof (cases "r \<le> 55")
    case True
    then have "(119 - r) mod 64 = 55 - r" using r by (simp add: le_mod_geq)
    with True m len have "length (shaPad m) = 64 * (length m div 64 + 1)" by simp
    then show ?thesis by simp
  next
    case False
    with r have "(119 - r) mod 64 = 119 - r" by simp
    with False r m len have "length (shaPad m) = 64 * (length m div 64 + 2)" by simp
    then show ?thesis by simp
  qed
qed

lemma length_hexEncode: "length (hexEncode bytes) = 2 * length bytes"
  by (simp add: hexEncode_def length_concat o_def sum_list_triv)

end
