(* ===== verification/Objects.thy ===== *)
theory Objects
  imports Version SecurityDb GoCrypto
begin

text \<open>
  The objects the operator keeps for an instance (\<open>instance_resources.go\<close>): the PVCs and the SYSDBA
  Secret it creates and otherwise leaves alone, and the ConfigMap, Service and StatefulSet it
  brings to the desired state on every reconcile.
\<close>

section \<open>Volumes\<close>

definition freshMeta :: "Instance \<Rightarrow> string \<Rightarrow> ObjectMeta" where
  "freshMeta i name =
     \<lparr>om_name = name, om_namespace = in_namespace i,
      om_labels = withFirebirdVersionLabel i (labelsForInstance (in_name i)),
      om_created = False, om_owners = []\<rparr>"

definition newPVC :: "Instance \<Rightarrow> string \<Rightarrow> StorageVolumeSpec \<Rightarrow> PVC" where
  "newPVC i name vol =
     \<lparr>pvc_meta = freshMeta i name, pvc_accessModes = [''ReadWriteOnce''], pvc_size = vol_size vol,
      pvc_class = (if vol_class vol \<noteq> [] then Some (vol_class vol) else None)\<rparr>"

definition reconcilePVC :: "string \<Rightarrow> StorageVolumeSpec \<Rightarrow> unit act" where
  "reconcilePVC name vol = withI (\<lambda>i.
     tryA (callA (QGetPvc (in_namespace i, name)) asPvc) (\<lambda>r. case r of
       Inr existing \<Rightarrow>
         wrapA (''failed to label PVC '' @ quote name @ '' with the Firebird version: '')
           (syncFirebirdVersionLabel (pvc_meta existing)
             (\<lambda>m. QPatchPvc existing (existing\<lparr>pvc_meta := m\<rparr>)))
     | Inl e \<Rightarrow>
         if \<not> isNotFound e then failA (Wrapf (''failed to get PVC '' @ quote name @ '': '') e [])
         else wrapA (''failed to create PVC '' @ quote name @ '': '')
                (callA (QCreatePvc (newPVC i name vol)) asUnit)))"

definition reconcilePVCs :: "unit act" where
  "reconcilePVCs = withI (\<lambda>i.
     thenA (wrapA ''failed to reconcile primary PVC: ''
              (reconcilePVC (primaryPVCName i) (sg_primary (sp_storage (in_spec i)))))
    (thenA (case backupVolumeSpec i of
              None \<Rightarrow> ok ()
            | Some vol \<Rightarrow> wrapA ''failed to reconcile backup PVC: ''
                (reconcilePVC (backupPVCName i) vol))
           (case sg_shadow (sp_storage (in_spec i)) of
              None \<Rightarrow> ok ()
            | Some vol \<Rightarrow> wrapA ''failed to reconcile shadow PVC: ''
                (reconcilePVC (shadowPVCName i) vol))))"

definition deletePVC :: "string \<Rightarrow> unit act" where
  "deletePVC name = withI (\<lambda>i.
     tryA (callA (QDeletePvc (in_namespace i, name)) asUnit) (\<lambda>r. case r of
       Inr _ \<Rightarrow> ok ()
     | Inl e \<Rightarrow> if isNotFound e then ok ()
               else failA (Wrapf (''failed to delete PVC '' @ quote name @ '': '') e [])))"

section \<open>The SYSDBA Secret\<close>

definition newSysdbaSecret :: "Instance \<Rightarrow> string \<Rightarrow> string \<Rightarrow> Secret" where
  "newSysdbaSecret i secretRef password =
     \<lparr>sec_meta = freshMeta i secretRef, sec_data = Map.empty,
      sec_stringData = [sysdbaSecretUsernameKey \<mapsto> sysdbaUsername,
                        sysdbaSecretPasswordKey \<mapsto> password]\<rparr>"

definition reconcileSysdbaSecret :: "nat \<Rightarrow> unit act" where
  "reconcileSysdbaSecret fuel = withI (\<lambda>i.
     let secretRef = sysdbaSecretRefName i in
     tryA (callA (QGetSecret (in_namespace i, secretRef)) asSecret) (\<lambda>r. case r of
       Inr existing \<Rightarrow>
         wrapA (''failed to label SYSDBA Secret '' @ quote secretRef @ '' with the Firebird version: '')
           (syncFirebirdVersionLabel (sec_meta existing)
             (\<lambda>m. QPatchSecret existing (existing\<lparr>sec_meta := m\<rparr>)))
     | Inl e \<Rightarrow>
         if \<not> isNotFound e
         then failA (Wrapf (''failed to get SYSDBA Secret '' @ quote secretRef @ '': '') e [])
         else if sy_secretRef (au_sysdba (sp_authentication (in_spec i))) \<noteq> []
         then failA (Errorf (''SYSDBA Secret '' @ quote secretRef
                @ '' specified in spec.authentication.sysdba.secretRef not found''))
         else bindA (wrapA ''failed to generate SYSDBA password: '' (generateRandomPassword fuel))
           (\<lambda>password.
              wrapA (''failed to create SYSDBA Secret '' @ quote secretRef @ '': '')
                (callA (QCreateSecret (newSysdbaSecret i secretRef password)) asUnit))))"

section \<open>The desired state of the owned objects\<close>

text \<open>The end of every mutate function.\<close>

definition setOwner :: "lib \<Rightarrow> Instance \<Rightarrow> ('o \<Rightarrow> ObjectMeta) \<Rightarrow> (ObjectMeta \<Rightarrow> 'o \<Rightarrow> 'o) \<Rightarrow> 'o \<Rightarrow> error + 'o" where
  "setOwner L i getM putM obj =
     (case lib_setControllerReference L i (getM obj) of
        Inl e \<Rightarrow> Inl e | Inr m \<Rightarrow> Inr (putM m obj))"

definition relabel :: "strmap \<Rightarrow> ObjectMeta \<Rightarrow> ObjectMeta" where
  "relabel labels m = m\<lparr>om_labels := labels\<rparr>"

subsection \<open>The aliases ConfigMap\<close>

definition databaseAlias :: "DatabaseSpec \<Rightarrow> string" where
  "databaseAlias db =
     (case db_alias db of Some a \<Rightarrow> if a \<noteq> [] then a else db_name db | None \<Rightarrow> db_name db)"

definition aliasLine :: "DatabaseSpec \<Rightarrow> string" where
  "aliasLine db = databaseAlias db @ '' = '' @ pathJoin [primaryDataMountPath, db_name db]"

definition aliasesFile :: "Instance \<Rightarrow> string" where
  "aliasesFile i =
     unlines (map aliasLine (spec_databases i))
     @ unlines [''security.db = '' @ securityDatabasePath i, ''{'',
                tabS @ ''RemoteAccess = false'', tabS @ ''DefaultDbCachePages = 50'', ''}'']"

definition desiredAliasesConfigMap :: "Instance \<Rightarrow> ConfigMap \<Rightarrow> ConfigMap" where
  "desiredAliasesConfigMap i cm =
     cm\<lparr>cm_meta := relabel (withFirebirdVersionLabel i (labelsForInstance (in_name i))) (cm_meta cm),
        cm_data := [aliasesConfigMapKey \<mapsto> aliasesFile i]\<rparr>"

definition mutateAliasesConfigMap :: "lib \<Rightarrow> Instance \<Rightarrow> ConfigMap \<Rightarrow> error + ConfigMap" where
  "mutateAliasesConfigMap L i cm =
     setOwner L i cm_meta (\<lambda>m o'. o'\<lparr>cm_meta := m\<rparr>) (desiredAliasesConfigMap i cm)"

subsection \<open>The Service\<close>

definition servicePort :: "Instance \<Rightarrow> int32" where
  "servicePort i =
     (if ss_port (sp_service (in_spec i)) = 0 then firebirdPort else ss_port (sp_service (in_spec i)))"

definition desiredService :: "Instance \<Rightarrow> Service \<Rightarrow> Service" where
  "desiredService i svc =
     (let svcType = ss_type (sp_service (in_spec i))
      in svc\<lparr>svc_meta := relabel (withFirebirdVersionLabel i (labelsForInstance (in_name i))) (svc_meta svc),
             svc_type := (if svcType = [] then ''ClusterIP'' else svcType),
             svc_selector := firebirdPodSelector (in_name i),
             svc_ports := [\<lparr>po_name = containerName, po_protocol = ''TCP'', po_port = servicePort i,
                            po_targetPort = firebirdPort\<rparr>]\<rparr>)"

definition mutateService :: "lib \<Rightarrow> Instance \<Rightarrow> Service \<Rightarrow> error + Service" where
  "mutateService L i svc =
     setOwner L i svc_meta (\<lambda>m o'. o'\<lparr>svc_meta := m\<rparr>) (desiredService i svc)"

subsection \<open>The StatefulSet\<close>

definition hardened :: SecurityContext where
  "hardened = \<lparr>sx_allowPrivilegeEscalation = Some False, sx_seccompProfile = ''RuntimeDefault''\<rparr>"

definition pvcVolume :: "string \<Rightarrow> string \<Rightarrow> Volume" where
  "pvcVolume name claim = \<lparr>v_name = name, v_source = PVCSource claim\<rparr>"

definition volumeMounts :: "Instance \<Rightarrow> VolumeMount list" where
  "volumeMounts i =
     [plainMount primaryVolumeName primaryDataMountPath,
      \<lparr>vm_name = aliasesVolumeName, vm_path = aliasesMountPath, vm_subPath = aliasesMountFileName,
       vm_readOnly = True\<rparr>]
     @ (if backupVolumeSpec i \<noteq> None then [plainMount backupVolumeName backupDataMountPath] else [])
     @ (if sg_shadow (sp_storage (in_spec i)) \<noteq> None
        then [plainMount shadowVolumeName shadowDataMountPath] else [])"

definition instanceImage :: "Instance \<Rightarrow> string" where
  "instanceImage i = sp_image (in_spec i) @ '':'' @ version_of i"

definition firebirdContainer :: "Instance \<Rightarrow> Container" where
  "firebirdContainer i =
     \<lparr>ct_name = containerName, ct_image = instanceImage i, ct_security = hardened,
      ct_ports = [(containerName, firebirdPort)], ct_command = [],
      ct_env = [EnvSecret ''FIREBIRD_ROOT_PASSWORD'' (sysdbaSecretRefName i) sysdbaSecretPasswordKey,
                EnvValue ''FIREBIRD_CONF_SecurityDatabase'' (securityDatabasePath i)],
      ct_mounts = volumeMounts i\<rparr>"

definition securityInitContainer :: "Instance \<Rightarrow> Container" where
  "securityInitContainer i =
     \<lparr>ct_name = securityDatabaseInitContainerName, ct_image = instanceImage i,
      ct_security = hardened, ct_ports = [],
      ct_command = [''sh'', ''-c'', securityDatabaseInitScript i], ct_env = [],
      ct_mounts = plainMount primaryVolumeName primaryDataMountPath
        # (if backupVolumeSpec i \<noteq> None then [plainMount backupVolumeName backupDataMountPath] else [])\<rparr>"

definition statefulSetVolumes :: "Instance \<Rightarrow> Volume list" where
  "statefulSetVolumes i =
     [pvcVolume primaryVolumeName (primaryPVCName i),
      \<lparr>v_name = aliasesVolumeName, v_source = ConfigMapSource (aliasesConfigMapName i)\<rparr>]
     @ (if backupVolumeSpec i \<noteq> None then [pvcVolume backupVolumeName (backupPVCName i)] else [])
     @ (if sg_shadow (sp_storage (in_spec i)) \<noteq> None
        then [pvcVolume shadowVolumeName (shadowPVCName i)] else [])"

definition sha256Hex :: "string \<Rightarrow> string" where
  "sha256Hex s = hexEncode (sha256Sum (map of_char s))"

text \<open>Everything of the pod template that is not set here keeps what the API server put there.\<close>

definition desiredTemplate :: "Instance \<Rightarrow> string \<Rightarrow> PodTemplate \<Rightarrow> PodTemplate" where
  "desiredTemplate i password t =
     t\<lparr>pt_labels := firebirdPodSelector (in_name i),
       pt_annotations := [sysdbaPasswordAnnotationKey \<mapsto> sha256Hex password],
       pt_spec := (pt_spec t)\<lparr>psp_containers := [firebirdContainer i],
                             psp_initContainers := [securityInitContainer i],
                             psp_volumes := statefulSetVolumes i\<rparr>\<rparr>"

definition desiredStatefulSet :: "Instance \<Rightarrow> string \<Rightarrow> StatefulSet \<Rightarrow> StatefulSet" where
  "desiredStatefulSet i password sts =
     sts\<lparr>sts_selector := (if \<not> om_created (sts_meta sts) then Some (firebirdPodSelector (in_name i))
                          else sts_selector sts),
         sts_meta := relabel (withFirebirdVersionLabel i (firebirdPodSelector (in_name i))) (sts_meta sts),
         sts_replicas := Some 1,
         sts_serviceName := in_name i,
         sts_template := desiredTemplate i password (sts_template sts)\<rparr>"

definition liftA :: "error + 'a \<Rightarrow> 'a act" where
  "liftA r = (case r of Inl e \<Rightarrow> failA e | Inr x \<Rightarrow> ok x)"

definition mutateStatefulSet :: "lib \<Rightarrow> StatefulSet \<Rightarrow> StatefulSet act" where
  "mutateStatefulSet L sts = withI (\<lambda>i.
     bindA sysdbaPassword (\<lambda>password.
       liftA (setOwner L i sts_meta (\<lambda>m o'. o'\<lparr>sts_meta := m\<rparr>) (desiredStatefulSet i password sts))))"

section \<open>Bringing an owned object up to date\<close>

text \<open>\<open>controllerutil.CreateOrUpdate\<close>: the callback runs on what the library fetched.\<close>

definition createOrUpdate :: "request \<Rightarrow> (answer \<Rightarrow> error + 'o) \<Rightarrow> ('o \<Rightarrow> request) \<Rightarrow> ('o \<Rightarrow> 'o act) \<Rightarrow> 'o act" where
  "createOrUpdate fetch proj store mutate =
     bindA (callA fetch proj) (\<lambda>obj. bindA (mutate obj) (\<lambda>obj'. callA (store obj') proj))"

lemma wpa_liftA [wprule]: "wpa A G Q (liftA r) i h = Q r i h"
  by (cases r) (simp_all add: liftA_def wprule)

lemma emits_liftA [emit]: "emits R (liftA r)"
  unfolding liftA_def by (intro emit)

lemma emits_createOrUpdate [emit]:
  "R fetch \<Longrightarrow> (\<And>obj. emits R (mutate obj)) \<Longrightarrow> (\<And>obj. R (store obj))
   \<Longrightarrow> emits R (createOrUpdate fetch proj store mutate)"
  unfolding createOrUpdate_def by (intro emit)

lemma emits_mutateStatefulSet [emit]:
  "(\<And>k. R (QGetSecret k)) \<Longrightarrow> emits R (mutateStatefulSet L sts)"
  unfolding mutateStatefulSet_def by (intro emit)

lemma emits_reconcilePVC [emit]:
  "(\<And>k. R (QGetPvc k)) \<Longrightarrow> (\<And>a b. R (QPatchPvc a b)) \<Longrightarrow> (\<And>p. R (QCreatePvc p))
   \<Longrightarrow> emits R (reconcilePVC name vol)"
  unfolding reconcilePVC_def by (intro emit)

lemma emits_reconcilePVCs [emit]:
  "(\<And>k. R (QGetPvc k)) \<Longrightarrow> (\<And>a b. R (QPatchPvc a b)) \<Longrightarrow> (\<And>p. R (QCreatePvc p))
   \<Longrightarrow> emits R reconcilePVCs"
  unfolding reconcilePVCs_def by (intro emit)

lemma emits_deletePVC:
  "(\<And>ns. R (QDeletePvc (ns, name))) \<Longrightarrow> emits R (deletePVC name)"
  unfolding deletePVC_def by (intro emit)

lemma emits_reconcileSysdbaSecret [emit]:
  "(\<And>k. R (QGetSecret k)) \<Longrightarrow> (\<And>a b. R (QPatchSecret a b)) \<Longrightarrow> (\<And>s. R (QCreateSecret s))
   \<Longrightarrow> (\<And>n. R (QRand n)) \<Longrightarrow> emits R (reconcileSysdbaSecret fuel)"
  unfolding reconcileSysdbaSecret_def Let_def by (intro emit)

section \<open>What they leave as it is\<close>

lemma steady_liftA [keep]: "steady f (liftA r)"
  unfolding liftA_def by (intro keep)

lemma steady_createOrUpdate [keep]:
  "\<not> writes_object fetch \<Longrightarrow> (\<And>obj. steady f (mutate obj)) \<Longrightarrow> (\<And>obj. \<not> writes_object (store obj))
   \<Longrightarrow> steady f (createOrUpdate fetch proj store mutate)"
  unfolding createOrUpdate_def by (intro keep)

lemma steady_mutateStatefulSet [keep]: "steady f (mutateStatefulSet L sts)"
  unfolding mutateStatefulSet_def by (intro keep)

lemma steady_reconcilePVC [keep]: "steady f (reconcilePVC name vol)"
  unfolding reconcilePVC_def by (intro keep) auto

lemma steady_reconcilePVCs [keep]: "steady f reconcilePVCs"
  unfolding reconcilePVCs_def by (intro keep)

lemma steady_deletePVC [keep]: "steady f (deletePVC name)"
  unfolding deletePVC_def by (intro keep) auto

lemma steady_reconcileSysdbaSecret [keep]: "steady f (reconcileSysdbaSecret fuel)"
  unfolding reconcileSysdbaSecret_def Let_def by (intro keep) auto

end
