(* ===== verification/Backup.thy ===== *)
theory Backup
  imports Objects Status
begin

text \<open>
  The offline backup taken before an instance's storage is released, on deletion and on a major
  upgrade: the helper pod of \<open>instance_provision.go\<close> (\<open>backupDatabasesOffline\<close>), the scale-down and
  the release of the primary and shadow PVCs of \<open>instance_controller.go\<close>.
\<close>

section \<open>The helper pod\<close>

definition gbakBackupLine :: "string \<Rightarrow> string \<Rightarrow> string" where
  "gbakBackupLine src dst = binGbak @ '' -backup -verify '' @ quote src @ '' '' @ quote dst"

definition databaseBackupScript :: "Instance \<Rightarrow> string \<Rightarrow> string" where
  "databaseBackupScript i version =
     unlines ([''set -e'', ''mkdir -p '' @ quote instanceBackupDir]
       @ map (\<lambda>name. gbakBackupLine (pathJoin [primaryDataMountPath, name])
                        (pathJoin [instanceBackupDir, backupFileName name])) (status_databases i)
       @ [gbakBackupLine (pathJoin [primaryDataMountPath, securityDatabaseFileNameForVersion version])
            (securityDatabaseBackupPathForVersion version)])"

definition backupPodMounts :: "Instance \<Rightarrow> VolumeMount list" where
  "backupPodMounts i =
     [plainMount primaryVolumeName primaryDataMountPath, plainMount backupVolumeName backupDataMountPath]
     @ (if sg_shadow (sp_storage (in_spec i)) \<noteq> None
        then [plainMount shadowVolumeName shadowDataMountPath] else [])"

definition backupPodVolumes :: "Instance \<Rightarrow> Volume list" where
  "backupPodVolumes i =
     [pvcVolume primaryVolumeName (primaryPVCName i), pvcVolume backupVolumeName (backupPVCName i)]
     @ (if sg_shadow (sp_storage (in_spec i)) \<noteq> None
        then [pvcVolume shadowVolumeName (shadowPVCName i)] else [])"

definition databaseBackupPod :: "Instance \<Rightarrow> string \<Rightarrow> Pod" where
  "databaseBackupPod i version =
     \<lparr>pod_meta = freshMeta i (databaseBackupPodName i),
      pod_spec = emptyPodSpec\<lparr>psp_restartPolicy := ''Never'',
        psp_containers := [\<lparr>ct_name = containerName, ct_image = databaseBackupImage i version,
          ct_security = hardened, ct_ports = [],
          ct_command = [''sh'', ''-c'', databaseBackupScript i version], ct_env = [],
          ct_mounts = backupPodMounts i\<rparr>],
        psp_volumes := backupPodVolumes i\<rparr>,
      pod_status = emptyPodStatus\<rparr>"

definition createDatabaseBackupPod :: "lib \<Rightarrow> string \<Rightarrow> unit act" where
  "createDatabaseBackupPod L version = withI (\<lambda>i.
     bindA (wrapA ''failed to set owner reference on database backup Pod: ''
       (liftA (setOwner L i pod_meta (\<lambda>m o'. o'\<lparr>pod_meta := m\<rparr>) (databaseBackupPod i version)))) (\<lambda>pod.
     thenA (wrapA ''failed to create database backup Pod: '' (callA (QCreatePod pod) asUnit))
       (failA (Waiting (''waiting for database backup Pod '' @ quote (databaseBackupPodName i)
                        @ '' to start'')))))"

text \<open>The first container that ended with a non-zero code, else the pod's own reason.\<close>

fun terminatedReason :: "Terminated option list \<Rightarrow> string option" where
  "terminatedReason [] = None"
| "terminatedReason (None # ts) = terminatedReason ts"
| "terminatedReason (Some t # ts) =
     (if te_exitCode t \<noteq> 0
      then Some (if te_message t \<noteq> [] then te_message t
                 else te_reason t @ '' (exit code '' @ showInt32 (te_exitCode t) @ '')'')
      else terminatedReason ts)"

definition podFailureReason :: "Pod \<Rightarrow> string" where
  "podFailureReason pod =
     (case terminatedReason (pst_terminated (pod_status pod)) of
        Some reason \<Rightarrow> reason
      | None \<Rightarrow> if pst_reason (pod_status pod) \<noteq> [] then pst_reason (pod_status pod)
                else ''unknown reason'')"

text \<open>\<open>r.Delete(ctx, pod)\<close> where a pod that is already gone is fine.\<close>

definition deletePod :: "string \<Rightarrow> Pod \<Rightarrow> unit act" where
  "deletePod failure pod =
     tryA (callA (QDeletePod (om_namespace (pod_meta pod), om_name (pod_meta pod))) asUnit) (\<lambda>r. case r of
       Inr _ \<Rightarrow> ok ()
     | Inl e \<Rightarrow> if isNotFound e then ok () else failA (Wrapf failure e []))"

definition backupDatabasesOffline :: "lib \<Rightarrow> string \<Rightarrow> unit act" where
  "backupDatabasesOffline L version = withI (\<lambda>i.
     let podName = databaseBackupPodName i in
     tryA (callA (QGetPod (in_namespace i, podName)) asPod) (\<lambda>r. case r of
       Inl e \<Rightarrow>
         if isNotFound e then createDatabaseBackupPod L version
         else failA (Wrapf ''failed to get database backup Pod: '' e [])
     | Inr pod \<Rightarrow>
         if pst_phase (pod_status pod) = PodSucceeded
         then deletePod ''failed to delete database backup Pod: '' pod
         else if pst_phase (pod_status pod) = PodFailed
         then thenA (deletePod ''failed to delete failed database backup Pod: '' pod)
                (failA (Errorf (''database backup Pod '' @ quote podName @ '' failed: ''
                                @ podFailureReason pod)))
         else failA (Waiting (''waiting for database backup Pod '' @ quote podName @ '' to complete''))))"

section \<open>Stopping the pod and backing up\<close>

definition stoppingMessage :: string where
  "stoppingMessage = ''Stopping the Firebird pod to back up its databases''"

definition backupDatabases :: "lib \<Rightarrow> string \<Rightarrow> unit act" where
  "backupDatabases L version = withI (\<lambda>i.
     tryA (callA (QGetSts (in_key i)) asSts) (\<lambda>r. case r of
       Inl e \<Rightarrow> if isNotFound e then ok () else failA (Wrapf ''failed to get StatefulSet: '' e [])
     | Inr sts \<Rightarrow>
         if sts_replicas sts \<noteq> Some 0 then
           thenA (setDeletionMessage stoppingMessage)
          (thenA (wrapA ''failed to stop the Firebird pod: ''
                   (bindA (callA (QUpdateSts (sts\<lparr>sts_replicas := Some 0\<rparr>)) asSts) (\<lambda>_. ok ())))
             (failA (Waiting ''stopping the Firebird pod before backing up its databases'')))
         else if sts_statusReplicas sts \<noteq> 0 then
           thenA (setDeletionMessage stoppingMessage)
             (failA (Waiting ''waiting for the Firebird pod to stop before backing up its databases''))
         else
           thenA (setDeletionMessage ''Backing up databases into the backup volume'')
             (backupDatabasesOffline L version)))"

section \<open>Releasing the storage\<close>

definition releasePrimaryAndShadowStorage :: "unit act" where
  "releasePrimaryAndShadowStorage =
     thenA (setDeletionMessage ''Releasing primary and shadow storage'')
    (thenA (withI (\<lambda>i. deletePVC (primaryPVCName i)))
           (withI (\<lambda>i. whenA (sg_shadow (sp_storage (in_spec i)) \<noteq> None) (deletePVC (shadowPVCName i)))))"

section \<open>Requests\<close>

lemma emits_createDatabaseBackupPod [emit]:
  "(\<And>p. R (QCreatePod p)) \<Longrightarrow> emits R (createDatabaseBackupPod L v)"
  unfolding createDatabaseBackupPod_def by (intro emit)

lemma emits_deletePod [emit]: "(\<And>k. R (QDeletePod k)) \<Longrightarrow> emits R (deletePod f pod)"
  unfolding deletePod_def by (intro emit)

lemma emits_backupDatabasesOffline [emit]:
  "(\<And>p. R (QCreatePod p)) \<Longrightarrow> (\<And>k. R (QDeletePod k)) \<Longrightarrow> (\<And>k. R (QGetPod k))
   \<Longrightarrow> emits R (backupDatabasesOffline L v)"
  unfolding backupDatabasesOffline_def Let_def by (intro emit)

lemma emits_backupDatabases [emit]:
  assumes "\<And>p. R (QCreatePod p)" "\<And>k. R (QDeletePod k)" "\<And>k. R (QGetPod k)"
    "\<And>k. R (QGetSts k)" "\<And>s. R (QUpdateSts s)" "\<And>i. R (QUpdateStatus i)"
  shows "emits R (backupDatabases L v)"
  unfolding backupDatabases_def by (intro emit assms)

lemma emits_releasePrimaryAndShadowStorage [emit]:
  assumes "\<And>i. R (QUpdateStatus i)" "\<And>ns i. R (QDeletePvc (ns, primaryPVCName i))"
    "\<And>ns i. R (QDeletePvc (ns, shadowPVCName i))"
  shows "emits R releasePrimaryAndShadowStorage"
  unfolding releasePrimaryAndShadowStorage_def by (intro emit emits_deletePVC assms)

section \<open>What they leave as it is\<close>

lemma steady_createDatabaseBackupPod [keep]: "steady f (createDatabaseBackupPod L v)"
  unfolding createDatabaseBackupPod_def by (intro keep) auto

lemma steady_deletePod [keep]: "steady f (deletePod e pod)"
  unfolding deletePod_def by (intro keep) auto

lemma steady_backupDatabasesOffline [keep]: "steady f (backupDatabasesOffline L v)"
  unfolding backupDatabasesOffline_def Let_def by (intro keep) auto

lemma steady_backupDatabases [keep]:
  assumes "\<And>m i. f (upd_status (\<lambda>s. s\<lparr>st_message := m\<rparr>) i) = f i"
  shows "steady f (backupDatabases L v)"
  unfolding backupDatabases_def by (intro keep assms) auto

lemma steady_releasePrimaryAndShadowStorage [keep]:
  assumes "\<And>m i. f (upd_status (\<lambda>s. s\<lparr>st_message := m\<rparr>) i) = f i"
  shows "steady f releasePrimaryAndShadowStorage"
  unfolding releasePrimaryAndShadowStorage_def by (intro keep assms)

section \<open>Evidence of a backup\<close>

text \<open>
  What the events of a run show: the backup pod was seen to have succeeded, the server to have been
  stopped, or that there was no StatefulSet to back up.
\<close>

definition podSucceeded :: "Instance \<Rightarrow> event set \<Rightarrow> bool" where
  "podSucceeded i evs = (\<exists>pod. (QGetPod (in_namespace i, databaseBackupPodName i), RPod pod) \<in> evs
     \<and> pst_phase (pod_status pod) = PodSucceeded)"

definition serverStopped :: "Instance \<Rightarrow> event set \<Rightarrow> bool" where
  "serverStopped i evs = (\<exists>sts. (QGetSts (in_key i), RSts sts) \<in> evs
     \<and> sts_replicas sts = Some 0 \<and> sts_statusReplicas sts = 0)"

definition noServer :: "Instance \<Rightarrow> event set \<Rightarrow> bool" where
  "noServer i evs = (\<exists>e. (QGetSts (in_key i), RErr e) \<in> evs \<and> isNotFound e)"

definition backupDone :: "Instance \<Rightarrow> event set \<Rightarrow> bool" where
  "backupDone i evs = (noServer i evs \<or> serverStopped i evs \<and> podSucceeded i evs)"

lemmas evidence_defs = backupDone_def noServer_def serverStopped_def podSucceeded_def

lemma backupDone_mono: "backupDone i A \<Longrightarrow> A \<subseteq> B \<Longrightarrow> backupDone i B"
  unfolding evidence_defs by blast

lemma asSts_Inl_NotFound: "asSts r = Inl e \<Longrightarrow> isNotFound e \<Longrightarrow> r = RErr e"
  by (cases r) (auto simp: malformed_def)

definition ownBackupPod :: "Instance \<Rightarrow> string \<Rightarrow> request \<Rightarrow> bool" where
  "ownBackupPod i version q =
     (\<forall>pod. q = QCreatePod pod \<longrightarrow> pod_spec pod = pod_spec (databaseBackupPod i version))"

lemma ownBackupPod_other [simp]: "(\<And>p. q \<noteq> QCreatePod p) \<Longrightarrow> ownBackupPod i v q"
  by (simp add: ownBackupPod_def)

lemma databaseBackupPod_cong:
  "in_name j = in_name i \<Longrightarrow> in_spec j = in_spec i \<Longrightarrow> status_databases j = status_databases i
   \<Longrightarrow> pod_spec (databaseBackupPod j v) = pod_spec (databaseBackupPod i v)"
  by (simp add: databaseBackupPod_def databaseBackupImage_def backupImage_def databaseBackupScript_def
      backupPodMounts_def backupPodVolumes_def layout)

lemma backupDatabasesOffline_evidence:
  "wpa A (\<lambda>_. ownBackupPod i v) (\<lambda>r j h'. r = Inr () \<longrightarrow> podSucceeded i (set h'))
     (backupDatabasesOffline L v) i h"
  unfolding backupDatabasesOffline_def createDatabaseBackupPod_def deletePod_def
  by (auto simp: wprule Let_def answer_values podSucceeded_def ownBackupPod_def setOwner_def split: sum.splits)

lemma backupDatabases_evidence:
  "wpa echoes (\<lambda>_. ownBackupPod i v) (\<lambda>r j h'. r = Inr () \<longrightarrow> backupDone i (set h'))
     (backupDatabases L v) i h"
proof -
  let ?j = "\<lambda>m. upd_status (\<lambda>s. s\<lparr>st_message := m\<rparr>) i"
  have pod: "ownBackupPod (?j m) v = ownBackupPod i v"
    and ev: "podSucceeded (?j m) = podSucceeded i" for m
    by (auto simp: fun_eq_iff ownBackupPod_def podSucceeded_def layout databaseBackupPod_cong [of "?j m" i v])
  have offline: "wpa echoes (\<lambda>_. ownBackupPod i v) (\<lambda>r j h''. r = Inr () \<longrightarrow> backupDone i (set h''))
      (backupDatabasesOffline L v) (?j m) h'"
    if "serverStopped i (set h')" for m h'
    using wpa_extends [OF backupDatabasesOffline_evidence [of echoes "?j m" v L h']]
    unfolding pod ev
    by (rule wpa_mono) (use that in \<open>auto simp: evidence_defs\<close>)
  show ?thesis
    unfolding backupDatabases_def
    by (auto simp: wprule asSts_Inr intro!: deletion.writer_echo offline)
      (auto simp: evidence_defs dest: asSts_Inl_NotFound)
qed

section \<open>Evidence of a release\<close>

text \<open>A deletion that went through, or found nothing.\<close>

definition gone :: "answer \<Rightarrow> bool" where
  "gone a = (case asUnit a of Inr _ \<Rightarrow> True | Inl e \<Rightarrow> isNotFound e)"

text \<open>A PVC that was looked for and not found.\<close>

definition pvcAbsent :: "nsname \<Rightarrow> event set \<Rightarrow> bool" where
  "pvcAbsent k evs = (\<exists>e. (QGetPvc k, RErr e) \<in> evs \<and> isNotFound e)"

definition pvcReleased :: "nsname \<Rightarrow> event set \<Rightarrow> bool" where
  "pvcReleased k evs = (\<exists>a. (QDeletePvc k, a) \<in> evs \<and> gone a)"

definition storageReleased :: "Instance \<Rightarrow> event set \<Rightarrow> bool" where
  "storageReleased i evs =
     (pvcReleased (in_namespace i, primaryPVCName i) evs
      \<and> (sg_shadow (sp_storage (in_spec i)) \<noteq> None
         \<longrightarrow> pvcReleased (in_namespace i, shadowPVCName i) evs))"

text \<open>The PVCs an instance may lose: its primary and, when it has one, its shadow.\<close>

definition ownStorage :: "Instance \<Rightarrow> nsname \<Rightarrow> bool" where
  "ownStorage i k =
     (k = (in_namespace i, primaryPVCName i)
      \<or> sg_shadow (sp_storage (in_spec i)) \<noteq> None \<and> k = (in_namespace i, shadowPVCName i))"

definition releasesOwn :: "Instance \<Rightarrow> request \<Rightarrow> bool" where
  "releasesOwn i q = (\<forall>k. q = QDeletePvc k \<longrightarrow> ownStorage i k)"

lemma releasesOwn_other [simp]: "(\<And>k. q \<noteq> QDeletePvc k) \<Longrightarrow> releasesOwn i q"
  by (simp add: releasesOwn_def)

lemma releasesOwn_PVC [simp]: "releasesOwn i (QDeletePvc k) = ownStorage i k"
  by (simp add: releasesOwn_def)

lemma ownStorage_not_backup: "ownStorage i k \<Longrightarrow> k \<noteq> (ns, backupPVCName j)"
  using primary_not_backup [of i j] shadow_not_backup [of i j] by (auto simp: ownStorage_def)

lemma wpa_deletePVC [wprule]:
  "wpa A G Q (deletePVC name) i h =
     (G h (QDeletePvc (in_namespace i, name)) \<and>
      (\<forall>r. A h (QDeletePvc (in_namespace i, name)) r \<longrightarrow>
         (gone r \<longrightarrow> Q (Inr ()) i ((QDeletePvc (in_namespace i, name), r) # h)) \<and>
         (\<forall>e. asUnit r = Inl e \<and> \<not> isNotFound e \<longrightarrow>
            Q (Inl (Wrapf (''failed to delete PVC '' @ quote name @ '': '') e [])) i
              ((QDeletePvc (in_namespace i, name), r) # h))))"
  unfolding deletePVC_def by (auto simp: wprule gone_def split: sum.splits)

lemma release_evidence:
  "wpa echoes (\<lambda>_. releasesOwn i) (\<lambda>r j h'. r = Inr () \<longrightarrow> storageReleased i (set h'))
     releasePrimaryAndShadowStorage i h"
  unfolding releasePrimaryAndShadowStorage_def
  by (auto simp: wprule storageReleased_def pvcReleased_def ownStorage_def layout
      intro!: deletion.writer_echo)

section \<open>What a backup depends on\<close>

text \<open>What stays of an instance while only its status texts and phase are written.\<close>

definition core :: "Instance \<Rightarrow> string \<times> string \<times> InstanceSpec \<times> UpgradeStatus option \<times> string list" where
  "core i = (in_name i, in_namespace i, in_spec i, upgrade_of i, status_databases i)"

lemma core_message [simp]: "core (upd_status (\<lambda>s. s\<lparr>st_message := m\<rparr>) i) = core i"
  by (simp add: core_def)

lemma core_phase [simp]: "core (upd_status (\<lambda>s. s\<lparr>st_phase := m\<rparr>) i) = core i"
  by (simp add: core_def)

lemma core_backupDone: "core j = core i \<Longrightarrow> backupDone j = backupDone i"
  by (auto simp: core_def evidence_defs layout fun_eq_iff)

lemma core_ownBackupPod: "core j = core i \<Longrightarrow> ownBackupPod j v = ownBackupPod i v"
  using databaseBackupPod_cong [of j i v] by (auto simp: core_def ownBackupPod_def fun_eq_iff)

lemma core_release: "core j = core i \<Longrightarrow> releasesOwn j = releasesOwn i \<and> storageReleased j = storageReleased i"
  by (auto simp: core_def releasesOwn_def ownStorage_def storageReleased_def layout fun_eq_iff)

end
