(* ===== verification/Upgrade.thy ===== *)
theory Upgrade
  imports Backup
begin

text \<open>
  The upgrade of an instance to a new Firebird major version (\<open>instance_upgrade.go\<close>): which change of
  \<open>spec.version\<close> is one, the stages it goes through and what each of them does.
\<close>

section \<open>Versions\<close>

text \<open>The major version of a tag, when it has one.\<close>

definition firebirdMajorVersion :: "string \<Rightarrow> int option" where
  "firebirdMajorVersion version =
     (case atoi (cutBefore (CHR ''-'') (cutBefore (CHR ''.'') version)) of
        None \<Rightarrow> None
      | Some n \<Rightarrow> if n \<le> 0 then None else Some n)"

text \<open>The tag of an image: what follows the last colon, unless a slash does, as in a registry's port.\<close>

definition imageTag :: "string \<Rightarrow> string" where
  "imageTag img =
     (case afterLast (CHR '':'') img of
        None \<Rightarrow> []
      | Some tag \<Rightarrow> if CHR ''/'' \<in> set tag then [] else tag)"

fun containersFirebirdVersion :: "Container list \<Rightarrow> string" where
  "containersFirebirdVersion [] = []"
| "containersFirebirdVersion (c # cs) =
     (if ct_name c \<noteq> containerName then containersFirebirdVersion cs else imageTag (ct_image c))"

definition statefulSetFirebirdVersion :: "StatefulSet \<Rightarrow> string" where
  "statefulSetFirebirdVersion sts =
     containersFirebirdVersion (psp_containers (pt_spec (sts_template sts)))"

section \<open>The stages\<close>

text \<open>\<open>instance.Status.Upgrade\<close> where the code dereferences it: a nil pointer panics.\<close>

definition withUpgrade :: "(UpgradeStatus \<Rightarrow> 'a act) \<Rightarrow> 'a act" where
  "withUpgrade f = withI (\<lambda>i. case upgrade_of i of
     None \<Rightarrow> failA (Panicked ''nil pointer dereference'') | Some u \<Rightarrow> f u)"

definition setUpgradeStage :: "UpgradeStage \<Rightarrow> unit act" where
  "setUpgradeStage stage = withUpgrade (\<lambda>u.
     thenA (modifyI (upd_status (\<lambda>s. s\<lparr>st_upgrade := Some (u\<lparr>up_stage := stage\<rparr>)\<rparr>)))
       (wrapA ''failed to record the Firebird upgrade's progress: '' updateStatus))"

text \<open>The decision of \<open>startMajorUpgrade\<close>, before anything is written.\<close>

datatype upgradeDecision = NoUpgrade | Refused error | StartUpgrade

definition decideUpgrade :: "string \<Rightarrow> string \<Rightarrow> bool \<Rightarrow> upgradeDecision" where
  "decideUpgrade running wanted hasVolume =
     (case (firebirdMajorVersion running, firebirdMajorVersion wanted) of
        (Some from, Some to) \<Rightarrow>
          if from = to then NoUpgrade
          else if to < from then Refused (Errorf (''downgrading Firebird from '' @ running @ '' to '' @ wanted
            @ '' isn'' @ sqS @ ''t supported: only a newer major version can be upgraded to; set spec.version back to a ''
            @ showInt from @ ''.x release''))
          else if \<not> hasVolume then Refused (Errorf (''upgrading Firebird from '' @ running @ '' to '' @ wanted
            @ '' needs a local backup volume (spec.backup.enabled with a local entry in spec.backup.destinations) to back up the databases into''))
          else StartUpgrade
      | _ \<Rightarrow> NoUpgrade)"

definition beginUpgrade :: "string \<Rightarrow> Instance \<Rightarrow> Instance" where
  "beginUpgrade running i = upd_status (\<lambda>s. s\<lparr>
     st_upgrade := Some \<lparr>up_fromVersion = running, up_toVersion = version_of i, up_stage = BackingUp\<rparr>,
     st_phase := phaseUpgrading\<rparr>) i"

definition startMajorUpgrade :: "StatefulSet \<Rightarrow> bool act" where
  "startMajorUpgrade sts = withI (\<lambda>i.
     let running = statefulSetFirebirdVersion sts in
     case decideUpgrade running (version_of i) (backupVolumeSpec i \<noteq> None) of
       NoUpgrade \<Rightarrow> ok False
     | Refused e \<Rightarrow> failA e
     | StartUpgrade \<Rightarrow>
         thenA (modifyI (beginUpgrade running))
        (thenA (wrapA ''failed to record the Firebird upgrade: '' updateStatus) (ok True)))"

fun awaitPvcsGone :: "string list \<Rightarrow> unit act" where
  "awaitPvcsGone [] = ok ()"
| "awaitPvcsGone (name # names) = withI (\<lambda>i.
     tryA (callA (QGetPvc (in_namespace i, name)) asPvc) (\<lambda>r. case r of
       Inr _ \<Rightarrow> withUpgrade (\<lambda>u. failA (Waiting (''waiting for PVC '' @ quote name
                @ '' to be released before restoring onto Firebird '' @ up_toVersion u)))
     | Inl e \<Rightarrow> if \<not> isNotFound e
               then failA (Wrapf (''failed to get PVC '' @ quote name @ '': '') e [])
               else awaitPvcsGone names))"

definition releaseStorageForUpgrade :: "unit act" where
  "releaseStorageForUpgrade =
     thenA releasePrimaryAndShadowStorage
       (withI (\<lambda>i. awaitPvcsGone (primaryPVCName i
          # (if sg_shadow (sp_storage (in_spec i)) \<noteq> None then [shadowPVCName i] else []))))"

definition clearDatabases :: "InstanceStatus \<Rightarrow> InstanceStatus" where
  "clearDatabases s = s\<lparr>st_databases := [], st_databaseCount := 0\<rparr>"

definition changedMeanwhile :: "Instance \<Rightarrow> UpgradeStatus \<Rightarrow> error" where
  "changedMeanwhile i u =
     Errorf (''spec.version changed to '' @ version_of i @ '' while upgrading Firebird from ''
       @ up_fromVersion u @ '' to '' @ up_toVersion u @ ''; set it back to '' @ up_toVersion u
       @ '' to let the upgrade finish'')"

text \<open>The stage \<open>BackingUp\<close>.\<close>

definition upgradeBackup :: "lib \<Rightarrow> UpgradeStatus \<Rightarrow> unit act" where
  "upgradeBackup L u =
     whenA (up_stage u = BackingUp)
       (thenA (backupDatabases L (up_fromVersion u))
       (thenA (modifyI (upd_status clearDatabases)) (setUpgradeStage Releasing)))"

text \<open>The stage \<open>Releasing\<close>.\<close>

definition upgradeRelease :: "StatefulSet \<Rightarrow> UpgradeStatus \<Rightarrow> unit act" where
  "upgradeRelease sts u =
     whenA (up_stage u = Releasing)
       (thenA (whenA (statefulSetFirebirdVersion sts \<noteq> up_toVersion u) releaseStorageForUpgrade)
          (setUpgradeStage Restoring))"

text \<open>
  The result says whether the reconcile ends here without an error; when there is an error it ends
  in any case, so the flag Go returns next to it is not kept. \<open>upgrade\<close> is read again where the code
  reads it again: at the start, and after the stage \<open>BackingUp\<close>, whose status write replaced the
  object.
\<close>

definition continueUpgrade :: "lib \<Rightarrow> StatefulSet \<Rightarrow> bool act" where
  "continueUpgrade L sts = withUpgrade (\<lambda>u. withI (\<lambda>i.
     if version_of i \<noteq> up_toVersion u then failA (changedMeanwhile i u)
     else thenA (upgradeBackup L u)
         (bindA (if up_stage u = BackingUp then withUpgrade (upgradeRelease sts)
                 else upgradeRelease sts u) (\<lambda>_. ok False))))"

definition reconcileMajorUpgrade :: "lib \<Rightarrow> bool act" where
  "reconcileMajorUpgrade L = withI (\<lambda>i.
     tryA (callA (QGetSts (in_key i)) asSts) (\<lambda>r. case r of
       Inl e \<Rightarrow> if isNotFound e then ok False
               else failA (Wrapf ''failed to get StatefulSet: '' e [])
     | Inr sts \<Rightarrow>
         (case upgrade_of i of
            None \<Rightarrow> bindA (startMajorUpgrade sts) (\<lambda>started.
                      if \<not> started then ok False else continueUpgrade L sts)
          | Some _ \<Rightarrow> continueUpgrade L sts)))"

definition finishMajorUpgrade :: "unit act" where
  "finishMajorUpgrade = withI (\<lambda>i.
     case upgrade_of i of
       None \<Rightarrow> ok ()
     | Some _ \<Rightarrow>
         thenA (modifyI (upd_status (\<lambda>s. s\<lparr>st_upgrade := None\<rparr>)))
           (wrapA ''failed to record the Firebird upgrade's completion: '' updateStatus))"

section \<open>Requests, and what they leave as it is\<close>

lemma emits_setUpgradeStage [emit]: "(\<And>i. R (QUpdateStatus i)) \<Longrightarrow> emits R (setUpgradeStage st)"
  unfolding setUpgradeStage_def withUpgrade_def by (intro emit)

lemma emits_awaitPvcsGone [emit]: "(\<And>k. R (QGetPvc k)) \<Longrightarrow> emits R (awaitPvcsGone names)"
  by (induction names) (auto simp: withUpgrade_def intro!: emit)

lemma emits_startMajorUpgrade [emit]: "(\<And>i. R (QUpdateStatus i)) \<Longrightarrow> emits R (startMajorUpgrade sts)"
  unfolding startMajorUpgrade_def Let_def by (rule emits_withI) (auto split: upgradeDecision.splits intro!: emit)

lemma emits_reconcileMajorUpgrade [emit]:
  assumes "\<And>k. R (QGetSts k)" "\<And>s. R (QUpdateSts s)" "\<And>k. R (QGetPod k)" "\<And>p. R (QCreatePod p)"
    "\<And>k. R (QDeletePod k)" "\<And>k. R (QGetPvc k)" "\<And>ns i. R (QDeletePvc (ns, primaryPVCName i))"
    "\<And>ns i. R (QDeletePvc (ns, shadowPVCName i))" "\<And>i. R (QUpdateStatus i)"
  shows "emits R (reconcileMajorUpgrade L)"
  unfolding reconcileMajorUpgrade_def continueUpgrade_def upgradeBackup_def upgradeRelease_def
    releaseStorageForUpgrade_def withUpgrade_def
  by (intro emit assms)

lemma steady_setUpgradeStage [keep]:
  assumes "\<And>u i. f (upd_status (\<lambda>s. s\<lparr>st_upgrade := u\<rparr>) i) = f i"
  shows "steady f (setUpgradeStage st)"
  unfolding setUpgradeStage_def withUpgrade_def by (intro keep assms)

lemma steady_awaitPvcsGone [keep]: "steady f (awaitPvcsGone names)"
  by (induction names) (auto simp: withUpgrade_def intro!: keep)

lemma steady_startMajorUpgrade [keep]:
  assumes "\<And>v i. f (beginUpgrade v i) = f i"
  shows "steady f (startMajorUpgrade sts)"
  unfolding startMajorUpgrade_def Let_def
  by (rule steady_withI) (auto simp: assms split: upgradeDecision.splits intro!: keep)

lemma steady_reconcileMajorUpgrade [keep]:
  assumes "\<And>u i. f (upd_status (\<lambda>s. s\<lparr>st_upgrade := u\<rparr>) i) = f i" "\<And>v i. f (beginUpgrade v i) = f i"
    "\<And>i. f (upd_status clearDatabases i) = f i" "\<And>m i. f (upd_status (\<lambda>s. s\<lparr>st_message := m\<rparr>) i) = f i"
  shows "steady f (reconcileMajorUpgrade L)"
  unfolding reconcileMajorUpgrade_def continueUpgrade_def upgradeBackup_def upgradeRelease_def
    releaseStorageForUpgrade_def withUpgrade_def
  by (intro keep assms) simp

end
