(* ===== verification/Schedule.thy ===== *)
theory Schedule
  imports Objects
begin

text \<open>
  The scheduled backups (\<open>instance_backup_schedule.go\<close>): the retention values, one CronJob per enabled
  frequency, and the shell scripts its Jobs run, as the operator renders them.
\<close>

section \<open>Constants\<close>

definition scheduledBackupTimestampDate :: string where
  "scheduledBackupTimestampDate = ''+%Y%m%dT%H%M%SZ''"

text \<open>A timestamp as a basic regular expression: eight digits, T, six digits, Z, captured.\<close>

definition timestampGroup :: string where
  "timestampGroup = bsS @ ''([0-9]'' @ bsS @ ''{8'' @ bsS @ ''}T[0-9]'' @ bsS @ ''{6'' @ bsS @ ''}Z''
     @ bsS @ '')''"

definition scheduledBackupTimestampSedPattern :: string where
  "scheduledBackupTimestampSedPattern =
     ''s/.*-'' @ timestampGroup @ bsS @ ''.[fn]bk'' @ bsS @ ''('' @ bsS @ ''.gz'' @ bsS @ '')''
     @ bsS @ ''{0,1'' @ bsS @ ''}$/'' @ bsS @ ''1/p''"

definition scheduledBackupLockPath :: string where
  "scheduledBackupLockPath = pathJoin [backupDataMountPath, ''.scheduled-backup.lock'']"

definition scheduledBackupPoolPrefix :: string where "scheduledBackupPoolPrefix = ''pool-''"
definition scheduledBackupClaimPrefix :: string where "scheduledBackupClaimPrefix = ''.claim-''"
definition scheduledBackupActiveDeadline :: int where "scheduledBackupActiveDeadline = 6 * 3600"
definition firebirdNodeTopologyKey :: string where "firebirdNodeTopologyKey = ''kubernetes.io/hostname''"

section \<open>Retention\<close>

text \<open>The zero value has no unit: the zero byte.\<close>

record retentionDuration =
  rd_amount :: int
  rd_unit :: char

definition noRetention :: retentionDuration where
  "noRetention = \<lparr>rd_amount = 0, rd_unit = CHR 0x00\<rparr>"

definition parseRetention :: "string \<Rightarrow> error + retentionDuration" where
  "parseRetention value =
     (if value = [] then Inr noRetention
      else let unit = last value in
        if unit \<notin> set ''hdwmy''
        then Inl (Errorf (''invalid retention '' @ quote value @ '': unit must be one of h, d, w, m, y''))
        else case atoi (butlast value) of
               None \<Rightarrow> Inl (Errorf (''invalid retention '' @ quote value @ '': expected <n><unit>, e.g. 3d''))
             | Some amount \<Rightarrow>
                 if amount < 0
                 then Inl (Errorf (''invalid retention '' @ quote value @ '': expected <n><unit>, e.g. 3d''))
                 else Inr \<lparr>rd_amount = amount, rd_unit = unit\<rparr>)"

definition retentionEnabled :: "retentionDuration \<Rightarrow> bool" where
  "retentionEnabled d = (0 < rd_amount d)"

definition unitName :: "char \<Rightarrow> string" where
  "unitName c =
     (if c = CHR ''h'' then ''hours'' else if c = CHR ''d'' then ''days''
      else if c = CHR ''w'' then ''weeks'' else if c = CHR ''m'' then ''months''
      else if c = CHR ''y'' then ''years'' else [])"

definition dateAgo :: "retentionDuration \<Rightarrow> string" where
  "dateAgo d = showInt (rd_amount d) @ '' '' @ unitName (rd_unit d) @ '' ago''"

section \<open>Frequencies\<close>

record backupFrequency =
  bf_name :: string
  bf_schedule :: string
  bf_retention :: "RetentionSpec \<Rightarrow> string"

definition backupFrequencies :: "backupFrequency list" where
  "backupFrequencies =
     [\<lparr>bf_name = ''hour'', bf_schedule = ''0 * * * *'', bf_retention = rt_hour\<rparr>,
      \<lparr>bf_name = ''day'', bf_schedule = ''0 0 * * *'', bf_retention = rt_day\<rparr>,
      \<lparr>bf_name = ''week'', bf_schedule = ''0 0 * * 0'', bf_retention = rt_week\<rparr>,
      \<lparr>bf_name = ''month'', bf_schedule = ''0 0 1 * *'', bf_retention = rt_month\<rparr>,
      \<lparr>bf_name = ''year'', bf_schedule = ''0 0 1 1 *'', bf_retention = rt_year\<rparr>]"

text \<open>An unparsable value counts as disabled.\<close>

definition frequencyRetention :: "Instance \<Rightarrow> backupFrequency \<Rightarrow> retentionDuration" where
  "frequencyRetention i freq =
     (case parseRetention (bf_retention freq (bk_retention (sp_backup (in_spec i)))) of
        Inl _ \<Rightarrow> noRetention | Inr d \<Rightarrow> d)"

definition scheduledBackupCronJobName :: "Instance \<Rightarrow> string \<Rightarrow> string" where
  "scheduledBackupCronJobName i frequency = in_name i @ ''-backup-'' @ frequency"

definition scheduledBackupDir :: "string \<Rightarrow> string" where
  "scheduledBackupDir frequency = pathJoin [backupDataMountPath, frequency]"

section \<open>The scripts\<close>

definition backupServiceConnection :: "Instance \<Rightarrow> string" where
  "backupServiceConnection i = in_name i @ ''/'' @ showInt32 (servicePort i) @ '':service_mgr''"

definition fbsvcmgrLogin :: "string \<Rightarrow> string" where
  "fbsvcmgrLogin conn =
     binFbsvcmgr @ '' '' @ conn @ '' '' @ flagUser @ '' '' @ sysdbaUsername @ '' '' @ flagPassword
     @ '' \"$SYSDBA_PASSWORD\"''"

definition nbackupCommand :: "string \<Rightarrow> string \<Rightarrow> nat \<Rightarrow> string \<Rightarrow> string \<Rightarrow> string" where
  "nbackupCommand conn dbPath level dst extra =
     fbsvcmgrLogin conn @ '' -action_nbak -nbk_level '' @ showNat level @ '' -dbname '' @ quote dbPath
     @ '' -nbk_file '' @ dst @ extra"

definition nbackupCleanHistoryArgs :: string where
  "nbackupCleanHistoryArgs = '' -nbk_clean_history -nbk_keep_rows 1''"

definition canCleanBackupHistory :: "Instance \<Rightarrow> bool" where
  "canCleanBackupHistory i =
     (case atoi (cutBefore (CHR ''.'') (st_firebirdVersion (in_status i))) of
        None \<Rightarrow> False | Some n \<Rightarrow> 4 \<le> n)"

text \<open>Lines are without their newline; \<open>writeGzip\<close> adds one or none.\<close>

definition writeGzip :: "Instance \<Rightarrow> string \<Rightarrow> string \<Rightarrow> string list" where
  "writeGzip i indent dst =
     (if bk_compress (sp_backup (in_spec i)) then [indent @ ''gzip -f '' @ dst] else [])"

definition baseName :: "string \<Rightarrow> string" where
  "baseName name = trimSuffix name ''.fdb''"

definition scheduledBackupUniqueTimestampScript :: "string \<Rightarrow> string list" where
  \<open>scheduledBackupUniqueTimestampScript dir =
     (let claim = quote dir @ ''/'' @ scheduledBackupClaimPrefix @ ''"$TS"'' in
      [''while :; do'',
       ''  TS=$(date -u '' @ scheduledBackupTimestampDate @ '')'',
       ''  if mkdir '' @ claim @ '' 2>/dev/null; then'',
       ''    USED='',
       ''    for f in '' @ quote dir @ ''/*-"$TS".[fn]bk* ''
          @ quote dir @ ''/'' @ scheduledBackupPoolPrefix @ ''"$TS" ''
          @ quote dir @ ''/'' @ scheduledBackupPoolPrefix @ ''*/*-"$TS".nbk*; do'',
       ''      if [ -e "$f" ]; then USED=1; fi'',
       ''    done'',
       ''    [ -n "$USED" ] || break'',
       ''    rmdir '' @ claim,
       ''  fi'',
       ''  sleep 1'',
       ''done'',
       ''trap '' @ sqS @ ''rmdir '' @ claim @ sqS @ '' EXIT''])\<close>

definition pruneScheduledBackupsScript :: "string \<Rightarrow> retentionDuration \<Rightarrow> string list" where
  \<open>pruneScheduledBackupsScript dir retention =
     [''CUTOFF=$(date -u -d '' @ quote (dateAgo retention) @ '' '' @ scheduledBackupTimestampDate @ '')'',
      ''for f in '' @ quote dir @ ''/*.fbk '' @ quote dir @ ''/*.fbk.gz '' @ quote dir @ ''/*.nbk ''
        @ quote dir @ ''/*.nbk.gz; do'',
      ''  [ -e "$f" ] || continue'',
      ''  FTS=$(basename "$f" | sed -n '' @ sqS @ scheduledBackupTimestampSedPattern @ sqS @ '')'',
      ''  [ -n "$FTS" ] || continue'',
      ''  if expr "$FTS" '' @ bsS @ ''< "$CUTOFF" >/dev/null; then'',
      ''    rm -f "$f"'',
      ''    echo "Deleted expired backup $f"'',
      ''  fi'',
      ''done'',
      ''for d in '' @ quote dir @ ''/'' @ scheduledBackupClaimPrefix @ ''*; do'',
      ''  [ -d "$d" ] || continue'',
      ''  FTS=$(basename "$d" | sed -n '' @ sqS @ ''s/^'' @ bsS @ scheduledBackupClaimPrefix
        @ timestampGroup @ ''$/'' @ bsS @ ''1/p'' @ sqS @ '')'',
      ''  [ -n "$FTS" ] || continue'',
      ''  if expr "$FTS" '' @ bsS @ ''< "$CUTOFF" >/dev/null; then'',
      ''    rmdir "$d"'',
      ''  fi'',
      ''done'']\<close>

text \<open>The lines that read a pool's timestamp off its directory \<open>$p\<close>.\<close>

definition poolTimestampLines :: "string list" where
  \<open>poolTimestampLines =
     [''  [ -d "$p" ] || continue'',
      ''  PTS=$(basename "$p" | sed -n '' @ sqS @ ''s/^'' @ scheduledBackupPoolPrefix
        @ timestampGroup @ ''$/'' @ bsS @ ''1/p'' @ sqS @ '')'',
      ''  [ -n "$PTS" ] || continue'']\<close>

definition pruneExpiredPoolsScript :: "string \<Rightarrow> string list" where
  \<open>pruneExpiredPoolsScript dir =
     [''for p in '' @ quote dir @ ''/'' @ scheduledBackupPoolPrefix @ ''*; do'']
     @ poolTimestampLines @
     [''  if expr "$PTS" '' @ bsS @ ''< "$CUTOFF" >/dev/null; then'',
      ''    rm -rf "$p"'',
      ''    echo "Deleted expired backup pool $p"'',
      ''  fi'',
      ''done'']\<close>

definition poolLevel0 :: "string \<Rightarrow> string" where
  \<open>poolLevel0 name = ''"$POOL"/'' @ quote (baseName name @ ''-level0.nbk'')\<close>

definition poolLevel1 :: "string \<Rightarrow> string" where
  \<open>poolLevel1 name = ''"$POOL"/'' @ quote (baseName name @ ''-level1-'') @ ''"$TS".nbk''\<close>

definition poolCheckLines :: "Instance \<Rightarrow> string \<Rightarrow> string list" where
  \<open>poolCheckLines i name =
     (let level0 = poolLevel0 name;
          dbConn = in_name i @ ''/'' @ showInt32 (servicePort i) @ '':''
                   @ pathJoin [primaryDataMountPath, name] in
      [''if [ -z "$NEW" ] && { [ -e '' @ level0 @ '' ] || [ -e '' @ level0 @ ''.gz ]; }; then'',
       ''  LAST=$(printf '' @ sqS @ ''%s'' @ bsS @ ''n'' @ sqS @ '' '' @ sqS @ ''SET HEADING OFF;'' @ sqS @ '' ''
         @ sqS @ ''SELECT FIRST 1 RDB$FILE_NAME FROM RDB$BACKUP_HISTORY WHERE RDB$BACKUP_LEVEL = 0 ORDER BY RDB$BACKUP_ID DESC;'' @ sqS
         @ '' | '' @ binIsql @ '' -q '' @ flagUser @ '' '' @ sysdbaUsername @ '' '' @ flagPassword
         @ '' "$SYSDBA_PASSWORD" '' @ quote dbConn @ '' | awk '' @ sqS @ ''NF { print $1; exit }'' @ sqS @ '')'',
       ''  [ "$LAST" = '' @ level0 @ '' ] || NEW=1'',
       ''fi''])\<close>

definition poolBackupLines :: "Instance \<Rightarrow> string \<Rightarrow> string \<Rightarrow> string list" where
  \<open>poolBackupLines i level0Extra name =
     (let conn = backupServiceConnection i;
          serverDBPath = pathJoin [primaryDataMountPath, name];
          level0 = poolLevel0 name; level1 = poolLevel1 name in
      [''if [ -e '' @ level0 @ '' ] || [ -e '' @ level0 @ ''.gz ]; then'',
       ''  '' @ nbackupCommand conn serverDBPath 1 level1 []]
      @ writeGzip i ''  '' level1 @
      [''else'',
       ''  '' @ nbackupCommand conn serverDBPath 0 level0 level0Extra]
      @ writeGzip i ''  '' level0 @
      [''fi''])\<close>

definition incrementalBackupScript :: "Instance \<Rightarrow> string \<Rightarrow> retentionDuration \<Rightarrow> string list" where
  \<open>incrementalBackupScript i dir retention =
     (let level0Extra = (if canCleanBackupHistory i then nbackupCleanHistoryArgs else []) in
      [''POOL_CUTOFF=$(date -u -d '' @ quote (dateAgo retention) @ '' '' @ scheduledBackupTimestampDate @ '')'',
       ''POOL='',
       ''POOL_TS='',
       ''for p in '' @ quote dir @ ''/'' @ scheduledBackupPoolPrefix @ ''*; do'']
      @ poolTimestampLines @
      [''  POOL=$p'',
       ''  POOL_TS=$PTS'',
       ''done'',
       ''NEW='',
       ''if [ -z "$POOL" ] || expr "$POOL_TS" '' @ bsS @ ''< "$POOL_CUTOFF" >/dev/null; then'',
       ''  NEW=1'',
       ''fi'']
      @ concat (map (poolCheckLines i) (status_databases i)) @
      [''if [ -n "$NEW" ]; then'',
       ''  POOL='' @ quote dir @ ''/'' @ scheduledBackupPoolPrefix @ ''"$TS"'',
       ''  mkdir "$POOL"'',
       ''  echo "Started backup pool $POOL"'',
       ''fi'']
      @ concat (map (poolBackupLines i level0Extra) (status_databases i)) @
      [''for p in '' @ quote dir @ ''/'' @ scheduledBackupPoolPrefix @ ''*; do'',
       ''  [ -d "$p" ] && [ "$p" != "$POOL" ] || continue'',
       ''  rm -rf "$p"'',
       ''  echo "Deleted backup pool $p"'',
       ''done''])\<close>

definition isPhysical :: "BackupModeSpec \<Rightarrow> bool" where
  "isPhysical mode = (mo_type mode = BackupModePhysical)"

text \<open>The lines that back up one database, logically or physically, outside incremental mode.\<close>

definition databaseBackupLines :: "Instance \<Rightarrow> string \<Rightarrow> string \<Rightarrow> string list" where
  \<open>databaseBackupLines i dir name =
     (let conn = backupServiceConnection i; serverDBPath = pathJoin [primaryDataMountPath, name] in
      if isPhysical (bk_mode (sp_backup (in_spec i)))
      then let dst = quote (dir @ ''/'' @ baseName name @ ''-$TS.nbk'') in
        [nbackupCommand conn serverDBPath 0 dst []] @ writeGzip i [] dst
      else let dst = quote (dir @ ''/'' @ baseName name @ ''-$TS.fbk'') in
        [fbsvcmgrLogin conn @ '' -action_backup -dbname '' @ quote serverDBPath @ '' -bkp_file '' @ dst]
        @ writeGzip i [] dst)\<close>

definition scheduledBackupLines :: "Instance \<Rightarrow> backupFrequency \<Rightarrow> string list" where
  "scheduledBackupLines i freq =
     (let dir = scheduledBackupDir (bf_name freq);
          retention = frequencyRetention i freq;
          mode = bk_mode (sp_backup (in_spec i)) in
      [''set -e'']
      @ (if isPhysical mode then [''exec 9>'' @ quote scheduledBackupLockPath, ''flock 9''] else [])
      @ scheduledBackupUniqueTimestampScript dir
      @ (if isPhysical mode \<and> mo_incremental mode
         then incrementalBackupScript i dir retention @ pruneScheduledBackupsScript dir retention
         else concat (map (databaseBackupLines i dir) (status_databases i))
              @ pruneScheduledBackupsScript dir retention
              @ pruneExpiredPoolsScript dir))"

definition scheduledBackupScript :: "Instance \<Rightarrow> backupFrequency \<Rightarrow> string" where
  "scheduledBackupScript i freq = unlines (scheduledBackupLines i freq)"

section \<open>The CronJobs\<close>

definition backupJobPodSpec :: "Instance \<Rightarrow> backupFrequency \<Rightarrow> PodSpec" where
  "backupJobPodSpec i freq =
     \<lparr>psp_restartPolicy = ''Never'',
      psp_affinity = [(firebirdPodSelector (in_name i), firebirdNodeTopologyKey)],
      psp_initContainers = [],
      psp_containers = [\<lparr>ct_name = containerName, ct_image = backupImage i, ct_security = hardened,
        ct_ports = [], ct_command = [''sh'', ''-c'', scheduledBackupScript i freq],
        ct_env = [EnvSecret ''SYSDBA_PASSWORD'' (sysdbaSecretRefName i) sysdbaSecretPasswordKey],
        ct_mounts = [plainMount backupVolumeName backupDataMountPath]\<rparr>],
      psp_volumes = [pvcVolume backupVolumeName (backupPVCName i)]\<rparr>"

definition desiredCronJob :: "Instance \<Rightarrow> backupFrequency \<Rightarrow> CronJob \<Rightarrow> CronJob" where
  "desiredCronJob i freq cj =
     (let labels = withFirebirdVersionLabel i (labelsForInstance (in_name i)) in
      cj\<lparr>cj_meta := relabel labels (cj_meta cj),
         cj_spec := \<lparr>cj_schedule = bf_schedule freq, cj_concurrencyPolicy = ''Forbid'',
           cj_successfulJobsHistoryLimit = Some 1, cj_failedJobsHistoryLimit = Some 3,
           cj_jobLabels = labels, cj_backoffLimit = Some 0,
           cj_activeDeadlineSeconds = Some scheduledBackupActiveDeadline,
           cj_template = \<lparr>pt_labels = labels, pt_annotations = Map.empty,
                          pt_spec = backupJobPodSpec i freq\<rparr>\<rparr>\<rparr>)"

definition mutateScheduledBackupCronJob :: "lib \<Rightarrow> Instance \<Rightarrow> backupFrequency \<Rightarrow> CronJob \<Rightarrow> error + CronJob" where
  "mutateScheduledBackupCronJob L i freq cj =
     setOwner L i cj_meta (\<lambda>m o'. o'\<lparr>cj_meta := m\<rparr>) (desiredCronJob i freq cj)"

definition reconcileScheduledBackupCronJob :: "lib \<Rightarrow> backupFrequency \<Rightarrow> unit act" where
  "reconcileScheduledBackupCronJob L freq = withI (\<lambda>i.
     let name = scheduledBackupCronJobName i (bf_name freq); key = (in_namespace i, name);
         dir = scheduledBackupDir (bf_name freq) in
     bindA (tryA (callA (QGetCronJob key) asCronJob) (\<lambda>r. case r of
              Inr _ \<Rightarrow> ok True
            | Inl e \<Rightarrow> if \<not> isNotFound e
                      then failA (Wrapf (''failed to get backup CronJob '' @ quote name @ '': '') e [])
                      else ok False)) (\<lambda>exists.
     thenA (whenA (\<not> exists)
              (wrapA (''failed to create backup directory '' @ quote dir @ '': '')
                (execInPod (in_namespace i) (firebirdPodName i) [''mkdir'', ''-p'', dir] [])))
       (wrapA (''failed to reconcile backup CronJob '' @ quote name @ '': '')
          (bindA (createOrUpdate (QFetchCronJob key) asCronJob QStoreCronJob
                    (\<lambda>cj. withI (\<lambda>j. liftA (mutateScheduledBackupCronJob L j freq cj))))
                 (\<lambda>_. ok ())))))"

definition deleteCronJob :: "string \<Rightarrow> unit act" where
  "deleteCronJob name = withI (\<lambda>i.
     tryA (callA (QDeleteCronJob (in_namespace i, name)) asUnit) (\<lambda>r. case r of
       Inr _ \<Rightarrow> ok ()
     | Inl e \<Rightarrow> if isNotFound e then ok ()
               else failA (Wrapf (''failed to delete backup CronJob '' @ quote name @ '': '') e [])))"

definition frequencyWanted :: "Instance \<Rightarrow> backupFrequency \<Rightarrow> bool" where
  "frequencyWanted i freq = (backupVolumeSpec i \<noteq> None \<and> retentionEnabled (frequencyRetention i freq))"

definition reconcileFrequency :: "lib \<Rightarrow> backupFrequency \<Rightarrow> unit act" where
  "reconcileFrequency L freq = withI (\<lambda>i.
     if \<not> frequencyWanted i freq then deleteCronJob (scheduledBackupCronJobName i (bf_name freq))
     else wrapA (''failed to reconcile '' @ bf_name freq @ '' backup CronJob: '')
            (reconcileScheduledBackupCronJob L freq))"

definition reconcileScheduledBackups :: "lib \<Rightarrow> unit act" where
  "reconcileScheduledBackups L = forA backupFrequencies (reconcileFrequency L)"

lemma emits_deleteCronJob [emit]: "(\<And>k. R (QDeleteCronJob k)) \<Longrightarrow> emits R (deleteCronJob name)"
  unfolding deleteCronJob_def by (intro emit)

lemma emits_reconcileScheduledBackups [emit]:
  assumes "\<And>k. R (QDeleteCronJob k)" "\<And>k. R (QGetCronJob k)" "\<And>k. R (QFetchCronJob k)"
    "\<And>c. R (QStoreCronJob c)" "\<And>n p c s. R (QExec n p c s)"
  shows "emits R (reconcileScheduledBackups L)"
  unfolding reconcileScheduledBackups_def reconcileFrequency_def reconcileScheduledBackupCronJob_def Let_def
  by (intro emit assms)

lemma steady_reconcileScheduledBackups [keep]: "steady f (reconcileScheduledBackups L)"
  unfolding reconcileScheduledBackups_def reconcileFrequency_def reconcileScheduledBackupCronJob_def
    deleteCronJob_def Let_def
  by (intro keep) auto

end
