(* ===== verification/Controller.thy ===== *)
theory Controller
  imports Databases Upgrade Schedule
begin

text \<open>
  The reconciler itself (\<open>instance_controller.go\<close>): \<open>Reconcile\<close> with its three ways out, the path of a
  live instance and the path of one being deleted, and the mapping from a Secret to the instances
  that read it.
\<close>

definition secretRefIndexField :: string where
  "secretRefIndexField = ''.spec.authentication.sysdba.secretRef''"

definition finalizerName :: string where "finalizerName = ''kubebird.github.io/finalizer''"

text \<open>In seconds.\<close>

definition waitRequeueInterval :: int where "waitRequeueInterval = 5"

section \<open>A live instance\<close>

definition stsReady :: "StatefulSet \<Rightarrow> bool" where
  "stsReady sts = (0 < sint (sts_readyReplicas sts))"

text \<open>Everything up to and including the StatefulSet, in the order of the code.\<close>

definition reconcileOwned :: "lib \<Rightarrow> StatefulSet act" where
  "reconcileOwned L = withI (\<lambda>i.
     bindA (wrapA ''failed to reconcile aliases ConfigMap: ''
       (createOrUpdate (QFetchConfigMap (in_namespace i, aliasesConfigMapName i)) asConfigMap QStoreConfigMap
          (\<lambda>cm. liftA (mutateAliasesConfigMap L i cm)))) (\<lambda>_.
     bindA (wrapA ''failed to reconcile Service: ''
       (createOrUpdate (QFetchService (in_key i)) asService QStoreService
          (\<lambda>svc. liftA (mutateService L i svc)))) (\<lambda>_.
     thenA reconcilePVCs
       (wrapA ''failed to reconcile StatefulSet: ''
          (createOrUpdate (QFetchSts (in_key i)) asSts QStoreSts (mutateStatefulSet L))))))"

definition reportReady :: "lib \<Rightarrow> unit act" where
  "reportReady L =
     thenA finishMajorUpgrade
    (thenA (setPhase phaseReady)
           (setAvailable L ''True'' ''StatefulSetReady'' ''Firebird instance is ready''))"

definition reportNotReady :: "lib \<Rightarrow> unit act" where
  "reportNotReady L = withI (\<lambda>i.
     thenA (setPhase (if upgrade_of i \<noteq> None then phaseUpgrading else phaseProvisioning))
           (setAvailable L ''False'' ''StatefulSetNotReady''
              ''Waiting for the Firebird StatefulSet to become ready''))"

definition reconcileServer :: "lib \<Rightarrow> StatefulSet \<Rightarrow> unit act" where
  "reconcileServer L sts =
     thenA (reconcileDatabases (sts_readyReplicas sts))
    (thenA (whenA (stsReady sts) (thenA (reconcileScheduledBackups L) reconcileFirebirdVersion))
    (withI (\<lambda>i.
       if stsReady sts \<and> length (spec_databases i) \<le> length (status_databases i)
       then reportReady L else reportNotReady L)))"

definition reconcileInstance :: "lib \<Rightarrow> nat \<Rightarrow> unit act" where
  "reconcileInstance L fuel =
     thenA (reconcileSysdbaSecret fuel)
    (bindA (reconcileMajorUpgrade L) (\<lambda>handled.
       if handled then ok () else bindA (reconcileOwned L) (reconcileServer L)))"

section \<open>An instance being deleted\<close>

definition backedUpAlready :: "Instance \<Rightarrow> bool" where
  "backedUpAlready i =
     (case upgrade_of i of None \<Rightarrow> False | Some u \<Rightarrow> up_stage u \<noteq> BackingUp)"

definition finalBackupWanted :: "Instance \<Rightarrow> bool" where
  "finalBackupWanted i = (backupVolumeSpec i \<noteq> None \<and> backupOnDelete i \<and> \<not> backedUpAlready i)"

definition finalBackupVersion :: "Instance \<Rightarrow> string" where
  "finalBackupVersion i =
     (case upgrade_of i of None \<Rightarrow> version_of i | Some u \<Rightarrow> up_fromVersion u)"

definition dropFinalizer :: "lib \<Rightarrow> Instance \<Rightarrow> Instance" where
  "dropFinalizer L i = i\<lparr>in_finalizers := lib_removeFinalizer L (in_finalizers i) finalizerName\<rparr>"

definition finalBackup :: "lib \<Rightarrow> unit act" where
  "finalBackup L = withI (\<lambda>i. whenA (finalBackupWanted i) (backupDatabases L (finalBackupVersion i)))"

definition removeFinalizer :: "lib \<Rightarrow> unit act" where
  "removeFinalizer L =
     thenA (setDeletionMessage ''Removing finalizer'')
    (thenA (modifyI (dropFinalizer L))
           (wrapA ''failed to remove finalizer: '' updateInstance))"

definition deletionSteps :: "lib \<Rightarrow> unit act" where
  "deletionSteps L =
     thenA (finalBackup L) (thenA releasePrimaryAndShadowStorage (removeFinalizer L))"

definition reconcileDeletion :: "lib \<Rightarrow> unit act" where
  "reconcileDeletion L = withI (\<lambda>i.
     if \<not> lib_containsFinalizer L (in_finalizers i) finalizerName then ok ()
     else thenA (wrapA ''failed to report Deleting phase: '' (setPhase phaseDeleting))
         (thenA (setDeletionMessage ''Deleting Instance'')
                (deletionSteps L)))"

section \<open>Reconcile\<close>

text \<open>The result of \<open>Reconcile\<close>: after how many seconds to run again, if asked to, and the error.\<close>

type_synonym reconcileResult = "int option \<times> error option"

definition reconciled :: reconcileResult where "reconciled = (None, None)"

definition failed :: "error \<Rightarrow> reconcileResult" where "failed e = (None, Some e)"

definition errorOf :: "error + 'a \<Rightarrow> error option" where
  "errorOf r = (case r of Inl e \<Rightarrow> Some e | Inr _ \<Rightarrow> None)"

definition ensureFinalizer :: "lib \<Rightarrow> unit act" where
  "ensureFinalizer L = withI (\<lambda>i.
     whenA (\<not> lib_containsFinalizer L (in_finalizers i) finalizerName)
       (thenA (modifyI (\<lambda>i. i\<lparr>in_finalizers := lib_addFinalizer L (in_finalizers i) finalizerName\<rparr>))
              (wrapA ''failed to add finalizer: '' updateInstance)))"

text \<open>What \<open>Reconcile\<close> makes of the outcome of \<open>reconcileInstance\<close>. A panic does not get here.\<close>

definition conclude :: "lib \<Rightarrow> error + unit \<Rightarrow> reconcileResult act" where
  "conclude L r =
     (case errorOf r of
        None \<Rightarrow> thenA (setError L None) (ok reconciled)
      | Some e \<Rightarrow>
          if isPanic e then ok (failed e)
          else (case asWaiting e of
             Some message \<Rightarrow> thenA (setProgress message) (ok (Some waitRequeueInterval, None))
           | None \<Rightarrow> thenA (setError L (Some e)) (ok (failed e))))"

definition reconcileFound :: "lib \<Rightarrow> nat \<Rightarrow> reconcileResult act" where
  "reconcileFound L fuel = withI (\<lambda>i.
     if in_deleting i then tryA (reconcileDeletion L) (\<lambda>r. ok (None, errorOf r))
     else thenA (ensureFinalizer L) (tryA (reconcileInstance L fuel) (conclude L)))"

text \<open>A failure on the way is the error \<open>Reconcile\<close> returns.\<close>

definition resultOf :: "error + reconcileResult \<Rightarrow> reconcileResult" where
  "resultOf r = (case r of Inl e \<Rightarrow> failed e | Inr x \<Rightarrow> x)"

definition Reconcile :: "lib \<Rightarrow> nat \<Rightarrow> nsname \<Rightarrow> reconcileResult io" where
  "Reconcile L fuel req =
     Call (QGetInstance req) (\<lambda>r. case asInstance r of
       Inl e \<Rightarrow> Ret (if isNotFound e then reconciled else failed (Wrapf ''failed to get Instance: '' e []))
     | Inr i \<Rightarrow> bindIO (reconcileFound L fuel i) (\<lambda>(res, j). Ret (resultOf res)))"

section \<open>From a Secret to its instances\<close>

definition secretRefIndex :: "Instance \<Rightarrow> string list" where
  "secretRefIndex i = [sysdbaSecretRefName i]"

definition findInstancesForSecret :: "string \<Rightarrow> string \<Rightarrow> nsname list io" where
  "findInstancesForSecret ns name =
     Call (QListInstances ns secretRefIndexField name) (\<lambda>r. case asInstances r of
       Inl e \<Rightarrow> Ret [] | Inr items \<Rightarrow> Ret (map in_key items))"

section \<open>Runs of Reconcile\<close>

text \<open>A run of \<open>Reconcile\<close> on an instance it found.\<close>

lemma Reconcile_guard:
  assumes "steps (Reconcile L fuel req) ((QGetInstance req, RInstance i) # pre @ (q, a) # post) p"
    and "wpa A G (\<lambda>_ _ _. True) (reconcileFound L fuel) i []"
    and "answered A [] (pre @ (q, a) # post)"
  shows "G (rev pre) q"
proof -
  let ?rest = "bindIO (reconcileFound L fuel i) (\<lambda>(res, j). Ret (resultOf res))"
  have run: "steps ?rest (pre @ (q, a) # post) p"
    using assms(1) unfolding Reconcile_def by (auto elim!: steps_CallE)
  have "wp A G (\<lambda>_ _. True) ?rest []"
    using assms(2) unfolding wpa_def wp_bindIO by (rule wp_mono) auto
  from wp_guard [OF run this assms(3) refl] show ?thesis by simp
qed

lemma Reconcile_result:
  assumes "steps (Reconcile L fuel req) ((QGetInstance req, RInstance i) # tr) (Ret res)"
    and "wpa A (\<lambda>_ _. True) (\<lambda>r j h. Q (resultOf r) h) (reconcileFound L fuel) i []"
    and "answered A [] tr"
  shows "Q res (rev tr)"
proof -
  let ?rest = "bindIO (reconcileFound L fuel i) (\<lambda>(res, j). Ret (resultOf res))"
  have run: "steps ?rest tr (Ret res)"
    using assms(1) unfolding Reconcile_def by (auto elim!: steps_CallE)
  have "wp A (\<lambda>_ _. True) Q ?rest []"
    using assms(2) unfolding wpa_def wp_bindIO by (rule wp_mono) auto
  from wp_result [OF run this assms(3) refl] show ?thesis by simp
qed

end
