(* ===== verification/Samples.thy ===== *)
theory Samples
  imports Controller
begin

text \<open>
  Concrete values for the witnesses of the properties: library helpers as the documentation
  describes them, an instance with a local backup volume, and clusters that answer from a script.
\<close>

section \<open>Library helpers\<close>

fun putCondition :: "Condition list \<Rightarrow> Condition \<Rightarrow> Condition list \<times> bool" where
  "putCondition [] c = ([c], True)"
| "putCondition (d # ds) c =
     (if cond_type d = cond_type c then (c # ds, d \<noteq> c)
      else let (es, changed) = putCondition ds c in (d # es, changed))"

definition sampleLib :: lib where
  "sampleLib =
     \<lparr>lib_setControllerReference = (\<lambda>i m. Inr (m\<lparr>om_owners := [in_name i]\<rparr>)),
      lib_setStatusCondition = putCondition,
      lib_findStatusCondition = (\<lambda>cs t. find (\<lambda>c. cond_type c = t) cs),
      lib_containsFinalizer = (\<lambda>fs f. f \<in> set fs),
      lib_addFinalizer = (\<lambda>fs f. if f \<in> set fs then fs else fs @ [f]),
      lib_removeFinalizer = (\<lambda>fs f. filter (\<lambda>g. g \<noteq> f) fs)\<rparr>"

section \<open>An instance\<close>

definition sampleVolume :: StorageVolumeSpec where
  "sampleVolume = \<lparr>vol_class = [], vol_size = ''1Gi''\<rparr>"

definition sampleDatabase :: "string \<Rightarrow> DatabaseSpec" where
  "sampleDatabase name = \<lparr>db_name = name, db_alias = None, db_shadow = False, db_pageSize = 8192,
     db_charset = ''UTF8'', db_collation = ''UTF8''\<rparr>"

definition noRetentionSpec :: RetentionSpec where
  "noRetentionSpec = \<lparr>rt_hour = [], rt_day = [], rt_week = [], rt_month = [], rt_year = []\<rparr>"

definition sampleBackup :: BackupSpec where
  "sampleBackup = \<lparr>bk_enabled = True,
     bk_destinations = [\<lparr>bd_local = Some \<lparr>lb_storage = sampleVolume\<rparr>\<rparr>], bk_image = [],
     bk_backupOnDelete = None, bk_compress = False,
     bk_mode = \<lparr>mo_type = BackupModeLogical, mo_incremental = False\<rparr>, bk_retention = noRetentionSpec\<rparr>"

definition sampleSpec :: "string \<Rightarrow> InstanceSpec" where
  "sampleSpec version = \<lparr>sp_image = ''firebird'', sp_version = version,
     sp_databases = [sampleDatabase ''a.fdb''], sp_service = \<lparr>ss_type = ''ClusterIP'', ss_port = 3050\<rparr>,
     sp_storage = \<lparr>sg_primary = sampleVolume, sg_shadow = Some sampleVolume\<rparr>,
     sp_authentication = \<lparr>au_sysdba = \<lparr>sy_secretRef = []\<rparr>\<rparr>, sp_backup = sampleBackup\<rparr>"

definition sampleStatus :: InstanceStatus where
  "sampleStatus = \<lparr>st_conditions = [], st_databases = [''a.fdb''], st_databaseCount = 1,
     st_phase = phaseReady, st_error = [], st_message = [], st_warning = [],
     st_firebirdVersion = [], st_upgrade = None\<rparr>"

definition sampleInstance :: "string \<Rightarrow> Instance" where
  "sampleInstance version = \<lparr>in_name = ''db'', in_namespace = ''ns'', in_generation = 1,
     in_deleting = False, in_finalizers = [finalizerName], in_spec = sampleSpec version,
     in_status = sampleStatus\<rparr>"

lemmas sample_defs =
  sampleLib_def sampleVolume_def sampleDatabase_def noRetentionSpec_def sampleBackup_def
  sampleSpec_def sampleStatus_def sampleInstance_def

section \<open>Objects a cluster may answer with\<close>

definition noMeta :: ObjectMeta where
  "noMeta = \<lparr>om_name = [], om_namespace = [], om_labels = Map.empty, om_created = True, om_owners = []\<rparr>"

definition sampleServer :: "string \<Rightarrow> Container" where
  "sampleServer img = \<lparr>ct_name = containerName, ct_image = img, ct_security = hardened, ct_ports = [],
     ct_command = [], ct_env = [], ct_mounts = []\<rparr>"

definition sampleSts :: "string \<Rightarrow> int32 \<Rightarrow> StatefulSet" where
  "sampleSts img replicas = \<lparr>sts_meta = noMeta, sts_replicas = Some replicas, sts_selector = None,
     sts_serviceName = [],
     sts_template = \<lparr>pt_labels = Map.empty, pt_annotations = Map.empty,
       pt_spec = emptyPodSpec\<lparr>psp_containers := [sampleServer img]\<rparr>\<rparr>,
     sts_statusReplicas = replicas, sts_readyReplicas = replicas\<rparr>"

definition finishedPod :: "string \<Rightarrow> Pod" where
  "finishedPod phase = \<lparr>pod_meta = noMeta, pod_spec = emptyPodSpec,
     pod_status = emptyPodStatus\<lparr>pst_phase := phase\<rparr>\<rparr>"

lemma sampleSts_simps [simp]:
  "sts_replicas (sampleSts img n) = Some n" "sts_statusReplicas (sampleSts img n) = n"
  "sts_readyReplicas (sampleSts img n) = n" "sts_meta (sampleSts img n) = noMeta"
  by (simp_all add: sampleSts_def)

lemma finishedPod_simps [simp]: "pst_phase (pod_status (finishedPod phase)) = phase"
  by (simp add: finishedPod_def)

section \<open>A cluster\<close>

text \<open>It holds one instance as last written, a StatefulSet and perhaps a pod, and accepts every write.\<close>

fun cluster :: "Instance \<Rightarrow> StatefulSet option \<Rightarrow> Pod option \<Rightarrow> event list \<Rightarrow> request \<Rightarrow> answer" where
  "cluster i sts pod h (QGetInstance k) = RInstance i"
| "cluster i sts pod h (QUpdateInstance j) = RInstance j"
| "cluster i sts pod h (QUpdateStatus j) = RInstance j"
| "cluster i sts pod h (QGetSts k) =
     (case sts of None \<Rightarrow> RErr (ApiNotFound ''not found'') | Some s \<Rightarrow> RSts s)"
| "cluster i sts pod h (QGetPod k) =
     (case pod of None \<Rightarrow> RErr (ApiNotFound ''not found'') | Some p \<Rightarrow> RPod p)"
| "cluster i sts pod h (QGetPvc k) = RErr (ApiNotFound ''not found'')"
| "cluster i sts pod h (QGetSecret k) =
     RSecret \<lparr>sec_meta = noMeta, sec_data = [sysdbaSecretPasswordKey \<mapsto> ''masterkey''],
              sec_stringData = Map.empty\<rparr>"
| "cluster i sts pod h (QGetCronJob k) = RErr (ApiNotFound ''not found'')"
| "cluster i sts pod h (QFetchConfigMap k) = RConfigMap \<lparr>cm_meta = noMeta, cm_data = Map.empty\<rparr>"
| "cluster i sts pod h (QStoreConfigMap cm) = RConfigMap cm"
| "cluster i sts pod h (QFetchService k) = RService \<lparr>svc_meta = noMeta, svc_type = [],
     svc_selector = Map.empty, svc_ports = [], svc_clusterIP = ''10.0.0.1''\<rparr>"
| "cluster i sts pod h (QStoreService svc) = RService svc"
| "cluster i sts pod h (QFetchSts k) = RSts (case sts of None \<Rightarrow> sampleSts [] 0 | Some s \<Rightarrow> s)"
| "cluster i sts pod h (QStoreSts s) = RSts s"
| "cluster i sts pod h (QUpdateSts s) = RSts s"
| "cluster i sts pod h (QExec ns p c s) = RExec [] [] None"
| "cluster i sts pod h q = RUnit"

lemma run_steps: "fst (runWith env p []) = a \<Longrightarrow> steps p (rev (snd (runWith env p []))) (Ret a)"
  using runWith_steps [of env p "[]" a "snd (runWith env p [])"] by (auto simp: prod_eq_iff)

definition runOf :: "(event list \<Rightarrow> request \<Rightarrow> answer) \<Rightarrow> 'a io \<Rightarrow> event list" where
  "runOf env p = tl (rev (snd (runWith env p [])))"

abbreviation sampleReconcile :: "reconcileResult io" where
  "sampleReconcile \<equiv> Reconcile sampleLib 1 (''ns'', ''db'')"

lemma runWith_suffix: "\<exists>xs. snd (runWith env p h) = xs @ h"
  by (induction p arbitrary: h) (auto, metis append_Cons append_Nil append_assoc rangeI)

text \<open>A run of \<open>Reconcile\<close> against a script that has the instance: what follows the first request.\<close>

lemma runOf_steps:
  assumes "env [] (QGetInstance req) = RInstance i" and "fst (runWith env (Reconcile L fuel req) []) = a"
  shows "steps (Reconcile L fuel req) ((QGetInstance req, RInstance i) # runOf env (Reconcile L fuel req)) (Ret a)"
proof -
  let ?p = "Reconcile L fuel req"
  obtain k where k: "?p = Call (QGetInstance req) k" by (simp add: Reconcile_def)
  obtain xs where "snd (runWith env (k (RInstance i)) [(QGetInstance req, RInstance i)])
      = xs @ [(QGetInstance req, RInstance i)]"
    using runWith_suffix by blast
  then have "snd (runWith env ?p []) = xs @ [(QGetInstance req, RInstance i)]"
    using assms(1) by (simp add: k)
  then have "rev (snd (runWith env ?p [])) = (QGetInstance req, RInstance i) # runOf env ?p"
    by (simp add: runOf_def)
  then show ?thesis using run_steps [OF assms(2)] by simp
qed

lemma cluster_echo: "echo q (cluster i sts pod h q)"
  by (cases q) (auto simp: echo_def split: option.splits)

text \<open>What holds of every answer of a script holds along its runs.\<close>

lemma runWith_all:
  "(\<And>h q. P q (env h q)) \<Longrightarrow> list_all (\<lambda>(q, r). P q r) h
   \<Longrightarrow> list_all (\<lambda>(q, r). P q r) (snd (runWith env m h))"
  by (induction m arbitrary: h) auto

lemma runOf_all:
  assumes "\<And>h q. P q (env h q)"
  shows "list_all (\<lambda>(q, r). P q r) (runOf env m)"
proof -
  have "list_all (\<lambda>(q, r). P q r) (rev (snd (runWith env m [])))"
    using runWith_all [of P env "[]" m] assms by simp
  then show ?thesis
    unfolding runOf_def by (cases "rev (snd (runWith env m []))") auto
qed

lemma runOf_honest: "honest (runOf (cluster i sts pod) m)"
  unfolding honest_def by (rule runOf_all) (rule cluster_echo)

text \<open>The request of a run at a position, and the run around it.\<close>

lemma run_at:
  "n < length tr \<Longrightarrow> P (fst (tr ! n)) \<Longrightarrow> \<exists>pre q a post. tr = pre @ (q, a) # post \<and> P q \<and> length pre = n"
  by (rule exI [of _ "take n tr"], rule exI [of _ "fst (tr ! n)"], rule exI [of _ "snd (tr ! n)"],
      rule exI [of _ "drop (Suc n) tr"]) (simp add: id_take_nth_drop [symmetric])

fun isDeletePvc :: "nsname \<Rightarrow> request \<Rightarrow> bool" where
  "isDeletePvc k (QDeletePvc k') = (k' = k)" | "isDeletePvc k q = False"

fun isUpdateInstance :: "request \<Rightarrow> bool" where
  "isUpdateInstance (QUpdateInstance j) = True" | "isUpdateInstance q = False"

fun isCreatePod :: "request \<Rightarrow> bool" where
  "isCreatePod (QCreatePod pod) = True" | "isCreatePod q = False"

fun isStoreSts :: "request \<Rightarrow> bool" where
  "isStoreSts (QStoreSts sts) = True" | "isStoreSts q = False"

lemma isDeletePvcD: "isDeletePvc k q \<Longrightarrow> q = QDeletePvc k"
  by (cases q) auto

lemma isUpdateInstanceD: "isUpdateInstance q \<Longrightarrow> \<exists>j. q = QUpdateInstance j"
  by (cases q) auto

lemma isCreatePodD: "isCreatePod q \<Longrightarrow> \<exists>pod. q = QCreatePod pod"
  by (cases q) auto

fun isUpdateStatus :: "request \<Rightarrow> bool" where
  "isUpdateStatus (QUpdateStatus j) = True" | "isUpdateStatus q = False"

lemma isUpdateStatusD: "isUpdateStatus q \<Longrightarrow> \<exists>j. q = QUpdateStatus j"
  by (cases q) auto

lemma isStoreStsD: "isStoreSts q \<Longrightarrow> \<exists>sts. q = QStoreSts sts"
  by (cases q) auto

section \<open>Running the code on a script\<close>

text \<open>The definitions to unfold, for runs that the simplifier is to carry out without evaluating
  what the requests carry.\<close>

lemmas code_defs =
  Reconcile_def reconcileFound_def ensureFinalizer_def reconcileInstance_def conclude_def
  reconcileSysdbaSecret_def syncFirebirdVersionLabel_def sysdbaSecretRefName_def
  reconcileMajorUpgrade_def startMajorUpgrade_def beginUpgrade_def continueUpgrade_def
  upgradeBackup_def upgradeRelease_def withUpgrade_def setUpgradeStage_def clearDatabases_def
  releaseStorageForUpgrade_def releasePrimaryAndShadowStorage_def deletePVC_def
  backupDatabases_def backupDatabasesOffline_def deletePod_def setDeletionMessage_def
  reconcileOwned_def createOrUpdate_def liftA_def setOwner_def mutateAliasesConfigMap_def
  mutateService_def mutateStatefulSet_def sysdbaPassword_def reconcilePVCs_def reconcilePVC_def
  reconcileServer_def reportNotReady_def reportReady_def finishMajorUpgrade_def setPhase_def setAvailable_def stsReady_def
  setError_def setProgress_def errorSummary_def errorText_def errorOf_def malformed_def
  reconciled_def failed_def resultOf_def runOf_def Let_def
  backupVolumeSpec_def desiredStatefulSet_def reconcileDatabases_def availableCondition_def

end
