(* ===== verification/Deletion.thy ===== *)
theory Deletion
  imports Samples
begin

text \<open>
  What a deletion does, in which order: first the backup of every recorded database, when one is
  wanted, then the release of the primary and shadow volumes, then the finalizer. The order is a
  guard on every request of \<open>reconcileDeletion\<close>, proved once by the rules of theory Effects and read
  off the runs of \<open>Reconcile\<close>, cut off anywhere and under any answers.
\<close>

section \<open>The order of the requests\<close>

lemma core_final: "core j = core i \<Longrightarrow>
   finalBackupWanted j = finalBackupWanted i \<and> finalBackupVersion j = finalBackupVersion i"
  by (auto simp: core_def finalBackupWanted_def finalBackupVersion_def backupVolumeSpec_def
      backupOnDelete_def backedUpAlready_def split: option.splits)

text \<open>The order of a deletion, as a guard on every request it makes.\<close>

fun deletionOrder :: "Instance \<Rightarrow> event list \<Rightarrow> request \<Rightarrow> bool" where
  "deletionOrder i h (QCreatePod pod) =
     (finalBackupWanted i \<and> ownBackupPod i (finalBackupVersion i) (QCreatePod pod))"
| "deletionOrder i h (QDeletePvc k) =
     (ownStorage i k \<and> (finalBackupWanted i \<longrightarrow> backupDone i (set h)))"
| "deletionOrder i h (QUpdateInstance j) =
     (storageReleased i (set h) \<and> (finalBackupWanted i \<longrightarrow> backupDone i (set h)))"
| "deletionOrder i h q = True"

lemma steady_core_backup: "steady core (backupDatabases L v)"
  by (intro keep) simp

lemma finalBackup_step:
  assumes "core j = core i"
  shows "wpa echoes (deletionOrder i)
     (\<lambda>r j' h'. core j' = core i \<and> (r = Inr () \<longrightarrow> finalBackupWanted i \<longrightarrow> backupDone i (set h')))
     (finalBackup L) j h"
proof (cases "finalBackupWanted i")
  case True
  let ?v = "finalBackupVersion i"
  have fp: "wpa echoes (\<lambda>_ q. (\<forall>k. q \<noteq> QDeletePvc k) \<and> (\<forall>k. q \<noteq> QUpdateInstance k))
     (\<lambda>_ _ _. True) (backupDatabases L ?v) j h"
    by (rule emits_wpa) (intro emit; simp)
  have st: "wpa echoes (\<lambda>_ _. True) (\<lambda>r j' h'. core j' = core j) (backupDatabases L ?v) j h"
    by (rule steady_wpa [OF steady_core_backup])
  show ?thesis
    unfolding finalBackup_def
  proof (simp add: wprule core_final [OF assms] True,
      rule wpa_mono [OF wpa_conj [OF backupDatabases_evidence wpa_conj [OF fp st]]])
    fix h' q
    assume "ownBackupPod j ?v q \<and> ((\<forall>k. q \<noteq> QDeletePvc k) \<and> (\<forall>k. q \<noteq> QUpdateInstance k)) \<and> True"
    then show "deletionOrder i h' q" by (cases q) (auto simp: True core_ownBackupPod [OF assms])
  qed (use assms core_backupDone [OF assms] in auto)
next
  case False
  then show ?thesis by (simp add: finalBackup_def wprule core_final [OF assms] assms)
qed

lemma release_step:
  assumes "core j = core i" and "finalBackupWanted i \<longrightarrow> backupDone i (set h)"
  shows "wpa echoes (deletionOrder i)
     (\<lambda>r j' h'. core j' = core i \<and> (r = Inr () \<longrightarrow> storageReleased i (set h')
        \<and> (finalBackupWanted i \<longrightarrow> backupDone i (set h'))))
     releasePrimaryAndShadowStorage j h"
proof -
  have fp: "wpa echoes (\<lambda>_ q. (\<forall>k. q \<noteq> QCreatePod k) \<and> (\<forall>k. q \<noteq> QUpdateInstance k))
     (\<lambda>_ _ _. True) releasePrimaryAndShadowStorage j h"
    by (rule emits_wpa) (intro emit; simp)
  have st: "wpa echoes (\<lambda>_ _. True) (\<lambda>r j' h'. core j' = core j) releasePrimaryAndShadowStorage j h"
    by (rule steady_wpa) (intro keep, simp)
  have "wpa echoes (\<lambda>_ q. releasesOwn i q \<and> (\<forall>k. q \<noteq> QCreatePod k) \<and> (\<forall>k. q \<noteq> QUpdateInstance k))
     (\<lambda>r j' h'. core j' = core i \<and> (r = Inr () \<longrightarrow> storageReleased i (set h')))
     releasePrimaryAndShadowStorage j h"
    by (rule wpa_mono [OF wpa_conj [OF release_evidence wpa_conj [OF fp st]]])
      (use assms core_release [OF assms(1)] in auto)
  from wpa_extends [OF this] show ?thesis
  proof (rule wpa_mono)
    fix h' q
    assume "(releasesOwn i q \<and> (\<forall>k. q \<noteq> QCreatePod k) \<and> (\<forall>k. q \<noteq> QUpdateInstance k))
      \<and> set h \<subseteq> set h'"
    then show "deletionOrder i h' q" using assms(2) backupDone_mono by (cases q) auto
  qed (use assms(2) backupDone_mono in auto)
qed

lemma removeFinalizer_order:
  "storageReleased i (set h) \<Longrightarrow> finalBackupWanted i \<longrightarrow> backupDone i (set h)
   \<Longrightarrow> wpa echoes (deletionOrder i) (\<lambda>_ _ _. True) (removeFinalizer L) j h"
  unfolding removeFinalizer_def
  by (auto simp: wprule intro!: deletion.writer_echo)
     (auto simp: storageReleased_def pvcReleased_def evidence_defs)

lemma deletionSteps_order:
  assumes "core j = core i"
  shows "wpa echoes (deletionOrder i) (\<lambda>_ _ _. True) (deletionSteps L) j h"
  unfolding deletionSteps_def wpa_thenA
  by (rule wpa_mono [OF finalBackup_step [OF assms]])
    (auto intro!: wpa_mono [OF release_step] removeFinalizer_order)

lemma reconcileDeletion_order:
  "wpa echoes (deletionOrder i) (\<lambda>_ _ _. True) (reconcileDeletion L) i h"
  unfolding reconcileDeletion_def
  by (auto simp: wprule core_def intro!: phase.writer_echo deletion.writer_echo deletionSteps_order)


section \<open>Runs of a deletion\<close>

lemma deleting_found:
  "in_deleting i \<Longrightarrow> wpa A G Q (reconcileFound L fuel) i h =
     wpa A G (\<lambda>r j h'. Q (Inr (None, errorOf r)) j h') (reconcileDeletion L) i h"
  by (simp add: reconcileFound_def wprule)

lemma deletion_run:
  assumes "steps (Reconcile L fuel req) ((QGetInstance req, RInstance i) # pre @ (q, a) # post) p"
    and "in_deleting i" and "honest (pre @ (q, a) # post)"
  shows "deletionOrder i (rev pre) q"
  by (rule Reconcile_guard [OF assms(1), where A = echoes])
    (use assms(2,3) in \<open>auto simp: deleting_found answered_echoes reconcileDeletion_order\<close>)

section \<open>A cluster that goes along\<close>

text \<open>Writes are accepted, what is deleted goes or is gone, the server stands still and the backup pod
  has succeeded.\<close>

fun cooperative :: "request \<Rightarrow> answer \<Rightarrow> bool" where
  "cooperative (QUpdateStatus j) r = (r = RInstance j)"
| "cooperative (QUpdateInstance j) r = (r = RInstance j)"
| "cooperative (QDeletePvc k) r = gone r"
| "cooperative (QDeletePod k) r = gone r"
| "cooperative (QGetSts k) r = (\<exists>sts. r = RSts sts \<and> sts_replicas sts = Some 0 \<and> sts_statusReplicas sts = 0)"
| "cooperative (QGetPod k) r = (\<exists>pod. r = RPod pod \<and> pst_phase (pod_status pod) = PodSucceeded)"
| "cooperative q r = True"

lemma gone_asUnit: "gone r \<Longrightarrow> asUnit r = Inl e \<Longrightarrow> isNotFound e"
  by (simp add: gone_def)

lemma backup_cooperative:
  "wpa (\<lambda>h. cooperative) (\<lambda>_ _. True) (\<lambda>r j h. r = Inr () \<and> in_finalizers j = in_finalizers i) (backupDatabases L v) i h"
  unfolding backupDatabases_def backupDatabasesOffline_def deletePod_def
  by (auto simp: wprule deletion.wpa_writer Let_def asSts_Inr asPod_Inr asInstance_Inr gone_asUnit)

lemma release_cooperative:
  "wpa (\<lambda>h. cooperative) (\<lambda>_ _. True) (\<lambda>r j h. r = Inr () \<and> in_finalizers j = in_finalizers i) releasePrimaryAndShadowStorage i h"
  unfolding releasePrimaryAndShadowStorage_def
  by (auto simp: wprule deletion.wpa_writer asInstance_Inr gone_asUnit)

lemma finalBackup_cooperative:
  "wpa (\<lambda>h. cooperative) (\<lambda>_ _. True) (\<lambda>r j h. r = Inr () \<and> in_finalizers j = in_finalizers i)
     (finalBackup L) i h"
  unfolding finalBackup_def by (simp add: wprule backup_cooperative)

definition endsUnfinalized :: "lib \<Rightarrow> Instance \<Rightarrow> event list \<Rightarrow> bool" where
  "endsUnfinalized L i h =
     (\<exists>j h'. h = (QUpdateInstance j, RInstance j) # h'
        \<and> in_finalizers j = lib_removeFinalizer L (in_finalizers i) finalizerName)"

lemma removeFinalizer_cooperative:
  "in_finalizers j = in_finalizers i
   \<Longrightarrow> wpa (\<lambda>h. cooperative) (\<lambda>_ _. True) (\<lambda>r j' h'. r = Inr () \<and> endsUnfinalized L i h') (removeFinalizer L) j h"
  unfolding removeFinalizer_def
  by (auto simp: wprule deletion.wpa_writer asInstance_Inr endsUnfinalized_def dropFinalizer_def)

lemma deletionSteps_cooperative:
  assumes "in_finalizers j = in_finalizers i"
  shows "wpa (\<lambda>h. cooperative) (\<lambda>_ _. True) (\<lambda>r j' h'. r = Inr () \<and> endsUnfinalized L i h')
    (deletionSteps L) j h"
  unfolding deletionSteps_def wpa_thenA
  by (rule wpa_mono [OF finalBackup_cooperative])
    (auto simp: assms intro!: wpa_mono [OF release_cooperative] removeFinalizer_cooperative)

lemma reconcileDeletion_cooperative:
  "lib_containsFinalizer L (in_finalizers i) finalizerName
   \<Longrightarrow> wpa (\<lambda>h. cooperative) (\<lambda>_ _. True) (\<lambda>r j' h'. r = Inr () \<and> endsUnfinalized L i h')
    (reconcileDeletion L) i h"
  unfolding reconcileDeletion_def
  by (auto simp: wprule phase.wpa_writer deletion.wpa_writer asInstance_Inr
      intro!: deletionSteps_cooperative)

section \<open>Starting over\<close>

text \<open>The server stands still and there is no backup pod, as after a pass that released the storage
  and then failed to remove the finalizer.\<close>

fun podMissing :: "request \<Rightarrow> answer \<Rightarrow> bool" where
  "podMissing (QGetSts k) r = (\<exists>sts. r = RSts sts \<and> sts_replicas sts = Some 0 \<and> sts_statusReplicas sts = 0)"
| "podMissing (QGetPod k) r = (\<exists>e. r = RErr e \<and> isNotFound e)"
| "podMissing q r = echo q r"

fun beforeRelease :: "request \<Rightarrow> bool" where
  "beforeRelease (QDeletePvc k) = False"
| "beforeRelease (QGetPvc k) = False"
| "beforeRelease (QUpdateInstance j) = False"
| "beforeRelease q = True"

lemma backup_podMissing:
  "wpa (\<lambda>h. podMissing) (\<lambda>_. beforeRelease) (\<lambda>r j h. \<exists>e. r = Inl e) (backupDatabases L v) i h"
  unfolding backupDatabases_def backupDatabasesOffline_def createDatabaseBackupPod_def
  by (auto simp: wprule deletion.wpa_writer Let_def asSts_Inr asPod_Inr)

lemma deletionSteps_podMissing:
  assumes "finalBackupWanted j"
  shows "wpa (\<lambda>h. podMissing) (\<lambda>_. beforeRelease) (\<lambda>r j h. \<exists>e. r = Inl e) (deletionSteps L) j h"
  unfolding deletionSteps_def finalBackup_def
  by (simp add: wprule assms, rule wpa_mono [OF backup_podMissing]) auto

lemma reconcileDeletion_podMissing:
  assumes "finalBackupWanted i" and "lib_containsFinalizer L (in_finalizers i) finalizerName"
  shows "wpa (\<lambda>h. podMissing) (\<lambda>_. beforeRelease) (\<lambda>r j h. \<exists>e. r = Inl e) (reconcileDeletion L) i h"
proof -
  have "finalBackupWanted (i\<lparr>in_status := (in_status i)\<lparr>st_phase := ph, st_message := m\<rparr>\<rparr>)" for ph m
    using assms(1) core_final [of "i\<lparr>in_status := (in_status i)\<lparr>st_phase := ph, st_message := m\<rparr>\<rparr>" i]
    by (simp add: core_def)
  then show ?thesis
    unfolding reconcileDeletion_def using assms(2)
    by (auto simp: wprule phase.wpa_writer deletion.wpa_writer asInstance_Inr
        intro!: deletionSteps_podMissing)
qed

section \<open>A sample run\<close>

text \<open>The server stands still, the backup pod has succeeded.\<close>

definition doomed :: Instance where
  "doomed = (sampleInstance ''4.0.3'')\<lparr>in_deleting := True\<rparr>"

definition doomedCluster :: "event list \<Rightarrow> request \<Rightarrow> answer" where
  "doomedCluster = cluster doomed (Some (sampleSts ''firebird:4.0.3'' 0)) (Some (finishedPod PodSucceeded))"

definition deletionRun :: "event list" where
  "deletionRun = runOf doomedCluster sampleReconcile"

lemma deletionRun_steps:
  "steps sampleReconcile ((QGetInstance (''ns'', ''db''), RInstance doomed) # deletionRun) (Ret reconciled)"
  unfolding deletionRun_def by (rule runOf_steps, simp add: doomedCluster_def) code_simp

lemma deletionRun_honest: "honest deletionRun"
  unfolding deletionRun_def doomedCluster_def by (rule runOf_honest)

lemma doomed_deleting: "in_deleting doomed"
  by (simp add: doomed_def)

section \<open>Properties\<close>

text \<open>C2: An instance under deletion loses only its own primary and shadow volumes, and, when a final
  backup is wanted, only after the backup pod was seen to have succeeded with the server stopped, or
  no StatefulSet was found. Stated for every run of Reconcile, cut off anywhere.\<close>

theorem deletion_backs_up_before_release:
  assumes "steps (Reconcile L fuel req)
      ((QGetInstance req, RInstance i) # pre @ (QDeletePvc k, a) # post) p"
    and "in_deleting i" and "honest (pre @ (QDeletePvc k, a) # post)"
  shows "ownStorage i k \<and> (finalBackupWanted i \<longrightarrow> backupDone i (set pre))"
  using deletion_run [OF assms] by simp

theorem deletion_backs_up_before_release_witness:
  "\<exists>pre k a post. deletionRun = pre @ (QDeletePvc k, a) # post
     \<and> ownStorage doomed k \<and> backupDone doomed (set pre)"
proof -
  have "8 < length deletionRun" and "isDeletePvc (''ns'', ''db-shadow'') (fst (deletionRun ! 8))"
    by code_simp+
  from run_at [where P = "isDeletePvc (''ns'', ''db-shadow'')", OF this]
  obtain pre a post where tr: "deletionRun = pre @ (QDeletePvc (''ns'', ''db-shadow''), a) # post"
    by (auto dest: isDeletePvcD)
  have "finalBackupWanted doomed" by code_simp
  with deletion_backs_up_before_release [OF deletionRun_steps [unfolded tr] doomed_deleting
      deletionRun_honest [unfolded tr]]
  show ?thesis using tr by blast
qed

text \<open>C8: The finalizer goes last: the instance is written back without it only after its primary and, if
  it has one, its shadow volume were deleted or found to be gone, and after the backup when one is
  wanted.\<close>

theorem finalizer_removed_last:
  assumes "steps (Reconcile L fuel req)
      ((QGetInstance req, RInstance i) # pre @ (QUpdateInstance j, a) # post) p"
    and "in_deleting i" and "honest (pre @ (QUpdateInstance j, a) # post)"
  shows "storageReleased i (set pre) \<and> (\<not> finalBackupWanted i \<or> backupDone i (set pre))"
  using deletion_run [OF assms] by auto

theorem finalizer_removed_last_witness:
  "\<exists>pre j a post. deletionRun = pre @ (QUpdateInstance j, a) # post \<and> storageReleased doomed (set pre)"
proof -
  have "10 < length deletionRun" and "isUpdateInstance (fst (deletionRun ! 10))" by code_simp+
  from run_at [where P = isUpdateInstance, OF this]
  obtain pre j a post where tr: "deletionRun = pre @ (QUpdateInstance j, a) # post"
    by (auto dest: isUpdateInstanceD)
  from finalizer_removed_last [OF deletionRun_steps [unfolded tr] doomed_deleting
      deletionRun_honest [unfolded tr]]
  show ?thesis using tr by blast
qed

text \<open>C24: The only pod a deletion ever creates is the final backup, when one is wanted: it runs the
  backup script of every recorded database on the instance's own primary, backup and shadow volumes.
  With a recorded upgrade to another version, script and image are those of the version the upgrade comes
  from, of the instance's own repository whatever spec.backup says; else they are those of
  spec.version, in the image spec.backup.image names, if it names one.\<close>

theorem final_backup_pod:
  assumes "steps (Reconcile L fuel req)
      ((QGetInstance req, RInstance i) # pre @ (QCreatePod pod, a) # post) p"
    and "in_deleting i" and "honest (pre @ (QCreatePod pod, a) # post)"
  shows "finalBackupWanted i \<and> psp_volumes (pod_spec pod) = backupPodVolumes i
    \<and> (\<exists>c version. psp_containers (pod_spec pod) = [c]
         \<and> version = (case upgrade_of i of None \<Rightarrow> version_of i | Some u \<Rightarrow> up_fromVersion u)
         \<and> ct_command c = [''sh'', ''-c'', databaseBackupScript i version]
         \<and> ct_image c =
             (if version = version_of i \<and> bk_image (sp_backup (in_spec i)) \<noteq> [] then bk_image (sp_backup (in_spec i))
              else sp_image (in_spec i) @ '':'' @ version))"
  using deletion_run [OF assms]
  by (auto simp: ownBackupPod_def databaseBackupPod_def databaseBackupImage_def backupImage_def finalBackupVersion_def)

definition podlessCluster :: "event list \<Rightarrow> request \<Rightarrow> answer" where
  "podlessCluster = cluster doomed (Some (sampleSts ''firebird:4.0.3'' 0)) None"

definition podlessRun :: "event list" where
  "podlessRun = runOf podlessCluster sampleReconcile"

lemma podlessRun_steps:
  "\<exists>e. steps sampleReconcile ((QGetInstance (''ns'', ''db''), RInstance doomed) # podlessRun) (Ret (None, Some e))"
proof -
  have "snd (fst (runWith podlessCluster sampleReconcile [])) \<noteq> None"
    and "fst (fst (runWith podlessCluster sampleReconcile [])) = None" by code_simp+
  then obtain e where "fst (runWith podlessCluster sampleReconcile []) = (None, Some e)"
    by (auto simp: prod_eq_iff)
  then have "steps sampleReconcile ((QGetInstance (''ns'', ''db''), RInstance doomed) # podlessRun) (Ret (None, Some e))"
    unfolding podlessRun_def by (intro runOf_steps) (simp add: podlessCluster_def)
  then show ?thesis ..
qed

lemma podlessRun_honest: "honest podlessRun"
  unfolding podlessRun_def podlessCluster_def by (rule runOf_honest)

theorem final_backup_pod_witness:
  "\<exists>pre pod a post. podlessRun = pre @ (QCreatePod pod, a) # post
     \<and> psp_volumes (pod_spec pod) = backupPodVolumes doomed"
proof -
  have "5 < length podlessRun" and "isCreatePod (fst (podlessRun ! 5))" by code_simp+
  from run_at [where P = isCreatePod, OF this]
  obtain pre pod a post where tr: "podlessRun = pre @ (QCreatePod pod, a) # post"
    by (auto dest: isCreatePodD)
  obtain e where run: "steps sampleReconcile
      ((QGetInstance (''ns'', ''db''), RInstance doomed) # podlessRun) (Ret (None, Some e))"
    using podlessRun_steps by blast
  from final_backup_pod [OF run [unfolded tr] doomed_deleting podlessRun_honest [unfolded tr]]
  show ?thesis using tr by blast
qed

text \<open>C15: A deletion gets done: when the cluster goes along (writes are accepted, the server stands
  still, the backup pod has succeeded, what is deleted goes or is gone already), the reconcile of an
  instance that has the finalizer returns without an error or a delay, and its last request writes
  the instance back without the finalizer.\<close>

theorem deletion_completes:
  assumes "steps (Reconcile L fuel req) ((QGetInstance req, RInstance i) # tr) (Ret res)"
    and "in_deleting i" and "lib_containsFinalizer L (in_finalizers i) finalizerName"
    and "list_all (\<lambda>(q, r). cooperative q r) tr"
  shows "res = reconciled \<and> (\<exists>j. tr \<noteq> [] \<and> last tr = (QUpdateInstance j, RInstance j)
    \<and> in_finalizers j = lib_removeFinalizer L (in_finalizers i) finalizerName)"
proof -
  have "answered (\<lambda>h. cooperative) [] tr"
    using assms(4) by (simp add: answered_history_free list_all_iff)
  moreover have "wpa (\<lambda>h. cooperative) (\<lambda>_ _. True)
      (\<lambda>r j h. resultOf r = reconciled \<and> endsUnfinalized L i h) (reconcileFound L fuel) i []"
    unfolding deleting_found [OF assms(2)]
    by (rule wpa_mono [OF reconcileDeletion_cooperative [OF assms(3)]])
      (auto simp: resultOf_def errorOf_def reconciled_def)
  ultimately have "res = reconciled \<and> endsUnfinalized L i (rev tr)"
    using Reconcile_result [OF assms(1), where Q = "\<lambda>res h. res = reconciled \<and> endsUnfinalized L i h"]
    by blast
  then show ?thesis by (auto simp: endsUnfinalized_def rev_eq_Cons_iff)
qed

theorem deletion_completes_witness:
  "\<exists>j. last deletionRun = (QUpdateInstance j, RInstance j) \<and> in_finalizers j = []"
proof -
  have "cooperative q (doomedCluster h q)" for h q
    by (cases q) (auto simp: doomedCluster_def gone_def sampleSts_def finishedPod_def)
  then have "list_all (\<lambda>(q, r). cooperative q r) deletionRun"
    unfolding deletionRun_def by (rule runOf_all)
  moreover have "lib_containsFinalizer sampleLib (in_finalizers doomed) finalizerName" by code_simp
  moreover have "lib_removeFinalizer sampleLib (in_finalizers doomed) finalizerName = []" by code_simp
  ultimately show ?thesis
    using deletion_completes [OF deletionRun_steps doomed_deleting] by auto
qed

text \<open>C30: A deletion does not resume where it stopped. When the server stands still and there is no
  backup pod, as after a pass that released the storage but could not remove the finalizer, the
  next pass asks for a new backup without looking for the volumes: it fails or waits, and makes no
  request that would get it further.\<close>

theorem deletion_starts_over:
  assumes "steps (Reconcile L fuel req) ((QGetInstance req, RInstance i) # tr) (Ret res)"
    and "in_deleting i" and "lib_containsFinalizer L (in_finalizers i) finalizerName"
    and "finalBackupWanted i" and "list_all (\<lambda>(q, r). podMissing q r) tr"
  shows "res \<noteq> reconciled \<and> list_all (\<lambda>(q, r). beforeRelease q) tr"
proof -
  have A: "answered (\<lambda>h. podMissing) [] tr"
    using assms(5) by (simp add: answered_history_free list_all_iff)
  note order = reconcileDeletion_podMissing [OF assms(4,3), of "[]"]
  have "res \<noteq> reconciled"
    by (rule Reconcile_result [OF assms(1) _ A, where Q = "\<lambda>res h. res \<noteq> reconciled"])
      (use order in \<open>auto simp: deleting_found [OF assms(2)] resultOf_def errorOf_def reconciled_def
        elim!: wpa_mono\<close>)
  moreover have "beforeRelease q" if "(q, r) \<in> set tr" for q r
  proof -
    from that obtain pre post where tr: "tr = pre @ (q, r) # post" by (auto dest: split_list)
    show ?thesis
      by (rule Reconcile_guard [OF assms(1) [unfolded tr] _ A [unfolded tr]])
        (use order in \<open>auto simp: deleting_found [OF assms(2)] elim!: wpa_mono\<close>)
  qed
  ultimately show ?thesis by (auto simp: list_all_iff)
qed

theorem deletion_starts_over_witness:
  "list_all (\<lambda>(q, r). beforeRelease q) podlessRun \<and> isCreatePod (fst (podlessRun ! 5))"
proof -
  obtain e where run: "steps sampleReconcile
      ((QGetInstance (''ns'', ''db''), RInstance doomed) # podlessRun) (Ret (None, Some e))"
    using podlessRun_steps by blast
  have "podMissing q (podlessCluster h q)" for h q
    using cluster_echo [of q doomed "Some (sampleSts ''firebird:4.0.3'' 0)" None h]
    by (cases q) (auto simp: podlessCluster_def sampleSts_def)
  then have "list_all (\<lambda>(q, r). podMissing q r) podlessRun"
    unfolding podlessRun_def by (rule runOf_all)
  moreover have "lib_containsFinalizer sampleLib (in_finalizers doomed) finalizerName"
    and "finalBackupWanted doomed" and "isCreatePod (fst (podlessRun ! 5))" by code_simp+
  ultimately show ?thesis using deletion_starts_over [OF run doomed_deleting] by blast
qed

end
