(* ===== verification/Staging.thy ===== *)
theory Staging
  imports Samples
begin

text \<open>
  The upgrade as a state machine: the stages \<open>status.upgrade\<close> goes through, as a relation on what is
  stored that also says what a run must have seen, and the order of the requests of a reconcile
  relative to the stored stage. Both are proved for every run of \<open>Reconcile\<close>, cut off anywhere; the
  last section follows an instance over any number of runs, crashes and edits.
\<close>

section \<open>What runs see\<close>

definition sawServer :: "Instance \<Rightarrow> event set \<Rightarrow> StatefulSet \<Rightarrow> bool" where
  "sawServer i evs sts = ((QGetSts (in_key i), RSts sts) \<in> evs)"

definition storageAbsent :: "Instance \<Rightarrow> event set \<Rightarrow> bool" where
  "storageAbsent i evs =
     (pvcAbsent (in_namespace i, primaryPVCName i) evs
      \<and> (sg_shadow (sp_storage (in_spec i)) \<noteq> None
         \<longrightarrow> pvcAbsent (in_namespace i, shadowPVCName i) evs))"

definition sawReady :: "event set \<Rightarrow> bool" where
  "sawReady evs = (\<exists>s sts. (QStoreSts s, RSts sts) \<in> evs \<and> stsReady sts)"

lemmas seen_defs = sawServer_def pvcAbsent_def storageAbsent_def sawReady_def

section \<open>The stages\<close>

inductive advance :: "Instance \<Rightarrow> event set \<Rightarrow> UpgradeStatus option \<Rightarrow> UpgradeStatus option \<Rightarrow> bool"
  for i E where
  stay: "advance i E u u"
| start: "sawServer i E sts
    \<Longrightarrow> decideUpgrade (statefulSetFirebirdVersion sts) (version_of i) (backupVolumeSpec i \<noteq> None) = StartUpgrade
    \<Longrightarrow> advance i E None (Some \<lparr>up_fromVersion = statefulSetFirebirdVersion sts,
          up_toVersion = version_of i, up_stage = BackingUp\<rparr>)"
| backedUp: "up_stage u = BackingUp \<Longrightarrow> up_toVersion u = version_of i \<Longrightarrow> backupDone i E
    \<Longrightarrow> advance i E (Some u) (Some (u\<lparr>up_stage := Releasing\<rparr>))"
| released: "up_stage u = Releasing \<Longrightarrow> up_toVersion u = version_of i
    \<Longrightarrow> storageAbsent i E \<or> (\<exists>sts. sawServer i E sts \<and> statefulSetFirebirdVersion sts = up_toVersion u)
    \<Longrightarrow> advance i E (Some u) (Some (u\<lparr>up_stage := Restoring\<rparr>))"
| finished: "up_stage u = Restoring \<or> noServer i E \<Longrightarrow> sawReady E \<Longrightarrow> advance i E (Some u) None"

inductive_cases advance_SomeE: "advance i E (Some u) u'"
inductive_cases advance_NoneE: "advance i E None u'"

lemma storageAbsent_mono: "storageAbsent i E \<Longrightarrow> E \<subseteq> F \<Longrightarrow> storageAbsent i F"
  unfolding seen_defs by blast

lemma noServer_mono: "noServer i E \<Longrightarrow> E \<subseteq> F \<Longrightarrow> noServer i F"
  unfolding noServer_def by blast

lemma sawReady_mono: "sawReady E \<Longrightarrow> E \<subseteq> F \<Longrightarrow> sawReady F"
  unfolding sawReady_def by blast

lemma sawServer_mono: "sawServer i E sts \<Longrightarrow> E \<subseteq> F \<Longrightarrow> sawServer i F sts"
  unfolding sawServer_def by blast

lemma advance_mono:
  assumes "advance i E u u'" and "E \<subseteq> F"
  shows "advance i F u u'"
  using assms(1)
proof cases
  case (start sts)
  then show ?thesis using assms(2) advance.start [of i F sts] by (auto simp: sawServer_def)
next
  case (released u)
  then have "storageAbsent i F \<or> (\<exists>sts. sawServer i F sts \<and> statefulSetFirebirdVersion sts = up_toVersion u)"
    using assms(2) storageAbsent_mono by (auto simp: sawServer_def)
  with released show ?thesis by (auto intro: advance.released)
next
  case (finished u)
  then show ?thesis using assms(2)
    by (auto intro!: advance.finished intro: noServer_mono sawReady_mono)
qed (use assms(2) backupDone_mono in \<open>auto intro: advance.intros\<close>)


section \<open>The order of the requests\<close>

definition ident :: "Instance \<Rightarrow> string \<times> string \<times> InstanceSpec" where
  "ident i = (in_name i, in_namespace i, in_spec i)"

definition front :: "Instance \<Rightarrow> string \<times> string \<times> InstanceSpec \<times> UpgradeStatus option" where
  "front i = (in_name i, in_namespace i, in_spec i, upgrade_of i)"

text \<open>When the StatefulSet may be brought to \<open>spec.version\<close>: no server was found, or the one seen needs
  no upgrade, or the upgrade to that very version is restoring.\<close>

definition mayServe :: "Instance \<Rightarrow> event set \<Rightarrow> UpgradeStatus option \<Rightarrow> bool" where
  "mayServe i E u =
     (noServer i E
      \<or> u = None \<and> (\<exists>sts. sawServer i E sts \<and>
           decideUpgrade (statefulSetFirebirdVersion sts) (version_of i) (backupVolumeSpec i \<noteq> None) = NoUpgrade)
      \<or> (\<exists>v. u = Some v \<and> up_stage v = Restoring \<and> up_toVersion v = version_of i))"

text \<open>When a volume may go: the stored stage is \<open>Releasing\<close>, and the server seen runs another version.\<close>

definition mayRelease :: "Instance \<Rightarrow> event set \<Rightarrow> UpgradeStatus option \<Rightarrow> bool" where
  "mayRelease i E u =
     (\<exists>v sts. u = Some v \<and> up_stage v = Releasing \<and> up_toVersion v = version_of i
        \<and> sawServer i E sts \<and> statefulSetFirebirdVersion sts \<noteq> up_toVersion v)"

definition mayBackUp :: "Instance \<Rightarrow> UpgradeStatus option \<Rightarrow> request \<Rightarrow> bool" where
  "mayBackUp i u q =
     (\<exists>v. u = Some v \<and> up_stage v = BackingUp \<and> up_toVersion v = version_of i
        \<and> ownBackupPod i (up_fromVersion v) q)"

fun stageOrder :: "Instance \<Rightarrow> event list \<Rightarrow> request \<Rightarrow> bool" where
  "stageOrder i h (QUpdateStatus j) = (ident j = ident i \<and> advance i (set h) (upgrade_of (stored i h)) (upgrade_of j))"
| "stageOrder i h (QUpdateInstance j) = (ident j = ident i \<and> upgrade_of j = upgrade_of (stored i h))"
| "stageOrder i h (QDeletePvc k) = (ownStorage i k \<and> mayRelease i (set h) (upgrade_of (stored i h)))"
| "stageOrder i h (QStoreSts sts) = mayServe i (set h) (upgrade_of (stored i h))"
| "stageOrder i h (QUpdateSts sts) = mayBackUp i (upgrade_of (stored i h)) (QUpdateSts sts)"
| "stageOrder i h (QCreatePod pod) = mayBackUp i (upgrade_of (stored i h)) (QCreatePod pod)"
| "stageOrder i h q = True"

text \<open>The requests whose place in the order depends on the stage.\<close>

fun staged :: "request \<Rightarrow> bool" where
  "staged (QDeletePvc k) = True"
| "staged (QStoreSts sts) = True"
| "staged (QUpdateSts sts) = True"
| "staged (QCreatePod pod) = True"
| "staged q = False"

lemma stageOrder_sameIn:
  "sameIn front k q \<Longrightarrow> front (stored i h) = k \<Longrightarrow> ident (stored i h) = ident i
   \<Longrightarrow> \<not> staged q \<Longrightarrow> stageOrder i h q"
  by (cases q) (auto simp: front_def ident_def intro: advance.stay)

text \<open>The object in hand is the stored one, as far as identity and stage go.\<close>

definition inSync :: "Instance \<Rightarrow> Instance \<Rightarrow> event list \<Rightarrow> bool" where
  "inSync i j h = (agrees front i (front j) j h \<and> ident j = ident i)"

lemma inSync_stored: "inSync i j h \<Longrightarrow> upgrade_of (stored i h) = upgrade_of j \<and> ident (stored i h) = ident i"
  by (auto simp: inSync_def agrees_def front_def ident_def)

text \<open>A stretch that writes neither: it keeps the order when its own staged requests do.\<close>

lemma steady_stretch:
  assumes st: "steady front m" and sync: "inSync i j h" and ev: "wpa echoes (\<lambda>_ q. R q) Q m j h"
    and staged: "\<And>h' q. R q \<Longrightarrow> staged q \<Longrightarrow> set h \<subseteq> set h' \<Longrightarrow> upgrade_of (stored i h') = upgrade_of j
       \<Longrightarrow> stageOrder i h' q"
  shows "wpa echoes (stageOrder i)
    (\<lambda>r j' h'. inSync i j' h' \<and> upgrade_of j' = upgrade_of j \<and> set h \<subseteq> set h' \<and> Q r j' h') m j h"
proof -
  have id: "ident j = ident i" and ag: "agrees front i (front j) j h" using sync by (simp_all add: inSync_def)
  have "wpa echoes (\<lambda>h' q. ((sameIn front (front j) q \<and> front (stored i h') = front j) \<and> R q) \<and> set h \<subseteq> set h')
      (\<lambda>r j' h'. (agrees front i (front j) j' h' \<and> Q r j' h') \<and> set h \<subseteq> set h') m j h"
    by (rule wpa_extends [OF wpa_conj [OF steady_agrees [OF st ag] ev]])
  then show ?thesis
  proof (rule wpa_mono)
    fix r j' h'
    assume "(agrees front i (front j) j' h' \<and> Q r j' h') \<and> set h \<subseteq> set h'"
    then show "inSync i j' h' \<and> upgrade_of j' = upgrade_of j \<and> set h \<subseteq> set h' \<and> Q r j' h'"
      using id by (auto simp: inSync_def agrees_def front_def ident_def)
  next
    fix h' q
    assume a: "((sameIn front (front j) q \<and> front (stored i h') = front j) \<and> R q) \<and> set h \<subseteq> set h'"
    then have "ident (stored i h') = ident i" and "upgrade_of (stored i h') = upgrade_of j"
      using id by (auto simp: front_def ident_def)
    with a show "stageOrder i h' q"
      by (cases "staged q") (auto intro: staged stageOrder_sameIn)
  qed
qed

text \<open>What holds when a part is done: after success the object is in sync, after a failure the stage
  in hand is at most one allowed step ahead of the stored one.\<close>

definition ahead :: "Instance \<Rightarrow> Instance \<Rightarrow> event list \<Rightarrow> bool" where
  "ahead i j h = (ident j = ident i \<and> advance i (set h) (upgrade_of (stored i h)) (upgrade_of j)
     \<and> ident (stored i h) = ident i)"

lemma inSync_ahead: "inSync i j h \<Longrightarrow> ahead i j h"
  using inSync_stored [of i j h] by (auto simp: ahead_def inSync_def intro: advance.stay)

lemma inSync_event:
  "inSync i j h \<Longrightarrow> \<not> writes_object q \<Longrightarrow> inSync i j ((q, r) # h)"
  by (cases q) (auto simp: inSync_def agrees_def)

lemma advance_event: "advance i E u u' \<Longrightarrow> advance i (insert ev E) u u'"
  by (erule advance_mono) auto

lemma stored_failed: "asInstance a = Inl e \<Longrightarrow> stored i ((QUpdateStatus j, a) # h) = stored i h"
  by (cases a) auto

text \<open>Writing an object one step ahead.\<close>

lemma write_ahead:
  assumes "ahead i j h"
    and "\<And>a e. ahead i j ((QUpdateStatus j, a) # h) \<Longrightarrow> Q (Inl e) j ((QUpdateStatus j, a) # h)"
    and "\<And>h'. inSync i j h' \<Longrightarrow> h' = (QUpdateStatus j, RInstance j) # h \<Longrightarrow> Q (Inr ()) j h'"
  shows "wpa echoes (stageOrder i) Q updateStatus j h"
proof -
  have failed: "ahead i j ((QUpdateStatus j, a) # h)" if "asInstance a = Inl e" for a e
    using assms(1) that by (auto simp: ahead_def stored_failed intro: advance_event)
  show ?thesis
    using assms(1) failed assms(2,3)
    by (auto simp: wprule asInstance_Inr ahead_def inSync_def agrees_def front_def ident_def)
qed

section \<open>The upgrade part of a reconcile\<close>

lemma steady_front_backup: "steady front (backupDatabases L v)"
  by (intro keep) (simp add: front_def)

lemma steady_front_release: "steady front releasePrimaryAndShadowStorage"
  by (intro keep) (simp add: front_def)

lemma backup_stretch:
  assumes sync: "inSync i j h" and u: "upgrade_of j = Some u" "up_stage u = BackingUp"
    "up_toVersion u = version_of i" and dbs: "status_databases j = status_databases i"
  shows "wpa echoes (stageOrder i)
    (\<lambda>r j' h'. inSync i j' h' \<and> upgrade_of j' = Some u \<and> set h \<subseteq> set h'
       \<and> (r = Inr () \<longrightarrow> backupDone i (set h'))) (backupDatabases L (up_fromVersion u)) j h"
proof -
  let ?v = "up_fromVersion u"
  have same: "in_name j = in_name i" "in_namespace j = in_namespace i" "in_spec j = in_spec i"
    using sync by (simp_all add: inSync_def ident_def)
  have pod: "ownBackupPod j ?v = ownBackupPod i ?v"
    using databaseBackupPod_cong [of j i ?v] same dbs by (auto simp: ownBackupPod_def fun_eq_iff)
  have seen: "backupDone j = backupDone i"
    using same by (auto simp: evidence_defs layout fun_eq_iff)
  have foot: "emits (\<lambda>q. \<forall>k. q \<noteq> QDeletePvc k \<and> (\<forall>s. q \<noteq> QStoreSts s)) (backupDatabases L ?v)"
    by (intro emit) auto
  have ev: "wpa echoes (\<lambda>_ q. ownBackupPod i ?v q \<and> (\<forall>k. q \<noteq> QDeletePvc k \<and> (\<forall>s. q \<noteq> QStoreSts s)))
     (\<lambda>r j' h'. (r = Inr () \<longrightarrow> backupDone i (set h')) \<and> True) (backupDatabases L ?v) j h"
    using wpa_conj [OF backupDatabases_evidence [of j ?v L h] emits_wpa [OF foot]] by (simp add: pod seen)
  have "wpa echoes (stageOrder i)
    (\<lambda>r j' h'. inSync i j' h' \<and> upgrade_of j' = upgrade_of j \<and> set h \<subseteq> set h' \<and>
       (r = Inr () \<longrightarrow> backupDone i (set h')) \<and> True) (backupDatabases L ?v) j h"
  proof (rule steady_stretch [OF steady_front_backup sync ev])
    fix h' q
    assume "ownBackupPod i ?v q \<and> (\<forall>k. q \<noteq> QDeletePvc k \<and> (\<forall>s. q \<noteq> QStoreSts s))" "staged q"
      "upgrade_of (stored i h') = upgrade_of j"
    then show "stageOrder i h' q" using u by (cases q) (auto simp: mayBackUp_def)
  qed
  then show ?thesis by (rule wpa_mono) (use u in auto)
qed

text \<open>The outcome of a part that leaves the stage at \<open>U\<close>.\<close>

definition reaches :: "Instance \<Rightarrow> event list \<Rightarrow> UpgradeStatus option \<Rightarrow> error + 'a \<Rightarrow> Instance \<Rightarrow> event list \<Rightarrow> bool" where
  "reaches i h U r j h' =
     ((\<forall>e. r = Inl e \<longrightarrow> ahead i j h') \<and> (\<forall>x. r = Inr x \<longrightarrow> inSync i j h' \<and> upgrade_of j = U)
      \<and> set h \<subseteq> set h')"

lemma stretch_reaches:
  "wpa echoes (stageOrder i) (\<lambda>r j' h'. inSync i j' h' \<and> upgrade_of j' = u \<and> set h \<subseteq> set h' \<and> Q r j' h') m j h
   \<Longrightarrow> wpa echoes (stageOrder i) (\<lambda>r j' h'. reaches i h u r j' h' \<and> Q r j' h') m j h"
  by (erule wpa_mono) (auto simp: reaches_def inSync_ahead)

lemma wpa_withUpgrade [wprule]:
  "wpa A G Q (withUpgrade f) i h =
     ((upgrade_of i = None \<longrightarrow> Q (Inl (Panicked ''nil pointer dereference'')) i h)
      \<and> (\<forall>u. upgrade_of i = Some u \<longrightarrow> wpa A G Q (f u) i h))"
  by (simp add: withUpgrade_def wprule)

lemma setUpgradeStage_reaches:
  assumes "inSync i j h" and "upgrade_of j = Some u"
    and "advance i (set h) (Some u) (Some (u\<lparr>up_stage := st\<rparr>))"
  shows "wpa echoes (stageOrder i) (reaches i h (Some (u\<lparr>up_stage := st\<rparr>))) (setUpgradeStage st) j h"
proof -
  let ?j = "upd_status (\<lambda>s. s\<lparr>st_upgrade := Some (u\<lparr>up_stage := st\<rparr>)\<rparr>) j"
  have "ahead i ?j h"
    using assms inSync_stored [OF assms(1)] by (auto simp: ahead_def inSync_def ident_def)
  then show ?thesis
    unfolding setUpgradeStage_def
    by (simp add: wpa_withUpgrade assms(2) wpa_thenA wpa_modifyI wpa_wrapA)
      (rule write_ahead, auto simp: reaches_def)
qed

lemma upgradeBackup_reaches:
  assumes sync: "inSync i j h" and u: "upgrade_of j = Some u" "up_toVersion u = version_of i"
    and dbs: "status_databases j = status_databases i"
  shows "wpa echoes (stageOrder i)
    (reaches i h (Some (if up_stage u = BackingUp then u\<lparr>up_stage := Releasing\<rparr> else u))) (upgradeBackup L u) j h"
proof (cases "up_stage u = BackingUp")
  case True
  have step: "wpa echoes (stageOrder i) (reaches i h (Some (u\<lparr>up_stage := Releasing\<rparr>)))
      (setUpgradeStage Releasing) (upd_status clearDatabases j') h'"
    if "inSync i j' h'" "upgrade_of j' = Some u" "set h \<subseteq> set h'" "backupDone i (set h')" for j' h'
  proof (rule wpa_mono [OF setUpgradeStage_reaches [where i = i]])
    show "inSync i (upd_status clearDatabases j') h'"
      using that(1) by (auto simp: inSync_def agrees_def front_def ident_def clearDatabases_def)
    show "upgrade_of (upd_status clearDatabases j') = Some u"
      using that(2) by (simp add: clearDatabases_def)
    show "advance i (set h') (Some u) (Some (u\<lparr>up_stage := Releasing\<rparr>))"
      using True u(2) that(4) by (rule advance.backedUp)
  qed (use that(3) in \<open>auto simp: reaches_def\<close>)
  show ?thesis
    unfolding upgradeBackup_def wpa_whenA wpa_thenA wpa_modifyI
    by (simp add: True, rule wpa_mono [OF backup_stretch [OF sync u(1) True u(2) dbs]])
      (auto simp: reaches_def inSync_ahead intro!: step)
next
  case False
  then show ?thesis using sync u(1) by (simp add: upgradeBackup_def wprule reaches_def)
qed

lemma awaitPvcsGone_absent:
  "wpa A (\<lambda>_ q. \<not> staged q)
    (\<lambda>r j' h'. r = Inr () \<longrightarrow> (\<forall>n\<in>set names. pvcAbsent (in_namespace j, n) (set h'))) (awaitPvcsGone names) j h"
proof (induction names arbitrary: h)
  case Nil
  then show ?case by (simp add: wprule)
next
  case (Cons n ns)
  have "wpa A (\<lambda>_ q. \<not> staged q)
    (\<lambda>r j' h'. r = Inr () \<longrightarrow> (\<forall>m\<in>set (n # ns). pvcAbsent (in_namespace j, m) (set h'))) (awaitPvcsGone ns) j
    ((QGetPvc (in_namespace j, n), r) # h)" if "asPvc r = Inl e" "isNotFound e" for r e
  proof -
    have "\<exists>e'. r = RErr e' \<and> isNotFound e'"
      using that by (cases r) (auto simp: malformed_def)
    then obtain e' where "r = RErr e'" "isNotFound e'" by blast
    with wpa_extends [OF Cons.IH [of "(QGetPvc (in_namespace j, n), r) # h"]]
    show ?thesis by (elim wpa_mono) (auto simp: pvcAbsent_def)
  qed
  then show ?case by (auto simp: wprule)
qed

lemma releaseStorage_absent:
  "wpa echoes (\<lambda>_. (\<lambda>q. releasesOwn i q \<and> (staged q \<longrightarrow> (\<exists>k. q = QDeletePvc k))))
     (\<lambda>r j h'. r = Inr () \<longrightarrow> storageAbsent i (set h')) releaseStorageForUpgrade i h"
proof -
  have foot: "emits (\<lambda>q. staged q \<longrightarrow> (\<exists>k. q = QDeletePvc k)) releasePrimaryAndShadowStorage"
    by (intro emit) auto
  have "steady ident releasePrimaryAndShadowStorage" by (intro keep) (simp add: ident_def)
  note rel = wpa_conj [OF release_evidence [of i h] wpa_conj [OF emits_wpa [OF foot] steady_wpa [OF this]]]
  have "wpa echoes (\<lambda>_. (\<lambda>q. releasesOwn i q \<and> (staged q \<longrightarrow> (\<exists>k. q = QDeletePvc k))))
     (\<lambda>r j' h''. r = Inr () \<longrightarrow> storageAbsent i (set h''))
     (awaitPvcsGone (primaryPVCName j # (if sg_shadow (sp_storage (in_spec j)) \<noteq> None then [shadowPVCName j] else [])))
     j h'" if "ident j = ident i" for j h'
  proof (rule wpa_mono [OF awaitPvcsGone_absent])
    fix h' q assume "\<not> staged q"
    then show "releasesOwn i q \<and> (staged q \<longrightarrow> (\<exists>k. q = QDeletePvc k))" by (cases q) auto
  qed (use that in \<open>auto simp: storageAbsent_def ident_def layout split: if_splits\<close>)
  then show ?thesis
    unfolding releaseStorageForUpgrade_def wpa_thenA wpa_withI
    by (intro wpa_mono [OF rel]) auto
qed

lemma upgradeRelease_reaches:
  assumes sync: "inSync i j h" and u: "upgrade_of j = Some u" "up_toVersion u = version_of i"
    and saw: "sawServer i (set h) sts"
  shows "wpa echoes (stageOrder i)
    (reaches i h (Some (if up_stage u = Releasing then u\<lparr>up_stage := Restoring\<rparr> else u))) (upgradeRelease sts u) j h"
proof (cases "up_stage u = Releasing")
  case True
  have step: "wpa echoes (stageOrder i) (reaches i h (Some (u\<lparr>up_stage := Restoring\<rparr>)))
      (setUpgradeStage Restoring) j' h'"
    if "inSync i j' h'" "upgrade_of j' = Some u" "set h \<subseteq> set h'"
      "storageAbsent i (set h') \<or> statefulSetFirebirdVersion sts = up_toVersion u" for j' h'
  proof (rule wpa_mono [OF setUpgradeStage_reaches [OF that(1,2)]])
    have "sawServer i (set h') sts" using saw that(3) by (rule sawServer_mono)
    with that(4) have "storageAbsent i (set h')
        \<or> (\<exists>sts. sawServer i (set h') sts \<and> statefulSetFirebirdVersion sts = up_toVersion u)" by blast
    with True u(2) show "advance i (set h') (Some u) (Some (u\<lparr>up_stage := Restoring\<rparr>))"
      by (rule advance.released)
  qed (use that(3) in \<open>auto simp: reaches_def\<close>)
  have same: "releasesOwn j = releasesOwn i" "storageAbsent j = storageAbsent i"
    using sync by (auto simp: inSync_def ident_def releasesOwn_def ownStorage_def storageAbsent_def layout fun_eq_iff)
  have release: "wpa echoes (stageOrder i)
    (\<lambda>r j' h'. inSync i j' h' \<and> upgrade_of j' = upgrade_of j \<and> set h \<subseteq> set h' \<and>
       (r = Inr () \<longrightarrow> storageAbsent i (set h'))) releaseStorageForUpgrade j h"
    if "statefulSetFirebirdVersion sts \<noteq> up_toVersion u"
  proof (rule steady_stretch [OF _ sync releaseStorage_absent [of j h, unfolded same]])
    show "steady front releaseStorageForUpgrade"
      unfolding releaseStorageForUpgrade_def by (intro keep) (simp add: front_def)
    fix h' q
    assume q: "releasesOwn i q \<and> (staged q \<longrightarrow> (\<exists>k. q = QDeletePvc k))" "staged q"
      and h': "set h \<subseteq> set h'" "upgrade_of (stored i h') = upgrade_of j"
    have "mayRelease i (set h') (upgrade_of (stored i h'))"
      using sawServer_mono [OF saw h'(1)] u True that by (auto simp: mayRelease_def h'(2))
    then show "stageOrder i h' q" using q by auto
  qed
  show ?thesis
  proof (cases "statefulSetFirebirdVersion sts = up_toVersion u")
    case same: True
    then show ?thesis
      unfolding upgradeRelease_def using step [OF sync u(1)] True by (simp add: wprule)
  next
    case False
    show ?thesis
      unfolding upgradeRelease_def wpa_whenA wpa_thenA
      by (simp add: True False, rule wpa_mono [OF release [OF False]])
        (auto simp: reaches_def inSync_ahead u(1) intro!: step)
  qed
next
  case False
  then show ?thesis using sync u(1) by (simp add: upgradeRelease_def wprule reaches_def)
qed

text \<open>What the upgrade part as a whole leaves behind.\<close>

definition cleared :: "Instance \<Rightarrow> event list \<Rightarrow> error + bool \<Rightarrow> Instance \<Rightarrow> event list \<Rightarrow> bool" where
  "cleared i h r j h' =
     ((\<forall>e. r = Inl e \<longrightarrow> ahead i j h')
      \<and> (\<forall>b. r = Inr b \<longrightarrow> \<not> b \<and> inSync i j h' \<and> mayServe i (set h') (upgrade_of j))
      \<and> set h \<subseteq> set h')"

lemma continueUpgrade_cleared:
  assumes sync: "inSync i j h" and saw: "sawServer i (set h) sts" and u: "upgrade_of j = Some u"
    and dbs: "status_databases j = status_databases i"
  shows "wpa echoes (stageOrder i) (cleared i h) (continueUpgrade L sts) j h"
proof (cases "version_of j = up_toVersion u")
  case False
  then show ?thesis
    using sync u by (auto simp: continueUpgrade_def wprule cleared_def inSync_ahead)
next
  case True
  let ?u1 = "if up_stage u = BackingUp then u\<lparr>up_stage := Releasing\<rparr> else u"
  let ?u2 = "if up_stage ?u1 = Releasing then ?u1\<lparr>up_stage := Restoring\<rparr> else ?u1"
  have to: "up_toVersion u = version_of i" using True sync by (simp add: inSync_def ident_def)
  have restoring: "up_stage ?u2 = Restoring" "up_toVersion ?u2 = version_of i"
    using to by (cases "up_stage u"; simp)+
  have release: "wpa echoes (stageOrder i)
      (\<lambda>r j'' h''. (\<forall>e. r = Inl e \<longrightarrow> cleared i h (Inl e) j'' h'') \<and> (r = Inr () \<longrightarrow> cleared i h (Inr False) j'' h''))
      (upgradeRelease sts ?u1) j' h'"
    if "inSync i j' h'" "upgrade_of j' = Some ?u1" "set h \<subseteq> set h'" for j' h'
  proof -
    have "wpa echoes (stageOrder i) (reaches i h' (Some ?u2)) (upgradeRelease sts ?u1) j' h'"
      using upgradeRelease_reaches [OF that(1,2) _ sawServer_mono [OF saw that(3)]] to by simp
    then show ?thesis
      by (rule wpa_mono) (use restoring that(3) in \<open>auto simp: reaches_def cleared_def mayServe_def\<close>)
  qed
  note backup = upgradeBackup_reaches [OF sync u to dbs, of L]
  show ?thesis
  proof (cases "up_stage u = BackingUp")
    case stage: True
    show ?thesis
      unfolding continueUpgrade_def
      by (simp add: wpa_withUpgrade u wpa_withI True wpa_thenA wpa_bindA wpa_ok stage, intro wpa_mono [OF backup])
        (use release stage in \<open>auto simp: reaches_def cleared_def\<close>)
  next
    case stage: False
    show ?thesis
      unfolding continueUpgrade_def
      by (simp add: wpa_withUpgrade u wpa_withI True wpa_thenA wpa_bindA wpa_ok stage, intro wpa_mono [OF backup])
        (use release stage in \<open>auto simp: reaches_def cleared_def\<close>)
  qed
qed

lemma startMajorUpgrade_started:
  assumes sync: "inSync i j h" and saw: "sawServer i (set h) sts" and none: "upgrade_of j = None"
    and dbs: "status_databases j = status_databases i"
  shows "wpa echoes (stageOrder i)
    (\<lambda>r j' h'. (\<forall>e. r = Inl e \<longrightarrow> ahead i j' h')
      \<and> (\<forall>b. r = Inr b \<longrightarrow> inSync i j' h' \<and> status_databases j' = status_databases i
            \<and> (if b then upgrade_of j' \<noteq> None else mayServe i (set h') (upgrade_of j')))
      \<and> set h \<subseteq> set h') (startMajorUpgrade sts) j h"
proof -
  let ?v = "statefulSetFirebirdVersion sts" and ?j = "beginUpgrade (statefulSetFirebirdVersion sts) j"
  have same: "version_of j = version_of i" "backupVolumeSpec j = backupVolumeSpec i"
    using sync by (auto simp: inSync_def ident_def backupVolumeSpec_def)
  have stored: "upgrade_of (stored i h) = None" "ident (stored i h) = ident i"
    using inSync_stored [OF sync] none by simp_all
  show ?thesis
  proof (cases "decideUpgrade ?v (version_of i) (backupVolumeSpec i \<noteq> None)")
    case NoUpgrade
    then show ?thesis using sync saw none dbs
      by (auto simp: startMajorUpgrade_def wprule same mayServe_def)
  next
    case (Refused e)
    then show ?thesis using sync
      by (auto simp: startMajorUpgrade_def wprule same inSync_ahead)
  next
    case StartUpgrade
    have "ahead i ?j h"
      using sync stored advance.start [OF saw StartUpgrade] same
      by (auto simp: ahead_def inSync_def ident_def beginUpgrade_def)
    then have "wpa echoes (stageOrder i)
      (\<lambda>r j' h'. (\<forall>e. r = Inl e \<longrightarrow> ahead i j' h') \<and> (\<forall>x. r = Inr x \<longrightarrow> inSync i j' h' \<and> j' = ?j)
         \<and> set h \<subseteq> set h') updateStatus ?j h"
      by (rule write_ahead) auto
    then show ?thesis
      unfolding startMajorUpgrade_def wpa_withI same Let_def StartUpgrade upgradeDecision.case
        wpa_thenA wpa_modifyI wpa_wrapA wpa_ok
      by simp (erule wpa_mono, auto simp: beginUpgrade_def dbs)
  qed
qed

lemma reconcileMajorUpgrade_cleared:
  assumes sync: "inSync i j h" and dbs: "status_databases j = status_databases i"
  shows "wpa echoes (stageOrder i) (cleared i h) (reconcileMajorUpgrade L) j h"
proof -
  have key: "in_key j = in_key i" using sync by (simp add: inSync_def ident_def)
  have get: "inSync i j ((QGetSts (in_key i), r) # h)" for r
    using sync by (rule inSync_event) simp
  have continue: "wpa echoes (stageOrder i) (cleared i h) (continueUpgrade L sts) j' h'"
    if "inSync i j' h'" "upgrade_of j' \<noteq> None" "status_databases j' = status_databases i"
      "sawServer i (set h') sts" "set h \<subseteq> set h'" for j' h' sts
  proof -
    from that(2) obtain u where "upgrade_of j' = Some u" by auto
    from continueUpgrade_cleared [OF that(1,4) this that(3)]
    show ?thesis by (rule wpa_mono) (use that(5) in \<open>auto simp: cleared_def\<close>)
  qed
  have start: "wpa echoes (stageOrder i) (cleared i h)
      (bindA (startMajorUpgrade sts) (\<lambda>started. if \<not> started then ok False else continueUpgrade L sts)) j
      ((QGetSts (in_key i), RSts sts) # h)" if "upgrade_of j = None" for sts
  proof -
    let ?h = "(QGetSts (in_key i), RSts sts) # h"
    have saw: "sawServer i (set ?h) sts" by (simp add: sawServer_def)
    show ?thesis
      unfolding wpa_bindA
    proof (rule wpa_mono [OF startMajorUpgrade_started [OF get saw that dbs]])
      fix r :: "error + bool" and j' h'
      assume a: "(\<forall>e. r = Inl e \<longrightarrow> ahead i j' h')
        \<and> (\<forall>b. r = Inr b \<longrightarrow> inSync i j' h' \<and> status_databases j' = status_databases i
              \<and> (if b then upgrade_of j' \<noteq> None else mayServe i (set h') (upgrade_of j')))
        \<and> set ?h \<subseteq> set h'"
      then have "sawServer i (set h') sts" using saw by (auto simp: sawServer_def)
      with a continue [of j' h' sts]
      show "(\<forall>e. r = Inl e \<longrightarrow> cleared i h (Inl e) j' h') \<and>
        (\<forall>x. r = Inr x \<longrightarrow> wpa echoes (stageOrder i) (cleared i h)
           (if \<not> x then ok False else continueUpgrade L sts) j' h')"
        by (auto simp: cleared_def wpa_ok)
    qed auto
  qed
  show ?thesis
    unfolding reconcileMajorUpgrade_def
    using start continue [of j "(QGetSts (in_key i), RSts sts) # h" sts for sts] get dbs
    by (auto simp: wpa_withI wpa_tryA wpa_callA wpa_case_sum wpa_If wpa_ok wpa_failA wpa_case_option key asSts_Inr
        cleared_def inSync_ahead mayServe_def noServer_def sawServer_def dest!: asSts_Inl_NotFound)
qed

lemma finishMajorUpgrade_reaches:
  assumes sync: "inSync i j h" and may: "mayServe i (set h) (upgrade_of j)" and ready: "sawReady (set h)"
  shows "wpa echoes (stageOrder i) (reaches i h None) finishMajorUpgrade j h"
proof (cases "upgrade_of j")
  case None
  then show ?thesis using sync by (simp add: finishMajorUpgrade_def wprule reaches_def)
next
  case (Some u)
  let ?j = "upd_status (\<lambda>s. s\<lparr>st_upgrade := None\<rparr>) j"
  have "advance i (set h) (Some u) None"
    using may ready Some by (intro advance.finished) (auto simp: mayServe_def)
  then have "ahead i ?j h"
    using sync inSync_stored [OF sync] Some by (auto simp: ahead_def inSync_def ident_def)
  then show ?thesis
    unfolding finishMajorUpgrade_def
    by (simp add: wpa_withI wpa_case_option Some wpa_thenA wpa_modifyI wpa_wrapA)
      (rule write_ahead, auto simp: reaches_def)
qed

section \<open>The whole reconcile\<close>

lemma mayServe_mono: "mayServe i E u \<Longrightarrow> E \<subseteq> F \<Longrightarrow> mayServe i F u"
  unfolding mayServe_def by (blast intro: noServer_mono sawServer_mono)

text \<open>A part with no staged request at all.\<close>

lemma quiet_reaches:
  assumes "inSync i j h" and "steady front m" and "emits (\<lambda>q. \<not> staged q) m" and "steady f m"
  shows "wpa echoes (stageOrder i) (\<lambda>r j' h'. reaches i h (upgrade_of j) r j' h' \<and> f j' = f j) m j h"
proof -
  have "wpa echoes (\<lambda>_ q. \<not> staged q \<and> True) (\<lambda>r j' h'. True \<and> f j' = f j) m j h"
    by (rule wpa_conj [OF emits_wpa [OF assms(3)] steady_wpa [OF assms(4)]])
  from steady_stretch [OF assms(2,1) this] show ?thesis
    by (rule wpa_mono) (auto simp: reaches_def inSync_ahead)
qed

lemma quiet:
  assumes "inSync i j h" and "steady front m" and "emits (\<lambda>q. \<not> staged q) m"
  shows "wpa echoes (stageOrder i) (reaches i h (upgrade_of j)) m j h"
  by (rule wpa_mono [OF quiet_reaches [OF assms assms(2)]]) auto

lemma reconcileOwned_result:
  "wpa A (\<lambda>_ _. True) (\<lambda>r j h'. \<forall>sts. r = Inr sts \<longrightarrow> (\<exists>s. (QStoreSts s, RSts sts) \<in> set h'))
     (reconcileOwned L) i h"
proof -
  have store: "wpa A (\<lambda>_ _. True) (\<lambda>r j h'. \<forall>sts. r = Inr sts \<longrightarrow> (\<exists>s. (QStoreSts s, RSts sts) \<in> set h'))
     (createOrUpdate fetch asSts QStoreSts mutate) j h" for fetch mutate j h
    unfolding createOrUpdate_def wpa_bindA
    by (rule wpa_mono [OF wpa_trivial])
      (auto simp: wpa_bindA wpa_callA asSts_Inr intro!: wpa_mono [OF wpa_trivial])
  show ?thesis
    unfolding reconcileOwned_def wpa_withI wpa_bindA wpa_thenA wpa_wrapA
    by (rule wpa_mono [OF wpa_trivial])
      (auto intro!: wpa_mono [OF wpa_trivial] wpa_mono [OF store])
qed

lemma reconcileOwned_reaches:
  assumes sync: "inSync i j h" and may: "mayServe i (set h) (upgrade_of j)"
  shows "wpa echoes (stageOrder i)
    (\<lambda>r j' h'. reaches i h (upgrade_of j) r j' h' \<and> ((\<exists>sts. r = Inr sts \<and> stsReady sts) \<longrightarrow> sawReady (set h')))
    (reconcileOwned L) j h"
proof -
  have foot: "emits (\<lambda>q. staged q \<longrightarrow> (\<exists>s. q = QStoreSts s)) (reconcileOwned L)"
    unfolding reconcileOwned_def by (intro emit) auto
  have st: "steady front (reconcileOwned L)"
    unfolding reconcileOwned_def by (intro keep) auto
  have "wpa echoes (stageOrder i)
     (\<lambda>r j' h'. inSync i j' h' \<and> upgrade_of j' = upgrade_of j \<and> set h \<subseteq> set h'
        \<and> (\<forall>sts. r = Inr sts \<longrightarrow> (\<exists>s. (QStoreSts s, RSts sts) \<in> set h')) \<and> True) (reconcileOwned L) j h"
  proof (rule steady_stretch [OF st sync wpa_mono [OF wpa_conj [OF reconcileOwned_result emits_wpa [OF foot]]]])
    fix h' q
    assume "staged q \<longrightarrow> (\<exists>s. q = QStoreSts s)" "staged q" "set h \<subseteq> set h'"
      "upgrade_of (stored i h') = upgrade_of j"
    then show "stageOrder i h' q" using mayServe_mono [OF may] by auto
  qed auto
  then show ?thesis
  proof (rule wpa_mono)
    fix r :: "error + StatefulSet" and j' h'
    assume "inSync i j' h' \<and> upgrade_of j' = upgrade_of j \<and> set h \<subseteq> set h'
        \<and> (\<forall>sts. r = Inr sts \<longrightarrow> (\<exists>s. (QStoreSts s, RSts sts) \<in> set h')) \<and> True"
    then show "reaches i h (upgrade_of j) r j' h' \<and> ((\<exists>sts. r = Inr sts \<and> stsReady sts) \<longrightarrow> sawReady (set h'))"
      unfolding sawReady_def reaches_def by (blast intro: inSync_ahead)
  qed
qed

lemma reaches_ahead: "reaches i h U r j h' \<Longrightarrow> ahead i j h'"
  by (cases r) (auto simp: reaches_def intro: inSync_ahead)

lemma quiet_ahead:
  "inSync i j h \<Longrightarrow> steady front m \<Longrightarrow> emits (\<lambda>q. \<not> staged q) m
   \<Longrightarrow> wpa echoes (stageOrder i) (\<lambda>r j' h'. ahead i j' h') m j h"
  by (rule wpa_mono [OF quiet]) (auto intro: reaches_ahead)

lemma front_status [simp]:
  "front (upd_status (\<lambda>s. s\<lparr>st_phase := ph\<rparr>) j) = front j"
  "front (availableEdit L st rs msg j) = front j"
  "front (upd_status (\<lambda>s. s\<lparr>st_message := m\<rparr>) j) = front j"
  "front (upd_status (\<lambda>s. s\<lparr>st_firebirdVersion := v\<rparr>) j) = front j"
  "front (upd_status (recordDatabases removed pending warning) j) = front j"
  by (simp_all add: front_def availableEdit_def recordDatabases_def Let_def)

lemma reportReady_ahead:
  assumes "inSync i j h" and "mayServe i (set h) (upgrade_of j)" and "sawReady (set h)"
  shows "wpa echoes (stageOrder i) (\<lambda>r j' h'. ahead i j' h') (reportReady L) j h"
proof -
  let ?rest = "thenA (setPhase phaseReady)
    (setAvailable L ''True'' ''StatefulSetReady'' ''Firebird instance is ready'')"
  have "wpa echoes (stageOrder i) (\<lambda>r j' h'. ahead i j' h') ?rest j' h'" if "inSync i j' h'" for j' h'
    using that by (rule quiet_ahead) (intro keep emit; simp)+
  then show ?thesis
    unfolding reportReady_def wpa_thenA [of _ _ _ finishMajorUpgrade]
    by (intro wpa_mono [OF finishMajorUpgrade_reaches [OF assms]]) (auto simp: reaches_def)
qed

lemma reportNotReady_ahead:
  assumes "inSync i j h"
  shows "wpa echoes (stageOrder i) (\<lambda>r j' h'. ahead i j' h') (reportNotReady L) j h"
  unfolding reportNotReady_def using assms by (rule quiet_ahead) (intro keep emit; simp)+

lemma reconcileServer_ahead:
  assumes sync: "inSync i j h" and may: "mayServe i (set h) (upgrade_of j)"
    and ready: "stsReady sts \<longrightarrow> sawReady (set h)"
  shows "wpa echoes (stageOrder i) (\<lambda>r j' h'. ahead i j' h') (reconcileServer L sts) j h"
proof -
  let ?body = "thenA (reconcileDatabases (sts_readyReplicas sts))
    (whenA (stsReady sts) (thenA (reconcileScheduledBackups L) reconcileFirebirdVersion))"
  let ?report = "withI (\<lambda>i. if stsReady sts \<and> length (spec_databases i) \<le> length (status_databases i)
       then reportReady L else reportNotReady L)"
  have body: "wpa echoes (stageOrder i) (reaches i h (upgrade_of j)) ?body j h"
    using sync by (rule quiet) (intro keep emit; simp)+
  have "wpa echoes (stageOrder i) (\<lambda>r j' h'. ahead i j' h') ?report j' h'"
    if "reaches i h (upgrade_of j) (Inr ()) j' h'" for j' h'
  proof -
    have "inSync i j' h'" "upgrade_of j' = upgrade_of j" "set h \<subseteq> set h'"
      using that by (auto simp: reaches_def)
    then show ?thesis
      using may ready mayServe_mono [of i "set h" _ "set h'"] sawReady_mono [of "set h" "set h'"]
      by (auto simp: wpa_withI wpa_If intro: reportReady_ahead reportNotReady_ahead)
  qed
  then have "wpa echoes (stageOrder i) (\<lambda>r j' h'. ahead i j' h') (thenA ?body ?report) j h"
    unfolding wpa_thenA [of _ _ _ ?body] by (intro wpa_mono [OF body]) (auto intro: reaches_ahead)
  then show ?thesis
    unfolding reconcileServer_def by (simp add: wpa_thenA)
qed

lemma reconcileInstance_ahead:
  assumes sync: "inSync i j h" and dbs: "status_databases j = status_databases i"
  shows "wpa echoes (stageOrder i) (\<lambda>r j' h'. ahead i j' h') (reconcileInstance L fuel) j h"
proof -
  have serve: "wpa echoes (stageOrder i) (\<lambda>r j' h'. ahead i j' h') (bindA (reconcileOwned L) (reconcileServer L)) j' h'"
    if "inSync i j' h'" "mayServe i (set h') (upgrade_of j')" for j' h'
    unfolding wpa_bindA
  proof (rule wpa_mono [OF reconcileOwned_reaches [OF that]])
    fix r :: "error + StatefulSet" and k h''
    assume a: "reaches i h' (upgrade_of j') r k h'' \<and> ((\<exists>sts. r = Inr sts \<and> stsReady sts) \<longrightarrow> sawReady (set h''))"
    show "(\<forall>e. r = Inl e \<longrightarrow> ahead i k h'') \<and>
       (\<forall>sts. r = Inr sts \<longrightarrow> wpa echoes (stageOrder i) (\<lambda>r j' h'. ahead i j' h') (reconcileServer L sts) k h'')"
    proof (intro conjI allI impI)
      show "ahead i k h''" using a reaches_ahead by blast
      fix sts assume "r = Inr sts"
      with a that(2) show "wpa echoes (stageOrder i) (\<lambda>r j' h'. ahead i j' h') (reconcileServer L sts) k h''"
        by (intro reconcileServer_ahead) (auto simp: reaches_def intro: mayServe_mono)
    qed
  qed auto
  have upgrade: "wpa echoes (stageOrder i) (\<lambda>r j' h'. ahead i j' h')
     (bindA (reconcileMajorUpgrade L) (\<lambda>handled. if handled then ok () else bindA (reconcileOwned L) (reconcileServer L)))
     j' h'" if "inSync i j' h'" "status_databases j' = status_databases i" for j' h'
    unfolding wpa_bindA [of _ _ _ "reconcileMajorUpgrade L"]
    by (rule wpa_mono [OF reconcileMajorUpgrade_cleared [OF that]])
      (auto simp: cleared_def wpa_ok intro: serve)
  have "wpa echoes (stageOrder i)
     (\<lambda>r j' h'. reaches i h (upgrade_of j) r j' h' \<and> status_databases j' = status_databases j)
     (reconcileSysdbaSecret fuel) j h"
    using sync by (rule quiet_reaches [where f = status_databases]) (intro keep emit; simp)+
  then show ?thesis
    unfolding reconcileInstance_def wpa_thenA
    by (rule wpa_mono) (use dbs in \<open>auto simp: reaches_def intro: upgrade\<close>)
qed

lemma conclude_ahead:
  assumes "ahead i j h"
  shows "wpa echoes (stageOrder i) (\<lambda>_ _ _. True) (conclude L r) j h"
proof -
  have "wpa echoes (stageOrder i) (\<lambda>_ _ _. True) (setProgress m) j h"
    and "wpa echoes (stageOrder i) (\<lambda>_ _ _. True) (setError L err) j h" for m err
    using assms by (auto simp: ahead_def ident_def errorEdit_def
        intro!: progress.writer_echo reconcile_error.writer_echo)
  then show ?thesis
    unfolding conclude_def by (auto simp: wprule split: option.splits)
qed

lemma reconcileFound_order:
  assumes "\<not> in_deleting i"
  shows "wpa echoes (stageOrder i) (\<lambda>_ _ _. True) (reconcileFound L fuel) i []"
proof -
  have sync: "inSync i i []" by (simp add: inSync_def agrees_def)
  have "wpa echoes (stageOrder i)
     (\<lambda>r j' h'. reaches i [] (upgrade_of i) r j' h' \<and> status_databases j' = status_databases i)
     (ensureFinalizer L) i []"
    using sync unfolding ensureFinalizer_def
    by (rule quiet_reaches [where f = status_databases])
      (intro keep emit; simp add: front_def)+
  then show ?thesis
    unfolding reconcileFound_def using assms
    by (simp add: wpa_withI wpa_thenA wpa_tryA)
      (erule wpa_mono, auto simp: reaches_def
        intro!: wpa_mono [OF reconcileInstance_ahead] conclude_ahead)
qed

lemma stage_run:
  assumes "steps (Reconcile L fuel req) ((QGetInstance req, RInstance i) # pre @ (q, a) # post) p"
    and "\<not> in_deleting i" and "honest (pre @ (q, a) # post)"
  shows "stageOrder i (rev pre) q"
  by (rule Reconcile_guard [OF assms(1) reconcileFound_order [OF assms(2)]])
    (simp add: answered_echoes assms(3))

section \<open>A sample run\<close>

text \<open>The server runs 4.0.3 and 5.0.1 is asked for; it stands still and the backup pod has succeeded.\<close>

definition outdated :: Instance where
  "outdated = sampleInstance ''5.0.1''"

definition upgradeCluster :: "event list \<Rightarrow> request \<Rightarrow> answer" where
  "upgradeCluster = cluster outdated (Some (sampleSts ''firebird:4.0.3'' 0)) (Some (finishedPod PodSucceeded))"

definition upgradeRun :: "event list" where
  "upgradeRun = runOf upgradeCluster sampleReconcile"

lemma upgradeRun_steps:
  "\<exists>res. steps sampleReconcile ((QGetInstance (''ns'', ''db''), RInstance outdated) # upgradeRun) (Ret res)"
  unfolding upgradeRun_def
  by (rule exI, rule runOf_steps [OF _ refl]) (simp add: upgradeCluster_def)

lemma upgradeRun_honest: "honest upgradeRun"
  unfolding upgradeRun_def upgradeCluster_def by (rule runOf_honest)

lemma outdated_decision: "decideUpgrade ''4.0.3'' ''5.0.1'' True = StartUpgrade"
  by code_simp

lemma outdated_server: "statefulSetFirebirdVersion (sampleSts ''firebird:4.0.3'' 0) = ''4.0.3''"
  by code_simp

lemmas upgradeRun_defs =
  upgradeRun_def upgradeCluster_def outdated_def outdated_decision outdated_server code_defs act_defs
  sample_defs phaseReady_def layout

lemma upgradeRun_at:
  "26 < length upgradeRun" "isDeletePvc (''ns'', ''db-primary'') (fst (upgradeRun ! 9))"
  "isStoreSts (fst (upgradeRun ! 26))" "isUpdateStatus (fst (upgradeRun ! 7))"
  by (simp add: upgradeRun_defs)+

lemma outdated_alive: "\<not> in_deleting outdated"
  by (simp add: outdated_def sample_defs)

section \<open>Properties\<close>

text \<open>C7: A live instance loses a volume only to an upgrade that is recorded as Releasing for the
  version the spec asks for, while the server seen at the start of the run still runs another
  version, and only its own primary or shadow volume. Stated for every run of Reconcile, cut off
  anywhere.\<close>

theorem upgrade_release_guarded:
  assumes "steps (Reconcile L fuel req)
      ((QGetInstance req, RInstance i) # pre @ (QDeletePvc k, a) # post) p"
    and "\<not> in_deleting i" and "honest (pre @ (QDeletePvc k, a) # post)"
  shows "ownStorage i k \<and> mayRelease i (set pre) (upgrade_of (stored i (rev pre)))"
  using stage_run [OF assms] by simp

theorem upgrade_release_guarded_witness:
  "\<exists>pre k a post. upgradeRun = pre @ (QDeletePvc k, a) # post
     \<and> mayRelease outdated (set pre) (upgrade_of (stored outdated (rev pre)))"
proof -
  obtain res where run: "steps sampleReconcile
      ((QGetInstance (''ns'', ''db''), RInstance outdated) # upgradeRun) (Ret res)"
    using upgradeRun_steps by blast
  have "9 < length upgradeRun" using upgradeRun_at(1) by simp
  from run_at [where P = "isDeletePvc (''ns'', ''db-primary'')", OF this upgradeRun_at(2)]
  obtain pre a post where tr: "upgradeRun = pre @ (QDeletePvc (''ns'', ''db-primary''), a) # post"
    by (auto dest: isDeletePvcD)
  from upgrade_release_guarded [OF run [unfolded tr] outdated_alive upgradeRun_honest [unfolded tr]]
  show ?thesis using tr by blast
qed

text \<open>An upgrade that goes on keeps its versions and never goes back a stage.\<close>

definition forward :: "UpgradeStatus option \<Rightarrow> UpgradeStatus option \<Rightarrow> bool" where
  "forward u u' =
     (case (u, u') of
        (Some v, Some v') \<Rightarrow> up_stage v \<le> up_stage v' \<and> up_fromVersion v' = up_fromVersion v \<and> up_toVersion v' = up_toVersion v
      | _ \<Rightarrow> True)"

lemma advance_forward: "advance i E u u' \<Longrightarrow> forward u u'"
  by (induction rule: advance.induct)
    (auto simp: forward_def less_eq_UpgradeStage_def stageRank_def split: option.split)

text \<open>C5: The stages of an upgrade: whatever a reconcile of a live instance writes to the status either
  leaves status.upgrade as it is stored or moves it one step along BackingUp, Releasing, Restoring
  and out, with what the run must have seen for that step: a server that needs the upgrade, the
  backup, the old volumes gone (or the server already on the new version), the server ready. The one
  step that skips stages: when no StatefulSet was found in the run and the server it then stored is
  ready, the upgrade is taken as finished from whatever stage it is in. An upgrade that goes on keeps
  its versions and never goes back a stage.\<close>

theorem upgrade_stages_in_order:
  assumes "steps (Reconcile L fuel req)
      ((QGetInstance req, RInstance i) # pre @ (QUpdateStatus j, a) # post) p"
    and "\<not> in_deleting i" and "honest (pre @ (QUpdateStatus j, a) # post)"
  shows "advance i (set pre) (upgrade_of (stored i (rev pre))) (upgrade_of j)
    \<and> forward (upgrade_of (stored i (rev pre))) (upgrade_of j)"
  using stage_run [OF assms] by (auto intro: advance_forward)

theorem upgrade_stages_in_order_witness:
  "\<exists>pre j a post. upgradeRun = pre @ (QUpdateStatus j, a) # post
     \<and> advance outdated (set pre) (upgrade_of (stored outdated (rev pre))) (upgrade_of j)"
proof -
  obtain res where run: "steps sampleReconcile
      ((QGetInstance (''ns'', ''db''), RInstance outdated) # upgradeRun) (Ret res)"
    using upgradeRun_steps by blast
  have "7 < length upgradeRun" using upgradeRun_at(1) by simp
  from run_at [where P = isUpdateStatus, OF this upgradeRun_at(4)]
  obtain pre j a post where tr: "upgradeRun = pre @ (QUpdateStatus j, a) # post"
    by (auto dest: isUpdateStatusD)
  from upgrade_stages_in_order [OF run [unfolded tr] outdated_alive upgradeRun_honest [unfolded tr]]
  show ?thesis using tr by blast
qed



end
