(* ===== verification/Lifecycle.thy ===== *)
theory Lifecycle
  imports Deletion Staging
begin

text \<open>
  An instance over its life: any number of reconciles, each cut off anywhere or complete, and edits of
  everything but the status between them. What a release of storage needs is followed from the run
  that took the backup to the run that deletes the volume.
\<close>

section \<open>Lives\<close>

definition pastBackup :: "UpgradeStatus option \<Rightarrow> bool" where
  "pastBackup u = (case u of None \<Rightarrow> False | Some v \<Rightarrow> up_stage v \<noteq> BackingUp)"

text \<open>
  \<open>E\<close> is a ghost: the events of the run that took the instance past the stage \<open>BackingUp\<close>. A run
  starts from the instance as it is stored, and leaves what it stored.
\<close>

inductive life :: "lib \<Rightarrow> nat \<Rightarrow> Instance \<Rightarrow> event set \<Rightarrow> bool" for L fuel where
  born: "upgrade_of i = None \<Longrightarrow> life L fuel i {}"
| edited: "life L fuel i E \<Longrightarrow> in_status j = in_status i \<Longrightarrow> in_key j = in_key i \<Longrightarrow> life L fuel j E"
| ran: "life L fuel i E
    \<Longrightarrow> steps (Reconcile L fuel (in_key i)) ((QGetInstance (in_key i), RInstance i) # tr) p
    \<Longrightarrow> honest tr
    \<Longrightarrow> life L fuel (stored i (rev tr))
          (if pastBackup (upgrade_of (stored i (rev tr))) \<and> \<not> pastBackup (upgrade_of i) then set tr else E)"

section \<open>Within a run\<close>

lemma honest_append: "honest (xs @ ys) \<longleftrightarrow> honest xs \<and> honest ys"
  by (simp add: honest_def)

lemma advance_pastBackup:
  "advance i E u u' \<Longrightarrow> pastBackup u' \<Longrightarrow> pastBackup u \<or> backupDone i E"
  by (cases rule: advance.cases) (auto simp: pastBackup_def)

lemma stored_key_upgrade:
  assumes "steps (Reconcile L fuel req) ((QGetInstance req, RInstance i) # tr) p"
    and "\<not> in_deleting i" and "honest tr" and "tr = pre @ post"
  shows "in_key (stored i (rev pre)) = in_key i
    \<and> (pastBackup (upgrade_of (stored i (rev pre))) \<longrightarrow> pastBackup (upgrade_of i) \<or> backupDone i (set pre))"
  using assms(4)
proof (induction pre arbitrary: post rule: rev_induct)
  case Nil
  then show ?case by simp
next
  case (snoc ev pre)
  obtain q a where ev: "ev = (q, a)" by (cases ev)
  have tr: "tr = pre @ (q, a) # post" using snoc.prems by (simp add: ev)
  have order: "stageOrder i (rev pre) q"
    by (rule stage_run [OF assms(1) [unfolded tr] assms(2)]) (use assms(3) tr in simp)
  have echo: "echo q a" using assms(3) by (simp add: tr honest_append)
  have IH: "in_key (stored i (rev pre)) = in_key i
    \<and> (pastBackup (upgrade_of (stored i (rev pre))) \<longrightarrow> pastBackup (upgrade_of i) \<or> backupDone i (set pre))"
    using snoc.IH [of "(q, a) # post"] tr by simp
  have mono: "backupDone i (set pre) \<Longrightarrow> backupDone i (set (pre @ [ev]))"
    by (erule backupDone_mono) auto
  show ?case
  proof (cases "stored i (rev (pre @ [ev])) = stored i (rev pre)")
    case True
    then show ?thesis using IH mono by auto
  next
    case False
    then obtain j where "a = RInstance j" and q: "q = QUpdateStatus j \<or> q = QUpdateInstance j"
      using echo by (cases q; cases a) (auto simp: ev)
    then have stored: "stored i (ev # rev pre) = j" by (auto simp: ev)
    from q show ?thesis
    proof
      assume "q = QUpdateStatus j"
      with order have "ident j = ident i"
        and adv: "advance i (set pre) (upgrade_of (stored i (rev pre))) (upgrade_of j)" by simp_all
      then show ?thesis using IH mono advance_pastBackup [OF adv] by (auto simp: stored ident_def)
    next
      assume "q = QUpdateInstance j"
      with order have "ident j = ident i" and "upgrade_of j = upgrade_of (stored i (rev pre))" by simp_all
      then show ?thesis using IH mono by (auto simp: stored ident_def)
    qed
  qed
qed

lemma steady_upgrade_deletion: "steady upgrade_of (reconcileDeletion L)"
  unfolding reconcileDeletion_def deletionSteps_def finalBackup_def removeFinalizer_def dropFinalizer_def
  by (intro keep; simp)

lemma steady_key_deletion: "steady in_key (reconcileDeletion L)"
  unfolding reconcileDeletion_def deletionSteps_def finalBackup_def removeFinalizer_def dropFinalizer_def
  by (intro keep; simp)

lemma stored_same:
  "list_all (\<lambda>(q, r). sameIn f (f i) q \<and> echo q r) h \<Longrightarrow> f (stored i h) = f i"
  by (induction h) (auto intro: stored_step)

text \<open>A deletion leaves the stage and the name of what is stored.\<close>

lemma deletion_stored:
  assumes "steady f (reconcileDeletion L)" and "in_deleting i"
    and "steps (Reconcile L fuel req) ((QGetInstance req, RInstance i) # tr) p" and "honest tr"
  shows "f (stored i (rev tr)) = f i"
proof (rule stored_same)
  have "wpa echoes (\<lambda>_. sameIn f (f i)) (\<lambda>_ _ _. True) (reconcileFound L fuel) i []"
    using assms(1) by (auto simp: deleting_found [OF assms(2)] steady_def intro: wpa_mono)
  moreover have "answered echoes [] tr" using assms(4) by (simp add: answered_echoes)
  ultimately have "sameIn f (f i) q" if "(q, r) \<in> set tr" for q r
    using that assms(3) by (metis Reconcile_guard split_list)
  then show "list_all (\<lambda>(q, r). sameIn f (f i) q \<and> echo q r) (rev tr)"
    using assms(4) by (auto simp: list_all_iff honest_def)
qed

section \<open>Over a life\<close>

lemma life_backedUp:
  "life L fuel i E \<Longrightarrow> pastBackup (upgrade_of i) \<Longrightarrow> backupDone i E"
proof (induction rule: life.induct)
  case (born i)
  then show ?case by (simp add: pastBackup_def)
next
  case (edited i E j)
  then have "backupDone i E" by simp
  then show ?case using edited(3) by (simp add: evidence_defs layout)
next
  case (ran i E tr p)
  let ?j = "stored i (rev tr)"
  have key: "in_key ?j = in_key i \<and> (pastBackup (upgrade_of ?j) \<longrightarrow> pastBackup (upgrade_of i) \<or> backupDone i (set tr))"
  proof (cases "in_deleting i")
    case True
    then show ?thesis
      using deletion_stored [OF steady_key_deletion True ran(2,3)]
        deletion_stored [OF steady_upgrade_deletion True ran(2,3)] by simp
  next
    case False
    from stored_key_upgrade [OF ran(2) False ran(3), of tr "[]"] show ?thesis by simp
  qed
  then have same: "backupDone ?j = backupDone i"
    by (auto simp: evidence_defs layout fun_eq_iff)
  show ?case using ran(4,5) key by (cases "pastBackup (upgrade_of i)") (auto simp: same)
qed

text \<open>C1: No data is lost to an upgrade or to a deletion that asks for a backup, over any number of
  reconciles, crashes, failed writes and edits of the spec: whenever a reconcile deletes a volume,
  the run that took the instance past the stage BackingUp, or the present one, has seen the backup
  pod succeed while the server was stopped (or that there was no StatefulSet to back up).\<close>

theorem volumes_go_after_backup:
  assumes "life L fuel i E"
    and "steps (Reconcile L fuel (in_key i))
           ((QGetInstance (in_key i), RInstance i) # pre @ (QDeletePvc k, a) # post) p"
    and "honest (pre @ (QDeletePvc k, a) # post)"
    and "in_deleting i \<longrightarrow> backupVolumeSpec i \<noteq> None \<and> backupOnDelete i"
  shows "ownStorage i k \<and> (backupDone i E \<or> backupDone i (set pre))"
proof (cases "in_deleting i")
  case True
  have order: "deletionOrder i (rev pre) (QDeletePvc k)"
    by (rule deletion_run [OF assms(2) True assms(3)])
  show ?thesis
  proof (cases "finalBackupWanted i")
    case True
    with order show ?thesis by simp
  next
    case False
    then have "pastBackup (upgrade_of i)"
      using assms(4) \<open>in_deleting i\<close>
      by (auto simp: finalBackupWanted_def backedUpAlready_def pastBackup_def split: option.splits)
    with order life_backedUp [OF assms(1)] show ?thesis by simp
  qed
next
  case False
  have order: "stageOrder i (rev pre) (QDeletePvc k)"
    by (rule stage_run [OF assms(2) False assms(3)])
  then have "pastBackup (upgrade_of (stored i (rev pre)))"
    by (auto simp: mayRelease_def pastBackup_def)
  then have "pastBackup (upgrade_of i) \<or> backupDone i (set pre)"
    using stored_key_upgrade [OF assms(2) False assms(3), of pre "(QDeletePvc k, a) # post"] by simp
  with order life_backedUp [OF assms(1)] show ?thesis by auto
qed

theorem volumes_go_after_backup_witness:
  "\<exists>pre k a post. upgradeRun = pre @ (QDeletePvc k, a) # post \<and> backupDone outdated (set pre)"
proof -
  have key: "in_key outdated = (''ns'', ''db'')" and none: "upgrade_of outdated = None"
    by (simp_all add: outdated_def sample_defs)
  obtain res where run: "steps (Reconcile sampleLib 1 (in_key outdated))
      ((QGetInstance (in_key outdated), RInstance outdated) # upgradeRun) (Ret res)"
    using upgradeRun_steps unfolding key by blast
  have "9 < length upgradeRun" using upgradeRun_at(1) by simp
  from run_at [where P = "isDeletePvc (''ns'', ''db-primary'')", OF this upgradeRun_at(2)]
  obtain pre a post where tr: "upgradeRun = pre @ (QDeletePvc (''ns'', ''db-primary''), a) # post"
    by (auto dest: isDeletePvcD)
  have alive: "in_deleting outdated \<longrightarrow> backupVolumeSpec outdated \<noteq> None \<and> backupOnDelete outdated"
    using outdated_alive by simp
  from volumes_go_after_backup [OF life.born [OF none] run [unfolded tr] upgradeRun_honest [unfolded tr] alive]
  have "backupDone outdated (set pre)" by (auto simp: evidence_defs)
  then show ?thesis using tr by blast
qed

section \<open>An upgrade without its server\<close>
















end
