(* ===== verification/Provisioning.thy ===== *)
theory Provisioning
  imports Samples
begin

text \<open>
  What \<open>reconcileDatabases\<close> may run in the pod, and what it has achieved when it returns: no database
  is created or restored over one that is there, nothing declared is dropped, and the status lists
  exactly the declared databases, each of which was found, restored or created.
\<close>

section \<open>What may be run\<close>

text \<open>The commands of a pass that started from \<open>i\<close>, each with what must have been seen before it.\<close>

inductive allowedExec :: "Instance \<Rightarrow> event set \<Rightarrow> string list \<Rightarrow> string option \<Rightarrow> bool" for i E where
  look: "db \<in> set (pendingDatabases i) \<Longrightarrow> f = primaryPath (db_name db) \<or> f = backupPath (db_name db)
    \<Longrightarrow> allowedExec i E [''test'', ''-f'', f] (Some [])"
| list: "pendingDatabases i \<noteq> [] \<Longrightarrow> backupVolumeSpec i \<noteq> None \<Longrightarrow> allowedExec i E listBackupsCommand None"
| drop: "name \<in> set (removedDatabases i)
    \<Longrightarrow> allowedExec i E (sysdbaCommand pw @ [primaryPath name]) (Some databaseDropScript)"
| restore: "db \<in> set (pendingDatabases i) \<Longrightarrow> backupVolumeSpec i \<noteq> None
    \<Longrightarrow> fileAbsent i (primaryPath (db_name db)) E \<Longrightarrow> filePresent i (backupPath (db_name db)) E
    \<Longrightarrow> allowedExec i E (restoreCommand pw db) (Some [])"
| shadow: "db \<in> set (pendingDatabases i) \<Longrightarrow> db_shadow db \<Longrightarrow> ran i (restoreCommand pw db) (Some []) E
    \<Longrightarrow> allowedExec i E (sysdbaCommand pw @ [primaryPath (db_name db)]) (Some (restoreShadowScript db))"
| create: "db \<in> set (pendingDatabases i) \<Longrightarrow> fileAbsent i (primaryPath (db_name db)) E
    \<Longrightarrow> backupVolumeSpec i = None \<or> fileAbsent i (backupPath (db_name db)) E
    \<Longrightarrow> allowedExec i E (sysdbaCommand pw) (Some (databaseCreateScript db))"

fun provisionOrder :: "Instance \<Rightarrow> event list \<Rightarrow> request \<Rightarrow> bool" where
  "provisionOrder i h (QExec ns pod cmd stdin) =
     (ns = in_namespace i \<and> pod = firebirdPodName i \<and> allowedExec i (set h) cmd stdin)"
| "provisionOrder i h q = True"

text \<open>A database is there when it was found, restored or created.\<close>

definition provisioned :: "Instance \<Rightarrow> event set \<Rightarrow> DatabaseSpec \<Rightarrow> bool" where
  "provisioned i E db =
     (filePresent i (primaryPath (db_name db)) E
      \<or> (\<exists>pw. ran i (restoreCommand pw db) (Some []) E)
      \<or> (\<exists>pw. ran i (sysdbaCommand pw) (Some (databaseCreateScript db)) E))"

lemma provisioned_mono: "provisioned i E db \<Longrightarrow> E \<subseteq> F \<Longrightarrow> provisioned i F db"
  unfolding provisioned_def filePresent_def by (blast intro: ran_mono)

section \<open>The passes\<close>

lemma runRestore_ran:
  assumes "db \<in> set (pendingDatabases i)" and "backupVolumeSpec i \<noteq> None"
    and "fileAbsent i (primaryPath (db_name db)) (set h)" and "filePresent i (backupPath (db_name db)) (set h)"
  shows "wpa A (provisionOrder i) (untouched i h (ran i (restoreCommand pw db) (Some [])))
    (runRestore (firebirdPodName i) pw db) i h"
  unfolding runRestore_def wpa_withI wpa_wrapA using assms
  by (auto simp: untouched_def intro!: wpa_exec allowedExec.restore)

lemma recreateShadow_ok:
  assumes "db \<in> set (pendingDatabases i)" and "ran i (restoreCommand pw db) (Some []) (set h)"
  shows "wpa A (provisionOrder i) (untouched i h (\<lambda>_. True)) (recreateShadow (firebirdPodName i) pw db) i h"
  unfolding recreateShadow_def wpa_withI wpa_whenA wpa_wrapA using assms
  by (auto simp: untouched_def intro!: wpa_exec allowedExec.shadow)

lemma restoreDatabase_provisions:
  assumes "db \<in> set (pendingDatabases i)" and "backupVolumeSpec i \<noteq> None"
    and "fileAbsent i (primaryPath (db_name db)) (set h)" and "filePresent i (backupPath (db_name db)) (set h)"
  shows "wpa A (provisionOrder i)
    (\<lambda>r j h'. untouched i h (\<lambda>E. provisioned i E db) r j h' \<and> r \<noteq> Inr False)
    (thenA (runRestore (firebirdPodName i) pw db)
       (thenA (recreateShadow (firebirdPodName i) pw db) (ok True))) i h"
proof -
  have rest: "wpa A (provisionOrder i)
      (\<lambda>r j h'. untouched i h (\<lambda>E. provisioned i E db) r j h' \<and> r \<noteq> Inr False)
      (thenA (recreateShadow (firebirdPodName i) pw db) (ok True)) i h0"
    if h0: "set h \<subseteq> set h0" "ran i (restoreCommand pw db) (Some []) (set h0)" for h0
    unfolding wpa_thenA wpa_ok
    by (rule wpa_mono [OF recreateShadow_ok [OF assms(1) h0(2)]])
      (use h0 in \<open>auto simp: untouched_def provisioned_def intro: ran_mono\<close>)
  show ?thesis
    unfolding wpa_thenA [of _ _ _ "runRestore _ _ _"]
    by (rule wpa_mono [OF runRestore_ran [OF assms]]) (auto intro!: rest dest: untouchedD)
qed

lemma restore_provisions:
  assumes "db \<in> set (pendingDatabases i)" and "backupVolumeSpec i \<noteq> None"
    and "fileAbsent i (primaryPath (db_name db)) (set h)"
  shows "wpa A (provisionOrder i)
    (\<lambda>r j h'. j = i \<and> set h \<subseteq> set h' \<and>
       (r = Inr True \<longrightarrow> provisioned i (set h') db) \<and>
       (r = Inr False \<longrightarrow> fileAbsent i (backupPath (db_name db)) (set h')))
    (restoreDatabaseIfBackedUp (firebirdPodName i) pw db) i h"
proof -
  have rest: "wpa A (provisionOrder i)
    (\<lambda>r j h'. j = i \<and> set h \<subseteq> set h' \<and>
       (r = Inr True \<longrightarrow> provisioned i (set h') db) \<and>
       (r = Inr False \<longrightarrow> fileAbsent i (backupPath (db_name db)) (set h')))
    (thenA (runRestore (firebirdPodName i) pw db)
       (thenA (recreateShadow (firebirdPodName i) pw db) (ok True))) i h0"
    if "set h \<subseteq> set h0" "filePresent i (backupPath (db_name db)) (set h0)" for h0
    by (rule wpa_mono [OF restoreDatabase_provisions [OF assms(1,2) fileAbsent_mono [OF assms(3) that(1)] that(2)]])
      (use that(1) in \<open>auto simp: untouched_def\<close>)
  show ?thesis
    unfolding restoreDatabaseIfBackedUp_def wpa_withI wpa_bindA wpa_wrapA wpa_If wpa_ok
    by (rule wpa_databaseFileExists) (use assms(1) in \<open>auto intro: allowedExec.look rest\<close>)
qed

lemma createDatabase_provisions:
  assumes "db \<in> set (pendingDatabases i)" and "fileAbsent i (primaryPath (db_name db)) (set h)"
    and "backupVolumeSpec i = None \<or> fileAbsent i (backupPath (db_name db)) (set h)"
  shows "wpa A (provisionOrder i) (untouched i h (\<lambda>E. provisioned i E db))
    (createDatabase (firebirdPodName i) pw db) i h"
  unfolding createDatabase_def wpa_withI wpa_wrapA using assms
  by (auto simp: untouched_def provisioned_def intro!: wpa_exec allowedExec.create)

lemma untouched_trans:
  "set h \<subseteq> set h0 \<Longrightarrow> untouched i h0 P r j h' \<Longrightarrow> untouched i h P r j h'"
  by (auto simp: untouched_def)

lemma provisionDatabase_provisions:
  assumes "db \<in> set (pendingDatabases i)"
  shows "wpa A (provisionOrder i) (untouched i h (\<lambda>E. provisioned i E db))
    (provisionDatabase (firebirdPodName i) pw db) i h"
proof -
  have create: "wpa A (provisionOrder i) (untouched i h (\<lambda>E. provisioned i E db))
      (createDatabase (firebirdPodName i) pw db) i h0"
    if "set h \<subseteq> set h0" "fileAbsent i (primaryPath (db_name db)) (set h0)"
      "backupVolumeSpec i = None \<or> fileAbsent i (backupPath (db_name db)) (set h0)" for h0
    by (rule wpa_mono [OF createDatabase_provisions [OF assms that(2,3)]]) (auto intro: untouched_trans [OF that(1)])
  have absent: "wpa A (provisionOrder i) (untouched i h (\<lambda>E. provisioned i E db))
      (bindA (if backupVolumeSpec i \<noteq> None
                 then wrapA (''failed to restore database '' @ quote (db_name db) @ '' from backup: '')
                        (restoreDatabaseIfBackedUp (firebirdPodName i) pw db)
                 else ok False) (\<lambda>restored.
          if restored then ok () else createDatabase (firebirdPodName i) pw db)) i h0"
    if h0: "set h \<subseteq> set h0" "fileAbsent i (primaryPath (db_name db)) (set h0)" for h0
  proof (cases "backupVolumeSpec i")
    case None
    then show ?thesis using create [OF h0] by (simp add: wprule)
  next
    case (Some vol)
    have "wpa A (provisionOrder i) (untouched i h (\<lambda>E. provisioned i E db))
       (createDatabase (firebirdPodName i) pw db) i h1"
      if "set h0 \<subseteq> set h1" "fileAbsent i (backupPath (db_name db)) (set h1)" for h1
      using create [of h1] that h0 fileAbsent_mono [OF h0(2) that(1)] by auto
    then show ?thesis
      unfolding wpa_bindA wpa_If wpa_wrapA wpa_ok
      by (simp add: Some, intro wpa_mono [OF restore_provisions [OF assms _ h0(2)]])
        (use Some h0(1) in \<open>auto simp: untouched_def\<close>)
  qed
  show ?thesis
    unfolding provisionDatabase_def wpa_withI wpa_bindA [of _ _ _ "wrapA _ _"] wpa_wrapA wpa_If wpa_ok
    by (rule wpa_databaseFileExists)
      (use assms in \<open>auto simp: provisioned_def [of _ "set _"] intro: allowedExec.look absent
        split del: if_split simp del: not_None_eq\<close>)
qed

lemma untouched_bind:
  assumes "wpa A G (untouched i h P) m i h"
    and "\<And>x h'. set h \<subseteq> set h' \<Longrightarrow> P (set h') \<Longrightarrow> wpa A G Q (f x) i h'"
    and "\<And>e h'. set h \<subseteq> set h' \<Longrightarrow> Q (Inl e) i h'"
  shows "wpa A G Q (bindA m f) i h"
  unfolding wpa_bindA by (rule wpa_mono [OF assms(1)]) (auto intro: assms(2,3) dest: untouchedD)

lemma untouched_then:
  assumes "wpa A G (untouched i h P) m i h"
    and "\<And>h'. set h \<subseteq> set h' \<Longrightarrow> P (set h') \<Longrightarrow> wpa A G Q n i h'"
    and "\<And>e h'. set h \<subseteq> set h' \<Longrightarrow> Q (Inl e) i h'"
  shows "wpa A G Q (thenA m n) i h"
  unfolding wpa_thenA by (rule wpa_mono [OF assms(1)]) (auto intro: assms(2,3) dest: untouchedD)

lemma sysdbaPassword_untouched:
  "wpa A (provisionOrder i) (untouched i h (\<lambda>_. True)) sysdbaPassword i h"
  unfolding sysdbaPassword_def Let_def by (auto simp: wprule)

lemma orphanWarning_untouched:
  "wpa A (provisionOrder i) (untouched i h (\<lambda>_. True)) (orphanWarning (firebirdPodName i) (pendingDatabases i)) i h"
  unfolding orphanWarning_def orphanedBackups_def execInPodOutput_def
  by (auto simp: wprule intro: allowedExec.list)

lemma dropDatabases_untouched:
  "set xs \<subseteq> set (removedDatabases i) \<Longrightarrow>
   wpa A (provisionOrder i) (untouched i h (\<lambda>_. True)) (forA xs (dropDatabase (firebirdPodName i) pw)) i h"
proof (induction xs arbitrary: h)
  case Nil
  then show ?case by (simp add: wprule)
next
  case (Cons x xs)
  have "wpa A (provisionOrder i) (untouched i h (\<lambda>_. True)) (dropDatabase (firebirdPodName i) pw x) i h"
    unfolding dropDatabase_def wpa_withI wpa_wrapA using Cons.prems
    by (auto intro!: wpa_exec allowedExec.drop)
  then show ?case
    unfolding forA.simps
    by (rule untouched_then) (use Cons in \<open>auto intro: wpa_mono [OF Cons.IH] untouched_trans\<close>)
qed

lemma provisionAll:
  "set xs \<subseteq> set (pendingDatabases i) \<Longrightarrow>
   wpa A (provisionOrder i) (untouched i h (\<lambda>E. \<forall>db\<in>set xs. provisioned i E db))
     (forA xs (provisionDatabase (firebirdPodName i) pw)) i h"
proof (induction xs arbitrary: h)
  case Nil
  then show ?case by (simp add: wprule)
next
  case (Cons x xs)
  have "x \<in> set (pendingDatabases i)" using Cons.prems by simp
  from provisionDatabase_provisions [OF this] show ?case
    unfolding forA.simps
  proof (rule untouched_then)
    fix h' assume h': "set h \<subseteq> set h'" "provisioned i (set h') x"
    show "wpa A (provisionOrder i) (untouched i h (\<lambda>E. \<forall>db\<in>set (x # xs). provisioned i E db))
      (forA xs (provisionDatabase (firebirdPodName i) pw)) i h'"
    proof (rule wpa_mono [OF Cons.IH])
      fix r j h''
      assume "untouched i h' (\<lambda>E. \<forall>db\<in>set xs. provisioned i E db) r j h''"
      then show "untouched i h (\<lambda>E. \<forall>db\<in>set (x # xs). provisioned i E db) r j h''"
        using h' by (cases r) (auto intro: provisioned_mono)
    qed (use Cons.prems in auto)
  qed auto
qed

section \<open>The whole of reconcileDatabases\<close>

text \<open>What a successful pass leaves.\<close>

definition databasesDone :: "Instance \<Rightarrow> Instance \<Rightarrow> event set \<Rightarrow> bool" where
  "databasesDone i j E =
     (in_spec j = in_spec i \<and> pendingDatabases j = [] \<and> removedDatabases j = []
      \<and> (\<forall>db\<in>set (pendingDatabases i). provisioned i E db))"

lemma recorded:
  "pendingDatabases (upd_status (recordDatabases (removedDatabases i) (pendingDatabases i) w) i) = []"
  "removedDatabases (upd_status (recordDatabases (removedDatabases i) (pendingDatabases i) w) i) = []"
  unfolding pendingDatabases_def removedDatabases_def recordDatabases_def Let_def
  by (auto simp: filter_empty_conv)

lemma reconcileDatabases_done:
  assumes "ready \<noteq> 0"
  shows "wpa echoes (provisionOrder i) (\<lambda>r j h'. r = Inr () \<longrightarrow> databasesDone i j (set h'))
    (reconcileDatabases ready) i h"
proof -
  let ?j = "\<lambda>w. upd_status (recordDatabases (removedDatabases i) (pendingDatabases i) w) i"
  let ?Q = "\<lambda>r j h'. r = Inr () \<longrightarrow> databasesDone i j (set h')"
  have written: "wpa echoes (provisionOrder i) ?Q
      (thenA (modifyI (upd_status (recordDatabases (removedDatabases i) (pendingDatabases i) w))) updateStatus) i h'"
    if "\<forall>db\<in>set (pendingDatabases i). provisioned i (set h') db" for w h'
    using that recorded [of i w]
    by (auto simp: wprule asInstance_Inr databasesDone_def intro: provisioned_mono)
  show ?thesis
  proof (cases "pendingDatabases i = [] \<and> removedDatabases i = []")
    case True
    then show ?thesis using assms
      by (simp add: reconcileDatabases_def wprule Let_def databasesDone_def)
  next
    case False
    have eq: "wpa echoes (provisionOrder i) ?Q (reconcileDatabases ready) i h =
       wpa echoes (provisionOrder i) ?Q
         (bindA sysdbaPassword (\<lambda>password.
             bindA (orphanWarning (firebirdPodName i) (pendingDatabases i)) (\<lambda>warning.
             thenA (forA (removedDatabases i) (dropDatabase (firebirdPodName i) password))
            (thenA (forA (pendingDatabases i) (provisionDatabase (firebirdPodName i) password))
            (thenA (modifyI (upd_status (recordDatabases (removedDatabases i) (pendingDatabases i) warning)))
               updateStatus))))) i h"
      unfolding reconcileDatabases_def wpa_withI Let_def if_not_P [OF assms] if_not_P [OF False] ..
    show ?thesis
      unfolding eq
      by (intro untouched_bind [OF sysdbaPassword_untouched] untouched_bind [OF orphanWarning_untouched]
          untouched_then [OF dropDatabases_untouched [OF subset_refl]]
          untouched_then [OF provisionAll [OF subset_refl]] written) auto
  qed
qed

section \<open>Properties\<close>

text \<open>C3: Nothing is overwritten and nothing declared is dropped: every command reconcileDatabases runs
  goes to the instance's own pod and is one of: looking for a file, listing the backups, dropping a
  recorded database that is no longer declared, restoring a declared, unrecorded one whose file was
  seen to be absent and whose backup was seen to be there, recreating its shadow after a successful
  restore, or creating it when its file and, with a backup volume, its backup were seen to be absent.\<close>

theorem databases_never_overwritten:
  assumes "steps (reconcileDatabases ready i) (pre @ (QExec ns pod cmd stdin, a) # post) p"
    and "honest (pre @ (QExec ns pod cmd stdin, a) # post)"
  shows "ns = in_namespace i \<and> pod = firebirdPodName i \<and> allowedExec i (set pre) cmd stdin"
proof (cases "ready = 0")
  case True
  then show ?thesis using assms(1) by (auto simp: reconcileDatabases_def ok_def elim: steps_RetE)
next
  case False
  have "wp echoes (provisionOrder i) (\<lambda>(r, j) h'. r = Inr () \<longrightarrow> databasesDone i j (set h'))
     (reconcileDatabases ready i) []"
    using reconcileDatabases_done [OF False] by (simp add: wpa_def)
  from wp_guard [OF assms(1) this _ refl] assms(2) show ?thesis
    by (simp add: answered_echoes)
qed

text \<open>One recorded database is no longer declared, one declared is not recorded; the pod has neither
  its file nor a backup.\<close>

definition renamed :: Instance where
  "renamed = upd_status (\<lambda>s. s\<lparr>st_databases := [''old.fdb'']\<rparr>) (sampleInstance ''4.0.3'')"

fun emptyPod :: "event list \<Rightarrow> request \<Rightarrow> answer" where
  "emptyPod h (QExec ns p cmd s) =
     (if hd cmd = ''test'' then RExec [] [] (Some (CodeExit 1 [])) else RExec [] [] None)"
| "emptyPod h q = cluster renamed None None h q"

definition provisionRun :: "event list" where
  "provisionRun = rev (snd (runWith emptyPod (reconcileDatabases 1 renamed) []))"

fun isCreateDatabase :: "DatabaseSpec \<Rightarrow> request \<Rightarrow> bool" where
  "isCreateDatabase db (QExec ns pod cmd s) =
     (ns = ''ns'' \<and> pod = ''db-0'' \<and> cmd = sysdbaCommand ''masterkey'' \<and> s = Some (databaseCreateScript db))"
| "isCreateDatabase db q = False"

lemma isCreateDatabaseD:
  "isCreateDatabase db q \<Longrightarrow> q = QExec ''ns'' ''db-0'' (sysdbaCommand ''masterkey'') (Some (databaseCreateScript db))"
  by (cases q) auto

lemma provision_commands:
  "hd (sysdbaCommand pw) = ''isql''" "hd (sysdbaCommand pw @ x) = ''isql''" "hd listBackupsCommand = ''sh''"
  by (simp_all add: sysdbaCommand_def binIsql_def listBackupsCommand_def)

lemmas provisionRun_defs =
  provisionRun_def reconcileDatabases_def sysdbaPassword_def orphanWarning_def orphanedBackups_def
  execInPodOutput_def execInPod_def dropDatabase_def provisionDatabase_def databaseFileExists_def
  restoreDatabaseIfBackedUp_def createDatabase_def pendingDatabases_def removedDatabases_def Let_def
  renamed_def provision_commands act_defs sample_defs backupVolumeSpec_def sysdbaSecretRefName_def
  firebirdPodName_def mapGet_def

lemma provisionRun_steps:
  "\<exists>j. steps (reconcileDatabases 1 renamed) provisionRun (Ret (Inr (), j))"
proof -
  have "fst (fst (runWith emptyPod (reconcileDatabases 1 renamed) [])) = Inr ()"
    by (simp add: provisionRun_defs)
  then obtain j where "fst (runWith emptyPod (reconcileDatabases 1 renamed) []) = (Inr (), j)"
    by (cases "fst (runWith emptyPod (reconcileDatabases 1 renamed) [])") auto
  from run_steps [OF this] show ?thesis unfolding provisionRun_def by blast
qed

lemma provisionRun_honest: "honest provisionRun"
proof -
  have "echo q (emptyPod h q)" for h q
    using cluster_echo [of q renamed None None h] by (cases q) (auto simp: echo_def)
  from runWith_all [of echo emptyPod "[]", OF this] show ?thesis
    by (simp add: provisionRun_def honest_def)
qed

lemma provisionRun_at:
  "5 < length provisionRun" "isCreateDatabase (sampleDatabase ''a.fdb'') (fst (provisionRun ! 5))"
  by (simp_all add: provisionRun_defs)

theorem databases_never_overwritten_witness:
  "\<exists>pre a post. provisionRun = pre @ (QExec ''ns'' ''db-0'' (sysdbaCommand ''masterkey'')
       (Some (databaseCreateScript (sampleDatabase ''a.fdb''))), a) # post
     \<and> allowedExec renamed (set pre) (sysdbaCommand ''masterkey'')
         (Some (databaseCreateScript (sampleDatabase ''a.fdb'')))"
proof -
  from run_at [where P = "isCreateDatabase (sampleDatabase ''a.fdb'')", OF provisionRun_at]
  obtain pre a post where tr: "provisionRun = pre @ (QExec ''ns'' ''db-0'' (sysdbaCommand ''masterkey'')
       (Some (databaseCreateScript (sampleDatabase ''a.fdb''))), a) # post"
    by (auto dest: isCreateDatabaseD)
  obtain j where "steps (reconcileDatabases 1 renamed) provisionRun (Ret (Inr (), j))"
    using provisionRun_steps by blast
  from databases_never_overwritten [OF this [unfolded tr] provisionRun_honest [unfolded tr]]
  show ?thesis using tr by blast
qed

text \<open>C11: reconcileDatabases converges: when it returns without an error from a ready server, the object
  it leaves records every declared database and no other, every database that was missing from the
  record has been found in the pod, restored or created, and a second pass makes no request at all.\<close>

theorem databases_converge:
  assumes "steps (reconcileDatabases ready i) tr (Ret (Inr (), j))"
    and "honest tr" and "ready \<noteq> 0"
  shows "set (status_databases j) = set (map db_name (spec_databases i))
    \<and> (\<forall>db\<in>set (pendingDatabases i). provisioned i (set tr) db)
    \<and> reconcileDatabases ready j = Ret (Inr (), j)"
proof -
  have "wp echoes (provisionOrder i) (\<lambda>(r, j) h'. r = Inr () \<longrightarrow> databasesDone i j (set h'))
     (reconcileDatabases ready i) []"
    using reconcileDatabases_done [OF assms(3)] by (simp add: wpa_def)
  from wp_result [OF assms(1) this _ refl] assms(2) have fin: "databasesDone i j (set tr)"
    by (simp add: answered_echoes)
  then have none: "pendingDatabases j = []" "removedDatabases j = []" and spec: "in_spec j = in_spec i"
    by (simp_all add: databasesDone_def)
  from none have "set (status_databases j) = set (map db_name (spec_databases j))"
    unfolding pendingDatabases_def removedDatabases_def filter_empty_conv by auto
  moreover have "reconcileDatabases ready j = Ret (Inr (), j)"
    using none by (simp add: reconcileDatabases_def withI_def ok_def Let_def)
  ultimately show ?thesis using fin spec by (simp add: databasesDone_def)
qed

theorem databases_converge_witness:
  "provisioned renamed (set provisionRun) (sampleDatabase ''a.fdb'')"
proof -
  obtain j where run: "steps (reconcileDatabases 1 renamed) provisionRun (Ret (Inr (), j))"
    using provisionRun_steps by blast
  have "pendingDatabases renamed = [sampleDatabase ''a.fdb'']"
    by (simp add: renamed_def sample_defs pendingDatabases_def)
  then show ?thesis using databases_converge [OF run provisionRun_honest] by simp
qed

end
