(* ===== verification/Progress.thy ===== *)
theory Progress
  imports Deletion
begin

text \<open>
  An upgrade gets done: when the cluster goes along, one reconcile takes an instance from any stage to
  \<open>Restoring\<close>, where the rest of the reconcile starts the new version on fresh volumes.
\<close>

section \<open>A cluster that goes along with an upgrade\<close>

text \<open>A claim that was deleted in the run, and not made again since.\<close>

fun goneSince :: "event list \<Rightarrow> nsname \<Rightarrow> bool" where
  "goneSince [] k = False"
| "goneSince ((q, r) # h) k =
     (case q of
        QDeletePvc k' \<Rightarrow> k' = k \<or> goneSince h k
      | QCreatePvc p \<Rightarrow> (om_namespace (pvc_meta p), om_name (pvc_meta p)) \<noteq> k \<and> goneSince h k
      | _ \<Rightarrow> goneSince h k)"

text \<open>Writes are accepted, what is deleted goes or is gone, and a claim that was deleted is gone as soon as it
  is looked for; the server is the StatefulSet \<open>sts\<close>, standing still, and of the backup pod \<open>pod\<close>, if it is
  looked for, is said that it has succeeded.\<close>

fun yielding :: "nsname \<Rightarrow> StatefulSet \<Rightarrow> event list \<Rightarrow> request \<Rightarrow> answer \<Rightarrow> bool" where
  "yielding pod sts h (QUpdateStatus j) r = (r = RInstance j)"
| "yielding pod sts h (QUpdateInstance j) r = (r = RInstance j)"
| "yielding pod sts h (QDeletePvc k) r = gone r"
| "yielding pod sts h (QDeletePod k) r = gone r"
| "yielding pod sts h (QGetSts k) r = (r = RSts sts)"
| "yielding pod sts h (QGetPvc k) r = (goneSince h k \<longrightarrow> (\<exists>e. r = RErr e \<and> isNotFound e))"
| "yielding pod sts h (QGetPod k) r = (k = pod \<longrightarrow> (\<exists>p. r = RPod p \<and> pst_phase (pod_status p) = PodSucceeded))"
| "yielding pod sts h q r = True"

abbreviation backupPodOf :: "Instance \<Rightarrow> nsname" where
  "backupPodOf i \<equiv> (in_namespace i, databaseBackupPodName i)"

abbreviation standsStill :: "StatefulSet \<Rightarrow> bool" where
  "standsStill sts \<equiv> sts_replicas sts = Some 0 \<and> sts_statusReplicas sts = 0"

definition upgradeKept :: "Instance \<Rightarrow> error + unit \<Rightarrow> Instance \<Rightarrow> bool" where
  "upgradeKept i r j =
     (r = Inr () \<and> in_spec j = in_spec i \<and> in_name j = in_name i \<and> in_namespace j = in_namespace i
      \<and> upgrade_of j = upgrade_of i \<and> status_databases j = status_databases i)"

lemma backup_yields:
  assumes "standsStill sts" and "pod = backupPodOf i"
  shows "wpa (yielding pod sts) (\<lambda>_ _. True) (\<lambda>r j h. upgradeKept i r j) (backupDatabases L v) i h"
  unfolding backupDatabases_def backupDatabasesOffline_def deletePod_def using assms
  by (auto simp: wprule deletion.wpa_writer Let_def asSts_Inr asPod_Inr asInstance_Inr gone_asUnit upgradeKept_def
      databaseBackupPodName_def)

lemma release_yields:
  "wpa (yielding pod sts) (\<lambda>_ _. True) (\<lambda>r j h. upgradeKept i r j) releaseStorageForUpgrade i h"
  unfolding releaseStorageForUpgrade_def releasePrimaryAndShadowStorage_def deletePVC_def
  by (auto simp: wprule deletion.wpa_writer asInstance_Inr gone_asUnit upgradeKept_def)


lemma upgradeKeptD: "upgradeKept i r j \<Longrightarrow> r = Inr ()"
  by (simp add: upgradeKept_def)

definition restoring :: "Instance \<Rightarrow> string \<Rightarrow> string list \<Rightarrow> Instance \<Rightarrow> bool" where
  "restoring i from_version dbs j =
     (in_spec j = in_spec i \<and> in_namespace j = in_namespace i \<and> in_name j = in_name i \<and> status_databases j = dbs
      \<and> upgrade_of j = Some \<lparr>up_fromVersion = from_version, up_toVersion = version_of i, up_stage = Restoring\<rparr>)"

abbreviation becomes_restoring :: "Instance \<Rightarrow> string \<Rightarrow> string list \<Rightarrow> 'a \<Rightarrow> error + 'a \<Rightarrow> Instance \<Rightarrow> event list \<Rightarrow> bool" where
  "becomes_restoring i from_version dbs x r j h \<equiv> r = Inr x \<and> restoring i from_version dbs j"

lemma upgradeRelease_yields:
  assumes "upgrade_of i = Some u" and "up_toVersion u = version_of i" and "up_stage u = Releasing"
  shows "wpa (yielding pod sts) (\<lambda>_ _. True) (becomes_restoring i (up_fromVersion u) (status_databases i) ())
    (upgradeRelease sts u) i h"
proof -
  have stage: "wpa (yielding pod sts) (\<lambda>_ _. True) (becomes_restoring i (up_fromVersion u) (status_databases i) ())
      (setUpgradeStage Restoring) j h" if "upgradeKept i r j" for r :: "error + unit" and j h
    using that assms unfolding setUpgradeStage_def withUpgrade_def
    by (cases u) (auto simp: wprule asInstance_Inr upgradeKept_def restoring_def)
  have "wpa (yielding pod sts) (\<lambda>_ _. True) (\<lambda>r j h. upgradeKept i r j)
      (whenA (statefulSetFirebirdVersion sts \<noteq> up_toVersion u) releaseStorageForUpgrade) i h"
    using release_yields by (simp add: wpa_whenA upgradeKept_def)
  then show ?thesis
    unfolding upgradeRelease_def wpa_whenA wpa_thenA
    using assms(3) by (auto elim!: wpa_mono dest: upgradeKeptD intro: stage)
qed

lemma upgradeBackup_yields:
  assumes "standsStill sts" and "upgrade_of i = Some u" and "up_stage u = BackingUp" and "pod = backupPodOf i"
  shows "wpa (yielding pod sts) (\<lambda>_ _. True)
    (\<lambda>r j h. r = Inr () \<and> in_spec j = in_spec i \<and> in_namespace j = in_namespace i \<and> in_name j = in_name i \<and> status_databases j = []
       \<and> upgrade_of j = Some (u\<lparr>up_stage := Releasing\<rparr>)) (upgradeBackup L u) i h"
proof -
  have stage: "wpa (yielding pod sts) (\<lambda>_ _. True)
    (\<lambda>r j h. r = Inr () \<and> in_spec j = in_spec i \<and> in_namespace j = in_namespace i \<and> in_name j = in_name i \<and> status_databases j = []
       \<and> upgrade_of j = Some (u\<lparr>up_stage := Releasing\<rparr>))
      (thenA (modifyI (upd_status clearDatabases)) (setUpgradeStage Releasing)) j h"
    if "upgradeKept i r j" for r :: "error + unit" and j h
    using that assms unfolding setUpgradeStage_def withUpgrade_def
    by (auto simp: wprule asInstance_Inr upgradeKept_def clearDatabases_def)
  show ?thesis
    unfolding upgradeBackup_def wpa_whenA wpa_thenA [where m = "backupDatabases L _"]
    using assms(3) by (auto intro!: wpa_mono [OF backup_yields [OF assms(1,4)]] dest: upgradeKeptD intro: stage)
qed

text \<open>The databases the status lists when the upgrade has got to \<open>Restoring\<close>: none after a backup.\<close>

definition afterwards :: "Instance \<Rightarrow> UpgradeStatus \<Rightarrow> string list" where
  "afterwards i u = (if up_stage u = BackingUp then [] else status_databases i)"

lemma wpa_at_upgrade: "upgrade_of i = Some u \<Longrightarrow> wpa A G Q (withUpgrade f) i h = wpa A G Q (f u) i h"
  by (simp add: withUpgrade_def wprule)

lemma continueUpgrade_yields:
  assumes "standsStill sts" and u: "upgrade_of i = Some u" "up_toVersion u = version_of i" and pod: "pod = backupPodOf i"
  shows "wpa (yielding pod sts) (\<lambda>_ _. True) (becomes_restoring i (up_fromVersion u) (afterwards i u) False)
    (continueUpgrade L sts) i h"
proof (cases "up_stage u")
  case BackingUp
  have release: "wpa (yielding pod sts) (\<lambda>_ _. True)
      (becomes_restoring i (up_fromVersion u) [] ()) (withUpgrade (upgradeRelease sts)) j h"
    if "in_spec j = in_spec i" "in_namespace j = in_namespace i" "in_name j = in_name i" "status_databases j = []" "upgrade_of j = Some (u\<lparr>up_stage := Releasing\<rparr>)" for j h
    using upgradeRelease_yields [of j "u\<lparr>up_stage := Releasing\<rparr>" pod sts h] that u
    unfolding withUpgrade_def by (simp add: wpa_withI wpa_case_option restoring_def)
  show ?thesis
    unfolding continueUpgrade_def wpa_at_upgrade [OF u(1)]
    using u BackingUp
    by (auto simp: wpa_If wpa_withI wpa_thenA wpa_bindA wpa_ok afterwards_def
        intro!: wpa_mono [OF upgradeBackup_yields [OF assms(1) u(1) BackingUp pod]] wpa_mono [OF release])
next
  case Releasing
  with u show ?thesis
    unfolding continueUpgrade_def withUpgrade_def upgradeBackup_def
    by (auto simp: wprule afterwards_def intro!: wpa_mono [OF upgradeRelease_yields [OF u Releasing]])
next
  case Restoring
  with u show ?thesis
    unfolding continueUpgrade_def withUpgrade_def upgradeBackup_def upgradeRelease_def
    by (cases u) (auto simp: wprule afterwards_def restoring_def)
qed


section \<open>The upgrade\<close>

text \<open>The upgrade that is due: the recorded one, to the version of the spec, or the one the StatefulSet
  found makes necessary.\<close>

definition dueUpgrade :: "StatefulSet \<Rightarrow> Instance \<Rightarrow> UpgradeStatus \<Rightarrow> bool" where
  "dueUpgrade sts i u =
     (case upgrade_of i of
        Some v \<Rightarrow> u = v \<and> up_toVersion v = version_of i
      | None \<Rightarrow> u = \<lparr>up_fromVersion = statefulSetFirebirdVersion sts, up_toVersion = version_of i, up_stage = BackingUp\<rparr>
          \<and> decideUpgrade (statefulSetFirebirdVersion sts) (version_of i) (backupVolumeSpec i \<noteq> None) = StartUpgrade)"

lemma startMajorUpgrade_yields:
  assumes "upgrade_of i = None" and "dueUpgrade sts i u"
  shows "wpa (yielding pod sts) (\<lambda>_ _. True)
    (\<lambda>r j h. r = Inr True \<and> j = beginUpgrade (statefulSetFirebirdVersion sts) i) (startMajorUpgrade sts) i h"
  using assms unfolding startMajorUpgrade_def dueUpgrade_def
  by (auto simp: wprule Let_def asInstance_Inr)

lemma reconcileMajorUpgrade_yields:
  assumes "standsStill sts" and "dueUpgrade sts i u" and "pod = backupPodOf i"
  shows "wpa (yielding pod sts) (\<lambda>_ _. True) (becomes_restoring i (up_fromVersion u) (afterwards i u) False)
    (reconcileMajorUpgrade L) i h"
proof (cases "upgrade_of i")
  case None
  let ?j = "beginUpgrade (statefulSetFirebirdVersion sts) i"
  have u: "upgrade_of ?j = Some u" "up_toVersion u = version_of ?j" "in_spec ?j = in_spec i" "up_stage u = BackingUp"
    "pod = backupPodOf ?j" "in_key ?j = in_key i"
    using assms(2,3) None by (auto simp: dueUpgrade_def beginUpgrade_def databaseBackupPodName_def)
  have "wpa (yielding pod sts) (\<lambda>_ _. True) (becomes_restoring i (up_fromVersion u) (afterwards i u) False)
      (continueUpgrade L sts) ?j h'" for h'
    using continueUpgrade_yields [OF assms(1) u(1,2,5)] u by (simp add: restoring_def afterwards_def)
  with None show ?thesis
    unfolding reconcileMajorUpgrade_def
    by (auto simp: wpa_withI wpa_tryA wpa_callA wpa_case_sum wpa_case_option wpa_bindA asSts_Inr
        intro!: wpa_mono [OF startMajorUpgrade_yields [OF None assms(2)]])
next
  case (Some v)
  with assms have "upgrade_of i = Some u" "up_toVersion u = version_of i" "pod = backupPodOf i" by (auto simp: dueUpgrade_def)
  with Some show ?thesis
    unfolding reconcileMajorUpgrade_def
    by (auto simp: wpa_withI wpa_tryA wpa_callA wpa_case_sum wpa_case_option asSts_Inr
        intro!: continueUpgrade_yields [OF assms(1)])
qed

lemma answered_always: "list_all (\<lambda>(q, a). \<forall>h. A h q a) tr \<Longrightarrow> answered A h tr"
  by (induction tr arbitrary: h) auto

text \<open>An upgrade moves on: when it is due, recorded or not, and the cluster goes along (the server stands
  still, the backup pod has succeeded, writes are accepted, what is deleted goes), one run of
  reconcileMajorUpgrade takes it from whatever stage it is in to Restoring and lets the rest of the
  reconcile go on; the recorded versions stay, and after the backup no database counts as created.\<close>

theorem upgrade_moves_on:
  assumes "steps (reconcileMajorUpgrade L i) tr (Ret (r, j))"
    and "dueUpgrade sts i u" and "sts_replicas sts = Some 0" and "sts_statusReplicas sts = 0"
    and "answered (yielding (backupPodOf i) sts) [] tr"
  shows "r = Inr False \<and> in_spec j = in_spec i
    \<and> upgrade_of j = Some (u\<lparr>up_stage := Restoring\<rparr>)
    \<and> status_databases j = (if up_stage u = BackingUp then [] else status_databases i)"
proof -
  have "wp (yielding (backupPodOf i) sts) (\<lambda>_ _. True)
      (\<lambda>(r, j) h. becomes_restoring i (up_fromVersion u) (afterwards i u) False r j h) (reconcileMajorUpgrade L i) []"
    unfolding wpa_def [symmetric] using assms by (simp add: reconcileMajorUpgrade_yields)
  then have "r = Inr False \<and> restoring i (up_fromVersion u) (afterwards i u) j"
    using wp_result [OF assms(1)] assms(5) by fastforce
  moreover have "up_toVersion u = version_of i"
    using assms(2) by (auto simp: dueUpgrade_def split: option.splits)
  ultimately show ?thesis by (cases u) (simp add: restoring_def afterwards_def)
qed

text \<open>A stopped server of version 4, an instance that asks for version 5, and a finished backup pod.\<close>

definition asksForFive :: Instance where "asksForFive = sampleInstance ''5.0.1''"

definition stoppedFour :: StatefulSet where "stoppedFour = sampleSts ''firebird:4.0.3'' 0"

theorem upgrade_moves_on_witness:
  "\<exists>tr j u. steps (reconcileMajorUpgrade sampleLib asksForFive) tr (Ret (Inr False, j))
     \<and> upgrade_of j = Some u \<and> up_fromVersion u = ''4.0.3'' \<and> up_stage u = Restoring \<and> status_databases j = []"
proof -
  let ?env = "cluster asksForFive (Some stoppedFour) (Some (finishedPod PodSucceeded))"
  let ?run = "runWith ?env (reconcileMajorUpgrade sampleLib asksForFive) []"
  obtain r j where "fst ?run = (r, j)" by fastforce
  from run_steps [OF this] have run: "steps (reconcileMajorUpgrade sampleLib asksForFive) (rev (snd ?run)) (Ret (r, j))" .
  have "yielding (backupPodOf asksForFive) stoppedFour h' q (?env h q)" for h' h q
    by (cases q) (auto simp: stoppedFour_def gone_def)
  then have "list_all (\<lambda>(q, a). \<forall>h. yielding (backupPodOf asksForFive) stoppedFour h q a) (rev (snd ?run))"
    using runWith_all [of "\<lambda>q a. \<forall>h. yielding (backupPodOf asksForFive) stoppedFour h q a" ?env "[]"
      "reconcileMajorUpgrade sampleLib asksForFive"] by simp
  then have yields: "answered (yielding (backupPodOf asksForFive) stoppedFour) [] (rev (snd ?run))"
    by (rule answered_always)
  let ?u = "\<lparr>up_fromVersion = ''4.0.3'', up_toVersion = ''5.0.1'', up_stage = BackingUp\<rparr>"
  have "dueUpgrade stoppedFour asksForFive ?u" by code_simp
  moreover have "sts_replicas stoppedFour = Some 0" "sts_statusReplicas stoppedFour = 0"
    by (simp_all add: stoppedFour_def)
  ultimately show ?thesis
    using upgrade_moves_on [OF run _ _ _ yields, of ?u] run by fastforce
qed

end
