(* ===== verification/Desired.thy ===== *)
theory Desired
  imports Samples
begin

text \<open>
  What the objects the operator keeps promise each other: the Service reaches the server and nothing
  else, every mount has its volume and every volume its claim, bringing an object up to date twice
  changes nothing, and volumes and credentials are made once and then left alone.
\<close>

section \<open>Selectors\<close>

lemma selects_iff: "selects sel labels \<longleftrightarrow> (\<forall>k v. sel k = Some v \<longrightarrow> labels k = Some v)"
  by (auto simp: selects_def map_le_def dom_def)

lemma selects_component: "selects (firebirdPodSelector n) labels \<Longrightarrow> labels firebirdComponentLabelKey = Some firebirdComponentValue"
  by (simp add: selects_iff firebirdPodSelector_def)

lemma plain_labels_component:
  "withFirebirdVersionLabel i (labelsForInstance n) firebirdComponentLabelKey = None"
  by (simp add: withFirebirdVersionLabel_def labelsForInstance_def layout)

lemma selector_selects: "selects (firebirdPodSelector n) (firebirdPodSelector m) \<longleftrightarrow> n = m"
  by (auto simp: selects_iff firebirdPodSelector_def labelsForInstance_def layout split: if_splits)

text \<open>C22: Within a namespace, the Service of an instance selects the pods of that instance's StatefulSet,
  of no other instance's, and neither a backup Job's pod nor the final backup pod of any instance; and
  the required affinity that puts a backup Job on the node of the server selects just the same pods.\<close>

theorem service_reaches_the_server_only:
  "(selects (svc_selector (desiredService i svc)) (pt_labels (sts_template (desiredStatefulSet j pw sts)))
      \<longleftrightarrow> in_name j = in_name i)
   \<and> \<not> selects (svc_selector (desiredService i svc)) (pt_labels (cj_template (cj_spec (desiredCronJob j freq cj))))
   \<and> \<not> selects (svc_selector (desiredService i svc)) (om_labels (pod_meta (databaseBackupPod j v)))
   \<and> (\<exists>sel. psp_affinity (pt_spec (cj_template (cj_spec (desiredCronJob i freq cj)))) = [(sel, firebirdNodeTopologyKey)]
         \<and> (selects sel (pt_labels (sts_template (desiredStatefulSet j pw sts))) \<longleftrightarrow> in_name j = in_name i)
         \<and> \<not> selects sel (pt_labels (cj_template (cj_spec (desiredCronJob j freq cj))))
         \<and> \<not> selects sel (om_labels (pod_meta (databaseBackupPod j v))))"
proof -
  have svc: "svc_selector (desiredService i svc) = firebirdPodSelector (in_name i)"
    by (simp add: desiredService_def Let_def)
  have sts: "pt_labels (sts_template (desiredStatefulSet j pw sts)) = firebirdPodSelector (in_name j)"
    by (simp add: desiredStatefulSet_def desiredTemplate_def)
  have job: "pt_labels (cj_template (cj_spec (desiredCronJob j freq cj)))
      = withFirebirdVersionLabel j (labelsForInstance (in_name j))"
    by (simp add: desiredCronJob_def Let_def)
  have affinity: "psp_affinity (pt_spec (cj_template (cj_spec (desiredCronJob i freq cj))))
      = [(firebirdPodSelector (in_name i), firebirdNodeTopologyKey)]"
    by (simp add: desiredCronJob_def Let_def backupJobPodSpec_def)
  have pod: "om_labels (pod_meta (databaseBackupPod j v)) = withFirebirdVersionLabel j (labelsForInstance (in_name j))"
    by (simp add: databaseBackupPod_def freshMeta_def)
  have never: "\<not> selects (firebirdPodSelector (in_name i)) (withFirebirdVersionLabel j (labelsForInstance (in_name j)))"
    using selects_component plain_labels_component by (metis option.distinct(1))
  show ?thesis
    unfolding svc sts job affinity pod using never by (simp add: selector_selects eq_commute)
qed

section \<open>Mounts, volumes and claims\<close>

definition wellMounted :: "Volume list \<Rightarrow> VolumeMount list \<Rightarrow> bool" where
  "wellMounted vols mounts =
     (distinct (map v_name vols) \<and> distinct (map vm_path mounts)
      \<and> set (map vm_name mounts) \<subseteq> set (map v_name vols))"

fun claimOf :: "VolumeSource \<Rightarrow> string list" where
  "claimOf (PVCSource c) = [c]" | "claimOf (ConfigMapSource c) = []"

definition claims :: "Volume list \<Rightarrow> string list" where
  "claims vols = concat (map (\<lambda>v. claimOf (v_source v)) vols)"

text \<open>The volumes \<open>reconcilePVCs\<close> looks after, with their specs.\<close>

definition managedPVCs :: "Instance \<Rightarrow> (string \<times> StorageVolumeSpec) list" where
  "managedPVCs i =
     (primaryPVCName i, sg_primary (sp_storage (in_spec i)))
     # (case backupVolumeSpec i of None \<Rightarrow> [] | Some vol \<Rightarrow> [(backupPVCName i, vol)])
     @ (case sg_shadow (sp_storage (in_spec i)) of None \<Rightarrow> [] | Some vol \<Rightarrow> [(shadowPVCName i, vol)])"

lemma managed_distinct: "distinct (map fst (managedPVCs i))"
  using primary_not_backup [of i i] primary_not_shadow [of i i] shadow_not_backup [of i i]
  by (auto simp: managedPVCs_def split: option.splits)

text \<open>The pods as they are made: the server's, the final backup's, a backup Job's.\<close>

definition serverPod :: "Instance \<Rightarrow> string \<Rightarrow> StatefulSet \<Rightarrow> PodSpec" where
  "serverPod i pw sts = pt_spec (sts_template (desiredStatefulSet i pw sts))"

definition jobPod :: "Instance \<Rightarrow> backupFrequency \<Rightarrow> CronJob \<Rightarrow> PodSpec" where
  "jobPod i freq cj = pt_spec (cj_template (cj_spec (desiredCronJob i freq cj)))"

definition podMounted :: "PodSpec \<Rightarrow> bool" where
  "podMounted p = (\<forall>c\<in>set (psp_containers p @ psp_initContainers p). wellMounted (psp_volumes p) (ct_mounts c))"

text \<open>Where a container has claims mounted.\<close>

definition claimMounts :: "PodSpec \<Rightarrow> Container \<Rightarrow> (string \<times> string) set" where
  "claimMounts p c = (\<Union>m\<in>set (ct_mounts c). \<Union>v\<in>set (psp_volumes p).
     if v_name v = vm_name m then Pair (vm_path m) ` set (claimOf (v_source v)) else {})"

definition primaryMount :: "Instance \<Rightarrow> (string \<times> string) set" where
  "primaryMount i = {(primaryDataMountPath, primaryPVCName i)}"

definition backupMount :: "Instance \<Rightarrow> (string \<times> string) set" where
  "backupMount i = {(backupDataMountPath, backupPVCName i)}"

definition shadowMount :: "Instance \<Rightarrow> (string \<times> string) set" where
  "shadowMount i = (if sg_shadow (sp_storage (in_spec i)) = None then {} else {(shadowDataMountPath, shadowPVCName i)})"

lemmas pod_defs = serverPod_def jobPod_def podMounted_def wellMounted_def claims_def desiredStatefulSet_def
  desiredTemplate_def desiredCronJob_def databaseBackupPod_def statefulSetVolumes_def firebirdContainer_def
  securityInitContainer_def volumeMounts_def backupPodVolumes_def backupPodMounts_def backupJobPodSpec_def
  pvcVolume_def plainMount_def emptyPodSpec_def

lemma pods_mounted: "podMounted (serverPod i pw sts)" "podMounted (pod_spec (databaseBackupPod i v))" "podMounted (jobPod i freq cj)"
  by (simp_all add: pod_defs layout aliasesMountPath_def Let_def)

lemma server_parts:
  "psp_containers (serverPod i pw sts) = [firebirdContainer i]"
  "psp_initContainers (serverPod i pw sts) = [securityInitContainer i]"
  "psp_volumes (serverPod i pw sts) = statefulSetVolumes i"
  by (simp_all add: serverPod_def desiredStatefulSet_def desiredTemplate_def)

lemma server_mounts:
  "claimMounts (serverPod i pw sts) (firebirdContainer i) =
     primaryMount i \<union> (if backupVolumeSpec i = None then {} else backupMount i) \<union> shadowMount i"
  "claimMounts (serverPod i pw sts) (securityInitContainer i) =
     primaryMount i \<union> (if backupVolumeSpec i = None then {} else backupMount i)"
  unfolding claimMounts_def server_parts firebirdContainer_def securityInitContainer_def volumeMounts_def
    statefulSetVolumes_def primaryMount_def backupMount_def shadowMount_def
  by (cases "backupVolumeSpec i"; cases "sg_shadow (sp_storage (in_spec i))";
      simp add: pvcVolume_def plainMount_def layout; fail)+

lemma backup_mounts:
  "\<exists>c. psp_containers (pod_spec (databaseBackupPod i v)) = [c]
     \<and> claimMounts (pod_spec (databaseBackupPod i v)) c = primaryMount i \<union> backupMount i \<union> shadowMount i"
  by (cases "sg_shadow (sp_storage (in_spec i))")
    (simp_all add: claimMounts_def primaryMount_def backupMount_def shadowMount_def databaseBackupPod_def
      backupPodVolumes_def backupPodMounts_def pvcVolume_def plainMount_def layout)

lemma job_mounts:
  "\<exists>c. psp_containers (jobPod i freq cj) = [c] \<and> claimMounts (jobPod i freq cj) c = backupMount i"
  by (simp add: claimMounts_def backupMount_def jobPod_def desiredCronJob_def backupJobPodSpec_def
      pvcVolume_def plainMount_def layout Let_def)

lemma pod_claims:
  "set (claims (psp_volumes (serverPod i pw sts))) = set (map fst (managedPVCs i))"
  "set (claims (psp_volumes (pod_spec (databaseBackupPod i v)))) = insert (backupPVCName i) (set (map fst (managedPVCs i)))"
  "claims (psp_volumes (jobPod i freq cj)) = [backupPVCName i]"
  by (auto simp: managedPVCs_def pod_defs Let_def split: option.splits)

text \<open>C23: In every pod the operator defines (the server with its init container, the final backup pod, a
  backup Job's pod) each mount names a volume of the pod, no two volumes share a name and no two
  mounts of a container a path. The server has the primary claim at the data directory, the backup
  claim, given a backup volume, at the backup directory and the shadow claim, given a shadow, at the
  shadow directory, its init container the first two, the final backup all three, the Job the backup
  claim. The claims of the server's pod are exactly the volumes reconcilePVCs looks after, those of the
  final backup are these with the backup claim.\<close>

theorem pods_are_well_mounted:
  "podMounted (serverPod i pw sts) \<and> podMounted (pod_spec (databaseBackupPod i v)) \<and> podMounted (jobPod i freq cj)
   \<and> (\<exists>server init. psp_containers (serverPod i pw sts) = [server] \<and> psp_initContainers (serverPod i pw sts) = [init]
        \<and> claimMounts (serverPod i pw sts) server =
            primaryMount i \<union> (if backupVolumeSpec i = None then {} else backupMount i) \<union> shadowMount i
        \<and> claimMounts (serverPod i pw sts) init =
            primaryMount i \<union> (if backupVolumeSpec i = None then {} else backupMount i))
   \<and> (\<exists>c. psp_containers (pod_spec (databaseBackupPod i v)) = [c]
        \<and> claimMounts (pod_spec (databaseBackupPod i v)) c = primaryMount i \<union> backupMount i \<union> shadowMount i)
   \<and> (\<exists>c. psp_containers (jobPod i freq cj) = [c] \<and> claimMounts (jobPod i freq cj) c = backupMount i)
   \<and> set (claims (psp_volumes (serverPod i pw sts))) = set (map fst (managedPVCs i))
   \<and> set (claims (psp_volumes (pod_spec (databaseBackupPod i v))))
       = insert (backupPVCName i) (set (map fst (managedPVCs i)))
   \<and> claims (psp_volumes (jobPod i freq cj)) = [backupPVCName i]"
  using pods_mounted server_parts server_mounts backup_mounts job_mounts pod_claims by simp

section \<open>Bringing an object up to date\<close>

text \<open>What \<open>SetControllerReference\<close> is documented to do: it adds the owner reference once, and touches
  nothing else the operator sets.\<close>

definition ownerLaw :: "lib \<Rightarrow> bool" where
  "ownerLaw L =
     (\<forall>i m m'. lib_setControllerReference L i m = Inr m'
        \<longrightarrow> om_labels m' = om_labels m \<and> om_created m' = om_created m
          \<and> lib_setControllerReference L i m' = Inr m')"

text \<open>
  What the server may have made of the metadata of an object that is stored: the labels and the owner
  reference are kept, and an object that is there stays so.
\<close>

definition storedMeta :: "lib \<Rightarrow> Instance \<Rightarrow> ObjectMeta \<Rightarrow> ObjectMeta \<Rightarrow> bool" where
  "storedMeta L i old m =
     (om_labels m = om_labels old \<and> (om_created old \<longrightarrow> om_created m) \<and> lib_setControllerReference L i m = Inr m)"

text \<open>
  The contract of the mutate functions: run on its own result, under metadata that kept the labels,
  a mutate function changes nothing.
\<close>

locale mutator =
  fixes mutate :: "'o \<Rightarrow> 'o" and meta :: "'o \<Rightarrow> ObjectMeta" and put :: "ObjectMeta \<Rightarrow> 'o \<Rightarrow> 'o"
  assumes meta_put: "meta (put m x) = m"
    and put_put: "put m (put n x) = put m x"
    and again: "om_labels m = om_labels (meta (mutate x))
      \<Longrightarrow> om_created (meta (mutate x)) \<longrightarrow> om_created m
      \<Longrightarrow> mutate (put m (mutate x)) = put m (mutate x)"
begin

lemma settles:
  assumes "ownerLaw L" and "setOwner L i meta put (mutate x) = Inr y"
  shows "setOwner L i meta put (mutate y) = Inr y"
proof -
  obtain m where m: "lib_setControllerReference L i (meta (mutate x)) = Inr m" and y: "y = put m (mutate x)"
    using assms(2) by (auto simp: setOwner_def split: sum.splits)
  from assms(1) m have "om_labels m = om_labels (meta (mutate x))" "om_created m = om_created (meta (mutate x))"
    and owner: "lib_setControllerReference L i m = Inr m"
    unfolding ownerLaw_def by blast+
  then have "mutate y = y" unfolding y by (intro again) auto
  with owner show ?thesis by (simp add: setOwner_def y meta_put put_put)
qed

text \<open>Also after the server has stored the object, which may set the creation time.\<close>

lemma settles_stored:
  assumes "ownerLaw L" and "setOwner L i meta put (mutate x) = Inr y"
    and "om_labels m = om_labels (meta y)" and "om_created (meta y) \<longrightarrow> om_created m"
  shows "mutate (put m y) = put m y"
proof -
  obtain n where n: "lib_setControllerReference L i (meta (mutate x)) = Inr n" and y: "y = put n (mutate x)"
    using assms(2) by (auto simp: setOwner_def split: sum.splits)
  from assms(1) n have "om_labels n = om_labels (meta (mutate x))" "om_created n = om_created (meta (mutate x))"
    unfolding ownerLaw_def by blast+
  then show ?thesis using assms(3,4) by (simp add: y meta_put put_put again)
qed

lemma settles_for_good:
  assumes "ownerLaw L" and "setOwner L i meta put (mutate x) = Inr y"
  shows "setOwner L i meta put (mutate y) = Inr y
    \<and> (\<forall>m. storedMeta L i (meta y) m \<longrightarrow> setOwner L i meta put (mutate (put m y)) = Inr (put m y))"
  using settles [OF assms] settles_stored [OF assms]
  by (auto simp: storedMeta_def setOwner_def meta_put put_put)

end

interpretation aliases: mutator "desiredAliasesConfigMap i" cm_meta "\<lambda>m o'. o'\<lparr>cm_meta := m\<rparr>" for i
  by unfold_locales (auto simp: desiredAliasesConfigMap_def relabel_def)

interpretation service: mutator "desiredService i" svc_meta "\<lambda>m o'. o'\<lparr>svc_meta := m\<rparr>" for i
  by unfold_locales (auto simp: desiredService_def relabel_def Let_def)

interpretation server: mutator "desiredStatefulSet i pw" sts_meta "\<lambda>m o'. o'\<lparr>sts_meta := m\<rparr>" for i pw
  by unfold_locales (auto simp: desiredStatefulSet_def desiredTemplate_def relabel_def)

interpretation backup_job: mutator "desiredCronJob i freq" cj_meta "\<lambda>m o'. o'\<lparr>cj_meta := m\<rparr>" for i freq
  by unfold_locales (auto simp: desiredCronJob_def relabel_def Let_def)

lemma mutateStatefulSet_run:
  "steps (mutateStatefulSet L sts i) tr (Ret (Inr y, j)) \<longleftrightarrow>
     (\<exists>s. j = i \<and> tr = [(QGetSecret (in_namespace i, sysdbaSecretRefName i), RSecret s)]
        \<and> setOwner L i sts_meta (\<lambda>m o'. o'\<lparr>sts_meta := m\<rparr>)
            (desiredStatefulSet i (mapGet (sec_data s) sysdbaSecretPasswordKey) sts) = Inr y)"
  (is "?run \<longleftrightarrow> ?made")
proof
  assume ?run
  then show ?made
    by (auto simp: mutateStatefulSet_def sysdbaPassword_def act_defs Let_def liftA_def asSecret_Inr
        elim!: steps_CallE steps_RetE split: sum.splits if_splits)
next
  assume ?made
  then show ?run
    by (auto simp: mutateStatefulSet_def sysdbaPassword_def act_defs Let_def liftA_def intro!: steps.call steps.stop)
qed

text \<open>C25: Bringing an owned object up to date settles: each mutate function, run again on the object it has
  made, as it made it or with the metadata the server gave it when it was stored, with the same
  password in the Secret, gives that very object: of all that the operator sets, nothing is left to
  change on the next reconcile of an unchanged instance. It needs of the library only that the owner
  reference is added once. What the server fills in by default is not in the records: CreateOrUpdate
  may still send an update that puts the containers, or a CronJob's spec, back without it.\<close>

theorem mutate_functions_settle:
  assumes "ownerLaw L"
  shows "(mutateAliasesConfigMap L i cm = Inr cm' \<longrightarrow>
        mutateAliasesConfigMap L i cm' = Inr cm'
        \<and> (\<forall>m. storedMeta L i (cm_meta cm') m \<longrightarrow> mutateAliasesConfigMap L i (cm'\<lparr>cm_meta := m\<rparr>) = Inr (cm'\<lparr>cm_meta := m\<rparr>)))
    \<and> (mutateService L i svc = Inr svc' \<longrightarrow>
        mutateService L i svc' = Inr svc'
        \<and> (\<forall>m. storedMeta L i (svc_meta svc') m \<longrightarrow> mutateService L i (svc'\<lparr>svc_meta := m\<rparr>) = Inr (svc'\<lparr>svc_meta := m\<rparr>)))
    \<and> (mutateScheduledBackupCronJob L i freq cj = Inr cj' \<longrightarrow>
        mutateScheduledBackupCronJob L i freq cj' = Inr cj'
        \<and> (\<forall>m. storedMeta L i (cj_meta cj') m
             \<longrightarrow> mutateScheduledBackupCronJob L i freq (cj'\<lparr>cj_meta := m\<rparr>) = Inr (cj'\<lparr>cj_meta := m\<rparr>)))
    \<and> (steps (mutateStatefulSet L sts i) tr (Ret (Inr sts', j)) \<longrightarrow>
        steps (mutateStatefulSet L sts' i) tr (Ret (Inr sts', j))
        \<and> (\<forall>m. storedMeta L i (sts_meta sts') m
             \<longrightarrow> steps (mutateStatefulSet L (sts'\<lparr>sts_meta := m\<rparr>) i) tr (Ret (Inr (sts'\<lparr>sts_meta := m\<rparr>), j))))"
  unfolding mutateAliasesConfigMap_def mutateService_def mutateScheduledBackupCronJob_def mutateStatefulSet_run
  apply (rule conjI, rule impI, erule aliases.settles_for_good [OF assms])
  apply (rule conjI, rule impI, erule service.settles_for_good [OF assms])
  apply (rule conjI, rule impI, erule backup_job.settles_for_good [OF assms])
  apply (rule impI, elim exE conjE, drule server.settles_for_good [OF assms])
  by blast

lemma sampleLib_owner: "ownerLaw sampleLib"
  by (simp add: ownerLaw_def sampleLib_def)

theorem mutate_functions_settle_witness:
  "\<exists>svc. mutateService sampleLib (sampleInstance ''4.0.3'') svc = Inr svc \<and> svc_clusterIP svc = ''10.0.0.1''"
proof -
  let ?i = "sampleInstance ''4.0.3''"
  let ?svc = "\<lparr>svc_meta = noMeta, svc_type = [], svc_selector = Map.empty, svc_ports = [],
     svc_clusterIP = ''10.0.0.1''\<rparr>"
  obtain svc' where svc': "mutateService sampleLib ?i ?svc = Inr svc'" "svc_clusterIP svc' = ''10.0.0.1''"
    by (simp add: mutateService_def setOwner_def sampleLib_def desiredService_def Let_def)
  from mutate_functions_settle [OF sampleLib_owner, of ?i _ _ ?svc svc'] svc' show ?thesis by blast
qed

text \<open>What the API server or another controller decides is left alone: a Service keeps its cluster IP,
  a StatefulSet its status and, once created, its selector, and of the pod template everything but
  labels, annotations, containers and volumes; a backup CronJob keeps its metadata but the labels.\<close>

theorem server_fields_are_kept:
  "svc_clusterIP (desiredService i svc) = svc_clusterIP svc
   \<and> sts_statusReplicas (desiredStatefulSet i pw sts) = sts_statusReplicas sts
   \<and> sts_readyReplicas (desiredStatefulSet i pw sts) = sts_readyReplicas sts
   \<and> (om_created (sts_meta sts) \<longrightarrow> sts_selector (desiredStatefulSet i pw sts) = sts_selector sts)
   \<and> (\<not> om_created (sts_meta sts) \<longrightarrow> (\<exists>sel. sts_selector (desiredStatefulSet i pw sts) = Some sel
        \<and> selects sel (pt_labels (sts_template (desiredStatefulSet i pw sts)))))
   \<and> psp_restartPolicy (pt_spec (sts_template (desiredStatefulSet i pw sts))) = psp_restartPolicy (pt_spec (sts_template sts))
   \<and> psp_affinity (pt_spec (sts_template (desiredStatefulSet i pw sts))) = psp_affinity (pt_spec (sts_template sts))
   \<and> om_owners (cj_meta (desiredCronJob i freq cj)) = om_owners (cj_meta cj)"
  by (simp add: desiredService_def desiredStatefulSet_def desiredTemplate_def desiredCronJob_def relabel_def
      Let_def selector_selects)

theorem server_fields_are_kept_witness:
  "sts_selector (desiredStatefulSet (sampleInstance ''4.0.3'') ''pw'' (sampleSts ''img'' 1)) = None"
proof -
  have "om_created (sts_meta (sampleSts ''img'' 1))" and "sts_selector (sampleSts ''img'' 1) = None"
    by (simp_all add: noMeta_def sampleSts_def)
  then show ?thesis
    using server_fields_are_kept [where i = "sampleInstance ''4.0.3''" and pw = "''pw''" and sts = "sampleSts ''img'' 1"]
    by simp
qed

section \<open>Volumes and credentials\<close>

text \<open>An object that changed in nothing but the version label.\<close>

definition onlyRelabelled :: "Instance \<Rightarrow> ObjectMeta \<Rightarrow> ObjectMeta \<Rightarrow> bool" where
  "onlyRelabelled i old new =
     (st_firebirdVersion (in_status i) \<noteq> []
      \<and> new = old\<lparr>om_labels := (om_labels old)(firebirdVersionLabelKey \<mapsto> st_firebirdVersion (in_status i))\<rparr>)"

fun volumeOrder :: "Instance \<Rightarrow> event list \<Rightarrow> request \<Rightarrow> bool" where
  "volumeOrder i h (QCreatePvc p) =
     (\<exists>(name, vol)\<in>set (managedPVCs i). p = newPVC i name vol \<and> pvcAbsent (in_namespace i, name) (set h))"
| "volumeOrder i h (QPatchPvc old new) =
     (\<exists>k. (QGetPvc k, RPvc old) \<in> set h \<and> (\<exists>m. onlyRelabelled i (pvc_meta old) m \<and> new = old\<lparr>pvc_meta := m\<rparr>))"
| "volumeOrder i h (QGetPvc k) = True"
| "volumeOrder i h q = False"

definition pvcThere :: "nsname \<Rightarrow> event set \<Rightarrow> bool" where
  "pvcThere k E =
     ((\<exists>p. (QGetPvc k, RPvc p) \<in> E)
      \<or> (\<exists>p r. (QCreatePvc p, r) \<in> E \<and> asUnit r = Inr ()
           \<and> (om_namespace (pvc_meta p), om_name (pvc_meta p)) = k))"

lemma pvcThere_mono: "pvcThere k E \<Longrightarrow> E \<subseteq> F \<Longrightarrow> pvcThere k F"
  unfolding pvcThere_def by blast

lemma asPvc_Inl_NotFound: "asPvc r = Inl e \<Longrightarrow> isNotFound e \<Longrightarrow> r = RErr e"
  by (cases r) (auto simp: malformed_def)

lemma reconcilePVC_order:
  assumes "(name, vol) \<in> set (managedPVCs i)"
  shows "wpa A (volumeOrder i)
    (untouched i h (pvcThere (in_namespace i, name)))
    (reconcilePVC name vol) i h"
proof -
  have absent: "pvcAbsent (in_namespace i, name) (insert (QGetPvc (in_namespace i, name), r) (set h))"
    if "asPvc r = Inl e" "isNotFound e" for r e
    using asPvc_Inl_NotFound [OF that] that(2) by (auto simp: pvcAbsent_def)
  have found: "pvcThere (in_namespace i, name) (insert (QGetPvc (in_namespace i, name), RPvc p) E)" for p E
    by (auto simp: pvcThere_def)
  have later: "pvcThere k E \<Longrightarrow> pvcThere k (insert ev E)" for k ev E
    by (erule pvcThere_mono) auto
  have made: "asUnit r = Inr () \<Longrightarrow> pvcThere (in_namespace i, name) (insert (QCreatePvc (newPVC i name vol), r) E)"
    for r E
    unfolding pvcThere_def
    by (intro disjI2 exI [of _ "newPVC i name vol"] exI [of _ r]) (simp add: newPVC_def freshMeta_def)
  show ?thesis
    unfolding reconcilePVC_def syncFirebirdVersionLabel_def
    using assms
    by (auto simp: wprule Let_def asPvc_Inr onlyRelabelled_def split: prod.splits
        intro!: found made absent bexI [of _ "(name, vol)"] intro: later)
qed

lemma reconcilePVCs_order:
  "wpa A (volumeOrder i)
    (untouched i h (\<lambda>E. \<forall>(name, vol)\<in>set (managedPVCs i). pvcThere (in_namespace i, name) E))
    reconcilePVCs i h"
proof -
  let ?there = "\<lambda>name E. pvcThere (in_namespace i, name) E"
  let ?backup = "case backupVolumeSpec i of None \<Rightarrow> ok ()
     | Some vol \<Rightarrow> wrapA ''failed to reconcile backup PVC: '' (reconcilePVC (backupPVCName i) vol)"
  let ?shadow = "case sg_shadow (sp_storage (in_spec i)) of None \<Rightarrow> ok ()
     | Some vol \<Rightarrow> wrapA ''failed to reconcile shadow PVC: '' (reconcilePVC (shadowPVCName i) vol)"
  have primary: "(primaryPVCName i, sg_primary (sp_storage (in_spec i))) \<in> set (managedPVCs i)"
    by (simp add: managedPVCs_def)
  have backup: "wpa A (volumeOrder i) (untouched i h (\<lambda>E. \<forall>vol. backupVolumeSpec i = Some vol \<longrightarrow> ?there (backupPVCName i) E)) ?backup i h" for h
  proof (cases "backupVolumeSpec i")
    case (Some vol)
    then have "(backupPVCName i, vol) \<in> set (managedPVCs i)" by (simp add: managedPVCs_def)
    from untouched_wrapA [OF reconcilePVC_order [OF this]] show ?thesis by (simp add: Some)
  qed (simp add: wpa_ok)
  have shadow: "wpa A (volumeOrder i) (untouched i h (\<lambda>E. \<forall>vol. sg_shadow (sp_storage (in_spec i)) = Some vol \<longrightarrow> ?there (shadowPVCName i) E)) ?shadow i h" for h
  proof (cases "sg_shadow (sp_storage (in_spec i))")
    case (Some vol)
    then have "(shadowPVCName i, vol) \<in> set (managedPVCs i)" by (simp add: managedPVCs_def)
    from untouched_wrapA [OF reconcilePVC_order [OF this]] show ?thesis by (simp add: Some)
  qed (simp add: wpa_ok)
  show ?thesis
    unfolding reconcilePVCs_def wpa_withI
    by (rule wpa_mono [OF untouched_thenA [OF untouched_wrapA [OF reconcilePVC_order [OF primary]]
          untouched_thenA [OF backup shadow]]])
      (auto simp: untouched_def managedPVCs_def split: option.splits intro: pvcThere_mono)
qed

text \<open>C27: The volumes are made once and then left alone: reconcilePVCs creates a claim only for a volume
  of the spec, as the spec describes it, and only after it was not found; an existing claim gets the
  version label at most; and when reconcilePVCs succeeds every volume of the spec has been found or
  created.\<close>

theorem volumes_are_created_once:
  assumes "steps (reconcilePVCs i) tr p"
  shows "(\<forall>pre q a post. tr = pre @ (q, a) # post \<longrightarrow> volumeOrder i (rev pre) q)
    \<and> (\<forall>j. p = Ret (Inr (), j) \<longrightarrow>
         (\<forall>(name, vol)\<in>set (managedPVCs i). pvcThere (in_namespace i, name) (set tr)))"
  using wpa_run [OF assms reconcilePVCs_order] by fastforce

theorem volumes_are_created_once_witness:
  "\<exists>tr. pvcThere (''ns'', ''db-backup'') (set tr) \<and> (\<exists>j. steps (reconcilePVCs (sampleInstance ''4.0.3'')) tr (Ret (Inr (), j)))"
proof -
  let ?i = "sampleInstance ''4.0.3''"
  let ?run = "runWith (cluster ?i None None) (reconcilePVCs ?i) []"
  have "fst ?run = (Inr (), ?i)"
    by (simp add: reconcilePVCs_def reconcilePVC_def act_defs sample_defs backupVolumeSpec_def)
  from run_steps [OF this] have run: "steps (reconcilePVCs ?i) (rev (snd ?run)) (Ret (Inr (), ?i))" .
  have "(''db-backup'', sampleVolume) \<in> set (managedPVCs ?i)" and "in_namespace ?i = ''ns''"
    by (simp_all add: managedPVCs_def sample_defs backupVolumeSpec_def layout)
  with volumes_are_created_once [OF run] have "pvcThere (''ns'', ''db-backup'') (set (rev (snd ?run)))" by fastforce
  then show ?thesis using run by blast
qed

subsection \<open>The password\<close>

lemma dash_position: "v < 64 \<Longrightarrow> b64Alphabet ! v = CHR ''-'' \<longleftrightarrow> v = 62"
proof -
  have "list_all (\<lambda>v. (b64Alphabet ! v = CHR ''-'') = (v = 62)) [0..<64]" by code_simp
  then show "v < 64 \<Longrightarrow> b64Alphabet ! v = CHR ''-'' \<longleftrightarrow> v = 62" by (simp add: list_all_iff)
qed

text \<open>A draw as the random source makes it.\<close>

definition isDraw :: "answer \<Rightarrow> bool" where
  "isDraw a = (\<exists>buf. a = RBytes buf \<and> length buf = generatedPasswordLength \<and> (\<forall>b\<in>set buf. b < 256))"

text \<open>The draws the loop throws away: the first six bits are 62, the number of the dash.\<close>

fun dashed :: "answer \<Rightarrow> bool" where
  "dashed (RBytes (b # bs)) = (b div 4 = 62)" | "dashed a = False"

lemma draw_password:
  assumes "isDraw a"
  shows "\<exists>buf c cs. a = RBytes buf \<and> b64RawURL buf = c # cs \<and> length (c # cs) = 32
    \<and> set (c # cs) \<subseteq> set b64Alphabet \<and> (c = CHR ''-'' \<longleftrightarrow> dashed a)"
proof -
  obtain buf where buf: "a = RBytes buf" "length buf = 3 * 8" "\<forall>b\<in>set buf. b < 256"
    using assms by (auto simp: isDraw_def generatedPasswordLength_def)
  have len: "length (b64RawURL buf) = 32" using length_b64RawURL [OF buf(2)] by simp
  then obtain c cs where pw: "b64RawURL buf = c # cs" by (cases "b64RawURL buf") auto
  have "Suc (Suc (Suc 0)) \<le> length buf" using buf(2) by simp
  then obtain x y z bs where xs: "buf = x # y # z # bs"
    by (auto simp: Suc_le_length_iff)
  have "x div 4 < 64" using buf(3) xs by auto
  then have "c = CHR ''-'' \<longleftrightarrow> dashed a"
    using pw dash_position [of "x div 4"] by (auto simp: buf(1) xs b64Char_def)
  then show ?thesis using buf(1) pw len b64RawURL_alphabet [of buf] by auto
qed

text \<open>C28: The generated password: 32 characters of the URL alphabet, never starting with a dash (which
  the command line tools would take for a flag). The loop ends with the first draw whose password
  does not start with one, so it fails to only when every draw within the fuel was such.\<close>

theorem generated_password_is_usable:
  assumes "steps (generateRandomPassword fuel i) tr (Ret (r, j))"
    and "list_all (\<lambda>(q, a). isDraw a) tr"
  shows "(\<forall>pw. r = Inr pw \<longrightarrow> length pw = 32 \<and> set pw \<subseteq> set b64Alphabet \<and> hd pw \<noteq> CHR ''-''
            \<and> list_all (\<lambda>(q, a). dashed a) (butlast tr))
    \<and> (\<forall>e. r = Inl e \<longrightarrow> length tr = fuel \<and> list_all (\<lambda>(q, a). dashed a) tr)"
  using assms
proof (induction fuel arbitrary: tr)
  case 0
  then show ?case by (auto simp: failA_def elim: steps_RetE)
next
  case (Suc fuel)
  let ?k = "\<lambda>buf. case b64RawURL buf of
         [] \<Rightarrow> failA (Panicked ''index out of range'')
       | c # cs \<Rightarrow> if c \<noteq> CHR ''-'' then ok (c # cs) else generateRandomPassword fuel"
  obtain a tr' where tr: "tr = (QRand generatedPasswordLength, a) # tr'"
    and rest: "steps (case asBytes a of Inl e \<Rightarrow> failA e i | Inr buf \<Rightarrow> ?k buf i) tr' (Ret (r, j))"
    using Suc.prems(1)
    by (auto simp: bindA_def tryA_def callA_def elim!: steps_CallE split: sum.splits)
  from Suc.prems(2) have draw: "isDraw a" and draws: "list_all (\<lambda>(q, a). isDraw a) tr'" by (simp_all add: tr)
  from draw_password [OF draw] obtain buf c cs where pw: "a = RBytes buf" "b64RawURL buf = c # cs"
      "length (c # cs) = 32" "set (c # cs) \<subseteq> set b64Alphabet" "c = CHR ''-'' \<longleftrightarrow> dashed a"
    by blast
  show ?case
  proof (cases "dashed a")
    case True
    with rest pw have "steps (generateRandomPassword fuel i) tr' (Ret (r, j))" by simp
    from Suc.IH [OF this draws] show ?thesis using True by (cases tr') (auto simp: tr)
  next
    case False
    with rest pw have "tr' = []" and "r = Inr (c # cs)" by (auto simp: ok_def elim: steps_RetE)
    then show ?thesis using pw False by (auto simp: tr)
  qed
qed

definition zeroDraw :: answer where
  "zeroDraw = RBytes (replicate 24 0)"

theorem generated_password_is_usable_witness:
  "\<exists>pw. steps (generateRandomPassword 1 (sampleInstance [])) [(QRand 24, zeroDraw)] (Ret (Inr pw, sampleInstance []))
     \<and> length pw = 32"
proof -
  let ?run = "runWith (\<lambda>h q. zeroDraw) (generateRandomPassword 1 (sampleInstance [])) []"
  let ?pw = "b64RawURL (replicate 24 0)"
  have pw: "?pw = CHR ''A'' # tl ?pw" by code_simp
  then have "steps (generateRandomPassword 1 (sampleInstance [])) [(QRand 24, zeroDraw)]
      (Ret (Inr ?pw, sampleInstance []))"
    by (auto simp: act_defs zeroDraw_def generatedPasswordLength_def intro!: steps.intros split: list.splits)
  moreover have "list_all (\<lambda>(q, a). isDraw a) [(QRand 24, zeroDraw)]"
    by (simp add: isDraw_def zeroDraw_def generatedPasswordLength_def)
  ultimately show ?thesis using generated_password_is_usable by blast
qed

subsection \<open>The Secret\<close>

definition secretKey :: "Instance \<Rightarrow> nsname" where
  "secretKey i = (in_namespace i, sysdbaSecretRefName i)"

definition ownSecretRef :: "Instance \<Rightarrow> string" where
  "ownSecretRef i = sy_secretRef (au_sysdba (sp_authentication (in_spec i)))"

fun secretOrder :: "Instance \<Rightarrow> event list \<Rightarrow> request \<Rightarrow> bool" where
  "secretOrder i h (QCreateSecret s) =
     (ownSecretRef i = [] \<and> (\<exists>e. (QGetSecret (secretKey i), RErr e) \<in> set h \<and> isNotFound e)
      \<and> (\<exists>buf. (QRand generatedPasswordLength, RBytes buf) \<in> set h
           \<and> s = newSysdbaSecret i (sysdbaSecretRefName i) (b64RawURL buf)))"
| "secretOrder i h (QPatchSecret old new) =
     ((QGetSecret (secretKey i), RSecret old) \<in> set h
      \<and> (\<exists>m. onlyRelabelled i (sec_meta old) m \<and> new = old\<lparr>sec_meta := m\<rparr>))"
| "secretOrder i h (QGetSecret k) = (k = secretKey i)"
| "secretOrder i h (QRand n) = (n = generatedPasswordLength)"
| "secretOrder i h q = False"

lemma generateRandomPassword_drawn:
  "wpa A (secretOrder i)
    (\<lambda>r j h'. j = i \<and> set h \<subseteq> set h' \<and>
       (\<forall>pw. r = Inr pw \<longrightarrow> (\<exists>buf. (QRand generatedPasswordLength, RBytes buf) \<in> set h' \<and> pw = b64RawURL buf)))
    (generateRandomPassword fuel) i h"
proof (induction fuel arbitrary: h)
  case 0
  then show ?case by (simp add: wprule)
next
  case (Suc fuel)
  have bytes: "asBytes r = Inr buf \<Longrightarrow> r = RBytes buf" for r buf
    by (cases r) (auto simp: malformed_def)
  have "wpa A (secretOrder i)
    (\<lambda>r j h'. j = i \<and> set h \<subseteq> set h' \<and>
       (\<forall>pw. r = Inr pw \<longrightarrow> (\<exists>buf. (QRand generatedPasswordLength, RBytes buf) \<in> set h' \<and> pw = b64RawURL buf)))
    (case b64RawURL buf of
         [] \<Rightarrow> failA (Panicked ''index out of range'')
       | c # cs \<Rightarrow> if c \<noteq> CHR ''-'' then ok (c # cs) else generateRandomPassword fuel) i
     ((QRand generatedPasswordLength, r) # h)" if "asBytes r = Inr buf" for r buf
  proof (cases "b64RawURL buf")
    case Nil
    then show ?thesis by (auto simp: wprule)
  next
    case (Cons c cs)
    show ?thesis unfolding Cons list.case wpa_If wpa_ok using bytes [OF that]
      by (auto simp: Cons intro!: wpa_mono [OF Suc.IH])
  qed
  then show ?case by (auto simp: wprule)
qed

lemma reconcileSysdbaSecret_order:
  "wpa A (secretOrder i) (\<lambda>_ _ _. True) (reconcileSysdbaSecret fuel) i h"
proof -
  have missing: "asSecret r = Inl e \<Longrightarrow> isNotFound e \<Longrightarrow> r = RErr e" for r e
    by (cases r) (auto simp: malformed_def)
  show ?thesis
    unfolding reconcileSysdbaSecret_def syncFirebirdVersionLabel_def
    by (auto simp: wprule Let_def asSecret_Inr secretKey_def [symmetric] ownSecretRef_def [symmetric] onlyRelabelled_def
        dest: missing intro!: wpa_mono [OF generateRandomPassword_drawn])
      (metis missing)
qed

text \<open>The SYSDBA Secret is made once and then left alone: reconcileSysdbaSecret creates one only when
  the spec names none, the default one was not found, and with the password just drawn; a Secret
  that is there, the user's own included, gets the version label at most; and no other object is
  written.\<close>

theorem secret_is_created_once:
  assumes "steps (reconcileSysdbaSecret fuel i) (pre @ (q, a) # post) p"
  shows "secretOrder i (rev pre) q"
  using wpa_run [OF assms reconcileSysdbaSecret_order] by blast

definition newcomer :: Instance where "newcomer = sampleInstance ''4.0.3''"

theorem secret_is_created_once_witness:
  "\<exists>s. sec_stringData s sysdbaSecretUsernameKey = Some ''SYSDBA''
     \<and> secretOrder newcomer [(QRand 24, zeroDraw), (QGetSecret (''ns'', ''db-sysdba''), RErr (ApiNotFound []))]
         (QCreateSecret s)"
proof -
  let ?pw = "b64RawURL (replicate 24 0)"
  let ?s = "newSysdbaSecret newcomer ''db-sysdba'' ?pw"
  have pw: "?pw = CHR ''A'' # tl ?pw" by code_simp
  have run: "steps (reconcileSysdbaSecret 1 newcomer)
     ([(QGetSecret (''ns'', ''db-sysdba''), RErr (ApiNotFound [])), (QRand 24, zeroDraw)] @ (QCreateSecret ?s, RUnit) # [])
     (Ret (Inr (), newcomer))"
    using pw
    by (auto simp: reconcileSysdbaSecret_def Let_def act_defs newcomer_def sample_defs sysdbaSecretRefName_def
        zeroDraw_def generatedPasswordLength_def intro!: steps.intros split: list.splits)
  from secret_is_created_once [OF run] show ?thesis
    by (intro exI [of _ ?s]) (simp add: newSysdbaSecret_def sysdbaSecretUsernameKey_def sysdbaSecretPasswordKey_def
        sysdbaUsername_def generatedPasswordLength_def)
qed

end
