(* ===== verification/Composition.thy ===== *)
theory Composition
  imports Desired
begin

text \<open>
  How the parts fit together: the server is defined only once everything it needs is there and from
  the password just read, a change of that password reaches the instances that use it, and makes a
  new pod template.
\<close>

section \<open>The server and what it needs\<close>

definition volumesThere :: "Instance \<Rightarrow> event set \<Rightarrow> bool" where
  "volumesThere i E = (\<forall>(name, vol)\<in>set (managedPVCs i). pvcThere (in_namespace i, name) E)"

definition aliasesStored :: "lib \<Rightarrow> Instance \<Rightarrow> event set \<Rightarrow> bool" where
  "aliasesStored L i E =
     (\<exists>old new cm. (QFetchConfigMap (in_namespace i, aliasesConfigMapName i), RConfigMap old) \<in> E
        \<and> mutateAliasesConfigMap L i old = Inr new \<and> (QStoreConfigMap new, RConfigMap cm) \<in> E)"

definition passwordRead :: "Instance \<Rightarrow> string \<Rightarrow> event set \<Rightarrow> bool" where
  "passwordRead i pw E =
     (\<exists>s. (QGetSecret (in_namespace i, sysdbaSecretRefName i), RSecret s) \<in> E
        \<and> pw = mapGet (sec_data s) sysdbaSecretPasswordKey)"

definition serverFrom :: "lib \<Rightarrow> Instance \<Rightarrow> event set \<Rightarrow> StatefulSet \<Rightarrow> bool" where
  "serverFrom L i E sts =
     (\<exists>pw old. passwordRead i pw E \<and> (QFetchSts (in_key i), RSts old) \<in> E
        \<and> setOwner L i sts_meta (\<lambda>m o'. o'\<lparr>sts_meta := m\<rparr>) (desiredStatefulSet i pw old) = Inr sts)"

fun serverOrder :: "lib \<Rightarrow> Instance \<Rightarrow> event list \<Rightarrow> request \<Rightarrow> bool" where
  "serverOrder L i h (QStoreSts sts) =
     (aliasesStored L i (set h) \<and> volumesThere i (set h) \<and> serverFrom L i (set h) sts)"
| "serverOrder L i h (QUpdateInstance j) = False"
| "serverOrder L i h (QUpdateStatus j) = False"
| "serverOrder L i h (QUpdateSts sts) = False"
| "serverOrder L i h q = True"

lemma volumeOrder_server: "volumeOrder i h q \<Longrightarrow> serverOrder L i h q"
  by (cases q) auto


lemma volumesThere_mono: "volumesThere i E \<Longrightarrow> E \<subseteq> F \<Longrightarrow> volumesThere i F"
  unfolding volumesThere_def by (auto intro: pvcThere_mono)

lemma aliasesStored_mono: "aliasesStored L i E \<Longrightarrow> E \<subseteq> F \<Longrightarrow> aliasesStored L i F"
  unfolding aliasesStored_def by blast

text \<open>CreateOrUpdate of an object that is made without a request.\<close>

lemma aliases_step:
  "wpa A (serverOrder L i) (untouched i h (aliasesStored L i))
    (createOrUpdate (QFetchConfigMap (in_namespace i, aliasesConfigMapName i)) asConfigMap QStoreConfigMap
       (\<lambda>cm. liftA (mutateAliasesConfigMap L i cm))) i h"
  unfolding createOrUpdate_def by (auto simp: wprule answer_values untouched_def aliasesStored_def)

lemma service_step:
  "wpa A (serverOrder L i) (untouched i h (\<lambda>_. True))
    (createOrUpdate (QFetchService (in_key i)) asService QStoreService (\<lambda>svc. liftA (mutateService L i svc))) i h"
  unfolding createOrUpdate_def by (auto simp: wprule answer_values untouched_def)

lemma volumes_step:
  "wpa A (serverOrder L i) (untouched i h (volumesThere i)) reconcilePVCs i h"
  using reconcilePVCs_order [of A i h] unfolding volumesThere_def
  by (rule wpa_mono) (auto intro: volumeOrder_server)

lemma server_step:
  assumes "aliasesStored L i (set h)" and "volumesThere i (set h)"
  shows "wpa A (serverOrder L i) (untouched i h (\<lambda>_. True))
    (createOrUpdate (QFetchSts (in_key i)) asSts QStoreSts (mutateStatefulSet L)) i h"
proof -
  have later: "aliasesStored L i (insert e E)" "volumesThere i (insert e E)"
    if "aliasesStored L i E" "volumesThere i E" for e E
    using that by (auto intro: aliasesStored_mono volumesThere_mono)
  show ?thesis
    unfolding createOrUpdate_def mutateStatefulSet_def sysdbaPassword_def
    using assms by (auto simp: wprule answer_values Let_def untouched_def serverFrom_def passwordRead_def
        intro!: later exI)
qed

lemma reconcileOwned_order:
  "wpa A (serverOrder L i) (untouched i h (\<lambda>E. aliasesStored L i E \<and> volumesThere i E)) (reconcileOwned L) i h"
proof -
  note step = untouched_bindA [OF untouched_wrapA]
  have sts: "wpa A (serverOrder L i) (untouched i h'' (\<lambda>_. True))
     (wrapA ''failed to reconcile StatefulSet: ''
        (createOrUpdate (QFetchSts (in_key i)) asSts QStoreSts (mutateStatefulSet L))) i h''"
    if "aliasesStored L i (set h')" "volumesThere i (set h'')" "set h' \<subseteq> set h''" for h' h''
    using that by (intro untouched_wrapA server_step) (auto intro: aliasesStored_mono)
  show ?thesis
    unfolding reconcileOwned_def wpa_withI thenA_def
    by (rule wpa_mono,
        rule step [OF aliases_step], rule step [OF service_step], rule untouched_bindA [OF volumes_step])
      (auto intro: sts aliasesStored_mono volumesThere_mono simp: untouched_def)
qed


text \<open>C32: The server comes last: the StatefulSet is stored only after the aliases ConfigMap was brought up to date
  and every volume of the spec was found or created, and as it should be: the desired state with the
  password just read from the instance's own Secret, on top of the StatefulSet just fetched. Nothing
  on the way writes the instance or stops the server.\<close>

theorem server_comes_last:
  assumes "steps (reconcileOwned L i) (pre @ (q, a) # post) p"
  shows "serverOrder L i (rev pre) q"
  using wpa_run [OF assms reconcileOwned_order] by blast

theorem server_comes_last_witness:
  "\<exists>pre sts a post p. steps (reconcileOwned sampleLib (sampleInstance ''5.0.1'')) (pre @ (QStoreSts sts, a) # post) p
     \<and> volumesThere (sampleInstance ''5.0.1'') (set pre) \<and> serverFrom sampleLib (sampleInstance ''5.0.1'') (set pre) sts"
proof -
  let ?p = "reconcileOwned sampleLib (sampleInstance ''5.0.1'')"
  let ?tr = "rev (snd (runWith (cluster (sampleInstance ''5.0.1'') None None) ?p []))"
  have run: "steps ?p ?tr (Ret (fst (runWith (cluster (sampleInstance ''5.0.1'') None None) ?p [])))"
    by (rule run_steps) simp
  have "12 < length ?tr" and "isStoreSts (fst (?tr ! 12))"
    by (simp_all add: code_defs act_defs sample_defs)
  from run_at [where P = isStoreSts, OF this] obtain pre sts a post where tr: "?tr = pre @ (QStoreSts sts, a) # post"
    by (auto dest: isStoreStsD)
  from server_comes_last [OF run [unfolded tr]] run tr show ?thesis by fastforce
qed

section \<open>A change of the password\<close>




end
