(* ===== verification/Outcome.thy ===== *)
theory Outcome
  imports Samples
begin

text \<open>
  What \<open>Reconcile\<close> tells its caller and what it leaves in \<open>status.error\<close>: waiting is progress and comes
  back in five seconds, success clears the error, and a failure is recorded unless the write that
  would record it fails too.
\<close>

section \<open>The error in the status\<close>

abbreviation statusError :: "Instance \<Rightarrow> string" where
  "statusError i \<equiv> st_error (in_status i)"

definition writeFailed :: "event set \<Rightarrow> bool" where
  "writeFailed E = (\<exists>q a e. (q, a) \<in> E \<and> writes_object q \<and> asInstance a = Inl e)"

definition reported :: "Instance \<Rightarrow> reconcileResult \<Rightarrow> event list \<Rightarrow> bool" where
  "reported i res h =
     ((fst res \<noteq> None \<longrightarrow> res = (Some 5, None))
      \<and> (snd res = None \<longrightarrow> statusError (stored i h) = [])
      \<and> (\<forall>e. snd res = Some e \<longrightarrow> statusError (stored i h) = errorMsg e \<or> isPanic e \<or> writeFailed (set h)))"

section \<open>reconcileInstance does not touch it\<close>

lemma steady_error_owned: "steady statusError (reconcileOwned L)"
  unfolding reconcileOwned_def by (intro keep) auto

lemma steady_error_upgrade: "steady statusError (reconcileMajorUpgrade L)"
  by (intro keep) (simp_all add: beginUpgrade_def clearDatabases_def)

lemma steady_error_server: "steady statusError (reconcileServer L sts)"
  unfolding reconcileServer_def reportReady_def reportNotReady_def finishMajorUpgrade_def
  by (intro keep) (auto simp: recordDatabases_def availableEdit_def Let_def)

lemma steady_error_instance: "steady statusError (reconcileInstance L fuel)"
  unfolding reconcileInstance_def
  by (intro keep steady_error_upgrade steady_error_owned steady_error_server)

section \<open>What is reported\<close>

lemma conclude_reported:
  assumes "agrees statusError i k j h"
  shows "wpa echoes (\<lambda>_ _. True) (\<lambda>r j h'. reported i (resultOf r) h') (conclude L r) j h"
proof -
  have k: "statusError j = k" "statusError (stored i h) = k" using assms by (simp_all add: agrees_def)
  have failed: "writeFailed (insert (QUpdateStatus j', a) E)" if "asInstance a = Inl e" for j' a e E
    using that by (auto simp: writeFailed_def intro!: exI [of _ "QUpdateStatus j'"])
  have progress: "wpa echoes (\<lambda>_ _. True) (\<lambda>r j h'. reported i (resultOf r) h')
      (thenA (setProgress m) (ok (Some waitRequeueInterval, None))) j h" for m
    using k by (auto simp: wprule progress.wpa_writer asInstance_Inr reported_def resultOf_def failed_def
        waitRequeueInterval_def failed)
  have none: "wpa echoes (\<lambda>_ _. True) (\<lambda>r j h'. reported i (resultOf r) h')
      (thenA (setError L None) (ok reconciled)) j h"
    using k by (auto simp: wprule reconcile_error.wpa_writer asInstance_Inr reported_def resultOf_def failed_def
        reconciled_def failed errorSettled_def errorEdit_def errorText_def)
  have some: "wpa echoes (\<lambda>_ _. True) (\<lambda>r j h'. reported i (resultOf r) h')
      (thenA (setError L (Some e)) (ok (failed e))) j h" for e
    using k by (auto simp: wprule reconcile_error.wpa_writer asInstance_Inr reported_def resultOf_def failed_def
        failed errorSettled_def errorEdit_def errorText_def)
  show ?thesis
    unfolding conclude_def using progress none some
    by (auto simp: wpa_ok reported_def resultOf_def failed_def split: option.splits)
qed

lemma reconcileFound_reported:
  assumes "\<not> in_deleting i"
  shows "wpa echoes (\<lambda>_ _. True) (\<lambda>r j h'. reported i (resultOf r) h') (reconcileFound L fuel) i []"
proof -
  have start: "agrees statusError i (statusError i) i []" by (simp add: agrees_def)
  have fin: "wpa echoes (\<lambda>_ _. True)
      (\<lambda>r j h'. (\<forall>e. r = Inl e \<longrightarrow> writeFailed (set h')) \<and> (r = Inr () \<longrightarrow> agrees statusError i (statusError i) j h'))
      (ensureFinalizer L) i []"
    unfolding ensureFinalizer_def
    by (auto simp: wprule asInstance_Inr agrees_def writeFailed_def)
  have rest: "wpa echoes (\<lambda>_ _. True) (\<lambda>r j h'. reported i (resultOf r) h')
      (tryA (reconcileInstance L fuel) (conclude L)) j h"
    if "agrees statusError i (statusError i) j h" for j h
    unfolding wpa_tryA
    by (rule wpa_mono [OF steady_agrees [OF steady_error_instance that]]) (auto intro: conclude_reported)
  have lost: "writeFailed (set h) \<Longrightarrow> reported i (resultOf (Inl e)) h" for e h
    by (simp add: reported_def resultOf_def failed_def)
  show ?thesis
    unfolding reconcileFound_def wpa_withI using assms
    by (simp add: wpa_thenA, intro wpa_mono [OF fin])
      (auto simp: lost intro!: rest)
qed

text \<open>C19: What Reconcile says and what it records agree, for a live instance: a requeue means waiting,
  in five seconds and without an error; a result without an error leaves status.error empty; and a
  result with one leaves its text there, unless a write of the object failed on the way or the code
  panicked.\<close>

theorem reconcile_reports:
  assumes "steps (Reconcile L fuel req) ((QGetInstance req, RInstance i) # tr) (Ret res)"
    and "\<not> in_deleting i" and "honest tr"
  shows "reported i res (rev tr)"
proof (rule Reconcile_result [OF assms(1), where Q = "reported i"])
  show "wpa echoes (\<lambda>_ _. True) (\<lambda>r j h. reported i (resultOf r) h) (reconcileFound L fuel) i []"
    by (rule reconcileFound_reported [OF assms(2)])
qed (simp add: answered_echoes assms(3))

text \<open>An upgrade that first has to stop the server.\<close>

definition running :: Instance where "running = sampleInstance ''5.0.1''"

definition runningCluster :: "event list \<Rightarrow> request \<Rightarrow> answer" where
  "runningCluster = cluster running (Some (sampleSts ''firebird:4.0.3'' 1)) None"

lemma running_result: "fst (runWith runningCluster sampleReconcile []) = (Some 5, None)"
proof -
  have "decideUpgrade ''4.0.3'' ''5.0.1'' True = StartUpgrade"
    and "statefulSetFirebirdVersion (sampleSts ''firebird:4.0.3'' 1) = ''4.0.3''" by code_simp+
  then show ?thesis
    by (simp add: runningCluster_def running_def code_defs act_defs sample_defs phaseReady_def layout waitRequeueInterval_def)
qed

theorem reconcile_reports_witness:
  "reported running (Some 5, None) (rev (runOf runningCluster sampleReconcile))"
proof (rule reconcile_reports)
  show "steps sampleReconcile ((QGetInstance (''ns'', ''db''), RInstance running) # runOf runningCluster sampleReconcile)
      (Ret (Some 5, None))"
    by (rule runOf_steps [OF _ running_result]) (simp add: runningCluster_def)
  show "\<not> in_deleting running" by (simp add: running_def sample_defs)
  show "honest (runOf runningCluster sampleReconcile)" unfolding runningCluster_def by (rule runOf_honest)
qed

end
