(* ===== verification/Retention.thy ===== *)
theory Retention
  imports Samples
begin

text \<open>
  The retention settings and the CronJobs they turn on: reading \<open>spec.backup.retention\<close>, the CRD's
  rule on incremental backups against what the controller makes of it, and \<open>reconcileScheduledBackups\<close>.
\<close>

section \<open>Reading a retention\<close>

lemma unit_cases: "u \<in> set ''hdwmy'' \<Longrightarrow> \<not> isDigit u \<and> \<not> (CHR ''1'' \<le> u \<and> u \<le> CHR ''9'')"
  by (auto simp: isDigit_def less_eq_char_def)

lemma parseRetention_snoc:
  assumes "u \<in> set ''hdwmy''" and "s \<noteq> []" and "list_all isDigit s" and "digitsVal s \<le> max_int64"
  shows "parseRetention (s @ [u]) = Inr \<lparr>rd_amount = digitsVal s, rd_unit = u\<rparr>"
  using assms digitsVal_bounds [OF assms(3)] unfolding parseRetention_def by (simp add: atoi_digits)

text \<open>What is written as a retention is read back: a number that fits Go's int and a unit give that
  amount and unit, and dateAgo prints them as GNU date understands them.\<close>

theorem retention_round_trip:
  assumes "u \<in> set ''hdwmy''" and "int n \<le> max_int64"
  shows "parseRetention (showNat n @ [u]) = Inr \<lparr>rd_amount = int n, rd_unit = u\<rparr>
    \<and> dateAgo \<lparr>rd_amount = int n, rd_unit = u\<rparr> = showNat n @ '' '' @ unitName u @ '' ago''
    \<and> unitName u \<noteq> []"
  using parseRetention_snoc [OF assms(1), of "showNat n"] assms
  by (auto simp: showNat_digits dateAgo_def showInt_def unitName_def)

theorem retention_round_trip_witness:
  "parseRetention (showNat 3 @ ''d'') = Inr \<lparr>rd_amount = 3, rd_unit = CHR ''d''\<rparr>"
  using retention_round_trip [of "CHR ''d''" 3] by (simp add: max_int64_def)

lemma digitVal_nonzero: "isDigit c \<Longrightarrow> 0 < digitVal c \<longleftrightarrow> CHR ''1'' \<le> c \<and> c \<le> CHR ''9''"
  by (auto simp: isDigit_def digitVal_def less_eq_char_def)

lemma digitsVal_positive:
  "list_all isDigit s \<Longrightarrow> 0 < digitsVal s \<longleftrightarrow> matchesNonzeroDigit s"
proof (induction s rule: rev_induct)
  case Nil
  then show ?case by (simp add: digitsVal_def matchesNonzeroDigit_def)
next
  case (snoc c s)
  then have "isDigit c" "list_all isDigit s" by auto
  then have "0 \<le> digitsVal s" "0 \<le> digitVal c" "0 < digitsVal s \<longleftrightarrow> matchesNonzeroDigit s"
    using digitsVal_bounds [of s] digitVal_range [of c] snoc.IH by auto
  moreover from this have "0 < 10 * digitsVal s + digitVal c \<longleftrightarrow> 0 < digitsVal s \<or> 0 < digitVal c"
    by linarith
  ultimately show ?case
    using digitVal_nonzero [OF \<open>isDigit c\<close>] by (simp add: digitsVal_snoc matchesNonzeroDigit_def)
qed

text \<open>The fields of at most 16 characters leave at most 15 digits, which always fit.\<close>

lemma short_digits_fit:
  assumes "list_all isDigit s" and "length s \<le> 15"
  shows "digitsVal s \<le> max_int64"
proof -
  have "(10::int) ^ length s \<le> 10 ^ 15" using assms(2) by (rule power_increasing) simp
  then show ?thesis using digitsVal_bounds [OF assms(1)] by (simp add: max_int64_def)
qed

lemma retentionPattern_cases:
  assumes "retentionPattern s"
  obtains "s = []"
  | ds u where "s = ds @ [u]" "ds \<noteq> []" "list_all isDigit ds" "u \<in> set ''hdwmy''"
proof (cases s rule: rev_cases)
  case (snoc ds u)
  with assms have "ds \<noteq> []" "list_all isDigit ds" "u \<in> set ''hdwmy''"
    by (auto simp: retentionPattern_def)
  with snoc that(2) show ?thesis by blast
qed (use that in auto)

text \<open>C35: Every value the CRD admits for a retention field is understood: it never fails to parse, its
  amount is the number before the unit, and it turns its frequency on exactly when that number has a
  nonzero digit, which is what the CRD's rule on incremental backups looks for.\<close>

theorem valid_retention_is_understood:
  assumes "retentionFieldValid s"
  shows "\<exists>d. parseRetention s = Inr d \<and> rd_amount d = digitsVal (butlast s)
    \<and> retentionEnabled d = matchesNonzeroDigit s"
proof -
  have "retentionPattern s" "length s \<le> 16" using assms by (auto simp: retentionFieldValid_def)
  from this(1) show ?thesis
  proof (cases rule: retentionPattern_cases)
    case 1
    then show ?thesis
      by (simp add: parseRetention_def noRetention_def retentionEnabled_def matchesNonzeroDigit_def digitsVal_def)
  next
    case (2 ds u)
    then have "digitsVal ds \<le> max_int64" using short_digits_fit [of ds] \<open>length s \<le> 16\<close> by simp
    from parseRetention_snoc [OF 2(4,2,3) this] 2 show ?thesis
      using digitsVal_positive [of ds] unit_cases [OF 2(4)]
      by (auto simp: retentionEnabled_def matchesNonzeroDigit_def)
  qed
qed

theorem valid_retention_is_understood_witness:
  "\<exists>d. parseRetention ''010h'' = Inr d \<and> retentionEnabled d"
  using valid_retention_is_understood [of "''010h''"]
  by (auto simp: retentionFieldValid_def retentionPattern_def matchesNonzeroDigit_def isDigit_def less_eq_char_def)

section \<open>The rule on incremental backups\<close>

abbreviation retention_of :: "Instance \<Rightarrow> RetentionSpec" where
  "retention_of i \<equiv> bk_retention (sp_backup (in_spec i))"

lemma frequencyRetention_enabled:
  assumes "retentionSpecValid (retention_of i)" and "freq \<in> set backupFrequencies"
  shows "retentionEnabled (frequencyRetention i freq) \<longleftrightarrow> matchesNonzeroDigit (bf_retention freq (retention_of i))"
proof -
  have "retentionFieldValid (bf_retention freq (retention_of i))"
    using assms by (auto simp: retentionSpecValid_def retentionFields_def backupFrequencies_def)
  from valid_retention_is_understood [OF this] show ?thesis
    by (auto simp: frequencyRetention_def)
qed


lemma filter_none: "\<forall>x\<in>set xs. \<not> P x \<Longrightarrow> length (filter P xs) = 0"
  by simp

text \<open>In incremental mode the CRD's rule says just what the controller needs: given valid fields, the rule
  holds exactly when the settings, as the controller parses them, turn on at most one frequency.\<close>

theorem incremental_uses_one_frequency:
  assumes "retentionSpecValid (bk_retention (sp_backup (in_spec i)))"
  shows "backupSpecValid (sp_backup (in_spec i)) \<longleftrightarrow>
    \<not> mo_incremental (bk_mode (sp_backup (in_spec i)))
    \<or> length (filter (\<lambda>freq. retentionEnabled (frequencyRetention i freq)) backupFrequencies) \<le> 1"
proof -
  let ?r = "retention_of i"
  have "filter (\<lambda>freq. retentionEnabled (frequencyRetention i freq)) backupFrequencies
      = filter (\<lambda>freq. matchesNonzeroDigit (bf_retention freq ?r)) backupFrequencies"
    by (rule filter_cong) (simp_all add: frequencyRetention_enabled [OF assms])
  moreover have "matchesNonzeroDigit (if s = [] then ''0'' else s) = matchesNonzeroDigit s" for s
    by (simp add: matchesNonzeroDigit_def less_eq_char_def)
  then have "length (filter matchesNonzeroDigit (map (\<lambda>s. if s = [] then ''0'' else s) (retentionFields ?r)))
      = length (filter (\<lambda>freq. matchesNonzeroDigit (bf_retention freq ?r)) backupFrequencies)"
    by (simp add: retentionFields_def backupFrequencies_def)
  ultimately show ?thesis by (simp add: backupSpecValid_def)
qed

section \<open>The CronJobs\<close>

definition jobKey :: "Instance \<Rightarrow> backupFrequency \<Rightarrow> nsname" where
  "jobKey i freq = (in_namespace i, scheduledBackupCronJobName i (bf_name freq))"

definition mkdirCommand :: "backupFrequency \<Rightarrow> string list" where
  "mkdirCommand freq = [''mkdir'', ''-p'', scheduledBackupDir (bf_name freq)]"

text \<open>The CronJob was seen, or else its backup directory has been made.\<close>

definition jobPrepared :: "Instance \<Rightarrow> backupFrequency \<Rightarrow> event set \<Rightarrow> bool" where
  "jobPrepared i freq E =
     ((\<exists>cj. (QGetCronJob (jobKey i freq), RCronJob cj) \<in> E) \<or> ran i (mkdirCommand freq) (Some []) E)"

text \<open>What may be asked for: of an unwanted frequency the deletion of its CronJob, of a wanted one
  looking for its CronJob, making its directory, and storing the CronJob as it should be.\<close>

inductive scheduleStep :: "lib \<Rightarrow> Instance \<Rightarrow> event set \<Rightarrow> request \<Rightarrow> bool" for L i E where
  unwanted: "freq \<in> set backupFrequencies \<Longrightarrow> \<not> frequencyWanted i freq
    \<Longrightarrow> scheduleStep L i E (QDeleteCronJob (jobKey i freq))"
| look: "freq \<in> set backupFrequencies \<Longrightarrow> frequencyWanted i freq
    \<Longrightarrow> scheduleStep L i E (QGetCronJob (jobKey i freq))"
| directory: "freq \<in> set backupFrequencies \<Longrightarrow> frequencyWanted i freq
    \<Longrightarrow> (QGetCronJob (jobKey i freq), RErr e) \<in> E \<Longrightarrow> isNotFound e
    \<Longrightarrow> scheduleStep L i E (QExec (in_namespace i) (firebirdPodName i) (mkdirCommand freq) (Some []))"
| fetch: "freq \<in> set backupFrequencies \<Longrightarrow> frequencyWanted i freq \<Longrightarrow> jobPrepared i freq E
    \<Longrightarrow> scheduleStep L i E (QFetchCronJob (jobKey i freq))"
| store: "freq \<in> set backupFrequencies \<Longrightarrow> frequencyWanted i freq \<Longrightarrow> jobPrepared i freq E
    \<Longrightarrow> (QFetchCronJob (jobKey i freq), RCronJob old) \<in> E
    \<Longrightarrow> mutateScheduledBackupCronJob L i freq old = Inr new \<Longrightarrow> scheduleStep L i E (QStoreCronJob new)"

text \<open>Where a frequency is left when it is done with.\<close>

definition scheduled :: "lib \<Rightarrow> Instance \<Rightarrow> backupFrequency \<Rightarrow> event set \<Rightarrow> bool" where
  "scheduled L i freq E =
     (if frequencyWanted i freq
      then \<exists>old new cj. (QFetchCronJob (jobKey i freq), RCronJob old) \<in> E
             \<and> mutateScheduledBackupCronJob L i freq old = Inr new \<and> (QStoreCronJob new, RCronJob cj) \<in> E
      else \<exists>a. (QDeleteCronJob (jobKey i freq), a) \<in> E \<and> gone a)"

lemma jobPrepared_mono: "jobPrepared i freq E \<Longrightarrow> E \<subseteq> F \<Longrightarrow> jobPrepared i freq F"
  unfolding jobPrepared_def by (blast intro: ran_mono)

lemma scheduled_mono: "scheduled L i freq E \<Longrightarrow> E \<subseteq> F \<Longrightarrow> scheduled L i freq F"
  unfolding scheduled_def by (auto split: if_splits)

lemma asCronJob_NotFound: "asCronJob r = Inl e \<Longrightarrow> isNotFound e \<Longrightarrow> r = RErr e"
  by (cases r) (auto simp: malformed_def)

lemma deleteCronJob_ok:
  assumes "freq \<in> set backupFrequencies" and "\<not> frequencyWanted i freq"
  shows "wpa A (\<lambda>h. scheduleStep L i (set h)) (untouched i h (scheduled L i freq))
    (deleteCronJob (scheduledBackupCronJobName i (bf_name freq))) i h"
  using assms unfolding deleteCronJob_def
  by (auto simp: wprule jobKey_def [symmetric] scheduled_def gone_def
      intro!: scheduleStep.unwanted split: sum.splits)


lemma reconcileScheduledBackupCronJob_ok:
  assumes "freq \<in> set backupFrequencies" and "frequencyWanted i freq"
  shows "wpa A (\<lambda>h. scheduleStep L i (set h)) (untouched i h (scheduled L i freq))
    (reconcileScheduledBackupCronJob L freq) i h"
proof -
  let ?G = "\<lambda>h. scheduleStep L i (set h)"
  let ?store = "bindA (createOrUpdate (QFetchCronJob (jobKey i freq)) asCronJob QStoreCronJob
        (\<lambda>cj. withI (\<lambda>j. liftA (mutateScheduledBackupCronJob L j freq cj)))) (\<lambda>_. ok ())"
  have store: "wpa A ?G (untouched i h (scheduled L i freq)) (wrapA pre' ?store) i h'"
    if "set h \<subseteq> set h'" "jobPrepared i freq (set h')" for h' pre'
    using assms that unfolding createOrUpdate_def
    by (auto simp: wprule scheduled_def intro!: scheduleStep.fetch scheduleStep.store
        elim: jobPrepared_mono)
  have directory: "wpa A ?G (untouched i h (jobPrepared i freq)) (whenA missing
      (wrapA pre (execInPod (in_namespace i) (firebirdPodName i) (mkdirCommand freq) []))) i h'"
    if "set h \<subseteq> set h'" "\<not> missing \<Longrightarrow> jobPrepared i freq (set h')"
      "missing \<Longrightarrow> \<exists>e. (QGetCronJob (jobKey i freq), RErr e) \<in> set h' \<and> isNotFound e" for missing pre h'
    using that assms unfolding wpa_whenA wpa_wrapA
    by (auto simp: jobPrepared_def intro!: wpa_exec intro: scheduleStep.directory)
  have found: "jobPrepared i freq (insert (QGetCronJob (jobKey i freq), RCronJob cj) E)" for cj E
    by (auto simp: jobPrepared_def)
  have rest: "wpa A ?G (untouched i h (scheduled L i freq)) (thenA (whenA missing
      (wrapA pre (execInPod (in_namespace i) (firebirdPodName i) (mkdirCommand freq) []))) (wrapA pre' ?store)) i h'"
    if "set h \<subseteq> set h'" "\<not> missing \<Longrightarrow> jobPrepared i freq (set h')"
      "missing \<Longrightarrow> \<exists>e. (QGetCronJob (jobKey i freq), RErr e) \<in> set h' \<and> isNotFound e" for missing pre pre' h'
    unfolding wpa_thenA by (rule wpa_mono [OF directory [OF that]]) (simp_all add: untouched_def store)
  show ?thesis
    unfolding reconcileScheduledBackupCronJob_def wpa_withI Let_def jobKey_def [symmetric] mkdirCommand_def [symmetric]
    using assms
    by (auto simp: wpa_bindA wpa_tryA wpa_callA wpa_case_sum wpa_If wpa_ok wpa_failA found
        intro!: scheduleStep.look rest) (use asCronJob_NotFound in blast)
qed


lemma reconcileFrequency_ok:
  assumes "freq \<in> set backupFrequencies"
  shows "wpa A (\<lambda>h. scheduleStep L i (set h)) (untouched i h (scheduled L i freq)) (reconcileFrequency L freq) i h"
  unfolding reconcileFrequency_def wpa_withI wpa_If
  using assms by (auto intro!: deleteCronJob_ok untouched_wrapA reconcileScheduledBackupCronJob_ok)

text \<open>C34: reconcileScheduledBackups makes the CronJobs follow the retention: it deletes only the CronJobs of
  frequencies that are off (or of all, without a backup volume), stores one only for a frequency that
  is on, as mutateScheduledBackupCronJob makes it of what was fetched, and only once the CronJob was
  seen or its backup directory was made in the pod; and when it succeeds, every frequency that is on
  has its CronJob stored and every other has none left.\<close>

theorem cronjobs_follow_the_retention:
  assumes "steps (reconcileScheduledBackups L i) tr p"
  shows "(\<forall>pre q a post. tr = pre @ (q, a) # post \<longrightarrow> scheduleStep L i (set pre) q)
    \<and> (\<forall>j. p = Ret (Inr (), j) \<longrightarrow> j = i \<and> (\<forall>freq\<in>set backupFrequencies. scheduled L i freq (set tr)))"
proof -
  have "wpa (\<lambda>_ _ _. True) (\<lambda>h. scheduleStep L i (set h))
      (untouched i [] (\<lambda>E. \<forall>freq\<in>set backupFrequencies. scheduled L i freq E)) (reconcileScheduledBackups L) i []"
    unfolding reconcileScheduledBackups_def by (rule untouched_forA [OF reconcileFrequency_ok scheduled_mono])
  from wpa_run [OF assms this] show ?thesis by fastforce
qed


text \<open>An instance with daily backups kept for three days, and a cluster that holds no CronJob.\<close>

definition nightly :: Instance where
  "nightly = sampleInstance ''5.0.1''\<lparr>in_spec := sampleSpec ''5.0.1''\<lparr>sp_backup :=
     sampleBackup\<lparr>bk_retention := noRetentionSpec\<lparr>rt_day := ''3d''\<rparr>\<rparr>\<rparr>\<rparr>"

definition noJob :: CronJob where
  "noJob = \<lparr>cj_meta = noMeta, cj_spec = \<lparr>cj_schedule = [], cj_concurrencyPolicy = [],
     cj_successfulJobsHistoryLimit = None, cj_failedJobsHistoryLimit = None, cj_jobLabels = Map.empty,
     cj_backoffLimit = None, cj_activeDeadlineSeconds = None,
     cj_template = \<lparr>pt_labels = Map.empty, pt_annotations = Map.empty, pt_spec = emptyPodSpec\<rparr>\<rparr>\<rparr>"

fun jobCluster :: "event list \<Rightarrow> request \<Rightarrow> answer" where
  "jobCluster h (QFetchCronJob k) = RCronJob noJob"
| "jobCluster h (QStoreCronJob cj) = RCronJob cj"
| "jobCluster h q = cluster nightly None None h q"

lemma nightly_wants:
  "frequencyWanted nightly freq \<longleftrightarrow> bf_name freq = ''day''" if "freq \<in> set backupFrequencies"
  using that
  by (auto simp: backupFrequencies_def frequencyWanted_def backupVolumeSpec_def nightly_def sample_defs
      frequencyRetention_def parseRetention_def retentionEnabled_def noRetention_def
      atoi_def isDigit_def digitsVal_def digitVal_def less_eq_char_def min_int64_def max_int64_def)

theorem cronjobs_follow_the_retention_witness:
  "\<exists>tr new cj j. steps (reconcileScheduledBackups sampleLib nightly) tr (Ret (Inr (), j))
     \<and> (QStoreCronJob new, RCronJob cj) \<in> set tr \<and> cj_schedule (cj_spec new) = ''0 0 * * *''"
proof -
  let ?run = "runWith jobCluster (reconcileScheduledBackups sampleLib nightly) []"
  have wanted: "frequencyWanted nightly \<lparr>bf_name = n, bf_schedule = s, bf_retention = r\<rparr> \<longleftrightarrow> n = ''day''"
    if "\<lparr>bf_name = n, bf_schedule = s, bf_retention = r\<rparr> \<in> set backupFrequencies" for n s r
    using nightly_wants [OF that] by simp
  have "fst (fst ?run) = Inr ()"
    by (simp add: reconcileScheduledBackups_def reconcileFrequency_def backupFrequencies_def wanted
        reconcileScheduledBackupCronJob_def deleteCronJob_def execInPod_def createOrUpdate_def liftA_def
        mutateScheduledBackupCronJob_def setOwner_def sampleLib_def act_defs Let_def)
  then obtain j where "fst ?run = (Inr (), j)" by (cases "fst ?run") auto
  from run_steps [OF this] have run: "steps (reconcileScheduledBackups sampleLib nightly) (rev (snd ?run)) (Ret (Inr (), j))" .
  let ?day = "backupFrequencies ! 1"
  have day: "?day \<in> set backupFrequencies" "frequencyWanted nightly ?day" "bf_schedule ?day = ''0 0 * * *''"
    using nightly_wants [of ?day] by (simp_all add: backupFrequencies_def)
  with cronjobs_follow_the_retention [OF run] have "scheduled sampleLib nightly ?day (set (rev (snd ?run)))" by blast
  then obtain old new cj where "mutateScheduledBackupCronJob sampleLib nightly ?day old = Inr new"
    and stored: "(QStoreCronJob new, RCronJob cj) \<in> set (rev (snd ?run))"
    using day by (auto simp: scheduled_def)
  then have "cj_schedule (cj_spec new) = ''0 0 * * *''"
    using day(3) by (auto simp: mutateScheduledBackupCronJob_def setOwner_def desiredCronJob_def sampleLib_def Let_def)
  with run stored show ?thesis by blast
qed

definition hourly :: Instance where
  "hourly = nightly\<lparr>in_spec := (in_spec nightly)\<lparr>sp_backup := (sp_backup (in_spec nightly))
     \<lparr>bk_mode := \<lparr>mo_type = BackupModePhysical, mo_incremental = True\<rparr>, bk_retention := noRetentionSpec\<lparr>rt_hour := ''8h'', rt_day := ''0d''\<rparr>\<rparr>\<rparr>\<rparr>"

theorem incremental_uses_one_frequency_witness:
  "mo_incremental (bk_mode (sp_backup (in_spec hourly))) \<and> backupSpecValid (sp_backup (in_spec hourly))"
proof -
  have "retentionSpecValid (bk_retention (sp_backup (in_spec hourly)))" by code_simp
  moreover have "length (filter (\<lambda>freq. retentionEnabled (frequencyRetention hourly freq)) backupFrequencies) \<le> 1"
    by code_simp
  moreover have "mo_incremental (bk_mode (sp_backup (in_spec hourly)))" by code_simp
  ultimately show ?thesis using incremental_uses_one_frequency [of hourly] by simp
qed

end
