(* ===== verification/Versions.thy ===== *)
theory Versions
  imports Samples "HOL-Library.Sublist"
begin

text \<open>
  Versions and tags: what \<open>parseServerVersion\<close> reads out of the server's answer, when
  \<open>reconcileFirebirdVersion\<close> asks for it, how a tag is read as a major version, what is decided on it,
  and that the version put into a StatefulSet is the one read out of it.
\<close>

section \<open>The server's answer\<close>

lemma findVersion_split: "findVersion s = Some v \<Longrightarrow> \<exists>pre rest. s = pre @ ''-V'' @ v @ rest"
proof (induction s rule: findVersion.induct)
  case (2 c cs)
  show ?case
  proof (cases "hasPrefix (c # cs) ''-V'' \<and> matchVersion (drop 2 (c # cs)) = Some v")
    case True
    then obtain rest where "drop 2 (c # cs) = v @ rest"
      using matchVersion_prefix unfolding hasPrefix_def by (metis append_take_drop_id)
    moreover have "take 2 (c # cs) = ''-V''" using True by (simp add: hasPrefix_def)
    ultimately have "c # cs = [] @ ''-V'' @ v @ rest"
      using append_take_drop_id [of 2 "c # cs"] by simp
    then show ?thesis by blast
  next
    case False
    with 2 have "\<exists>pre rest. cs = pre @ ''-V'' @ v @ rest"
      by (auto split: if_splits option.splits)
    then show ?thesis by (metis append_Cons)
  qed
qed simp

lemma findVersion_skip:
  "\<not> sublist ''-V'' (pre @ ''-'') \<Longrightarrow> findVersion (pre @ ''-V'' @ s) = findVersion (''-V'' @ s)"
proof (induction pre)
  case (Cons c pre)
  have "\<not> hasPrefix (c # pre @ ''-V'' @ s) ''-V''"
  proof
    assume "hasPrefix (c # pre @ ''-V'' @ s) ''-V''"
    then have "c = CHR ''-''" "take 1 (pre @ ''-V'') = ''V''"
      by (cases pre; auto simp: hasPrefix_def numeral_2_eq_2)+
    then have "prefix ''-V'' ((c # pre) @ ''-'')" by (cases pre) auto
    then show False using Cons.prems by (auto dest: prefix_imp_sublist)
  qed
  moreover have "\<not> sublist ''-V'' (pre @ ''-'')" using Cons.prems by (auto simp: sublist_Cons_right)
  ultimately show ?case using Cons.IH by simp
qed simp

text \<open>Reading the server's version. What is read is a version of three numbers that stands right after
  -V in the answer; and of an answer whose first -V a version follows, that version is read, in full.\<close>

theorem server_version_is_read:
  "(parseServerVersion out = Inr v \<longrightarrow> isVersion v \<and> (\<exists>pre rest. out = pre @ ''-V'' @ v @ rest))
   \<and> (isVersion v \<and> \<not> sublist ''-V'' (pre @ ''-'') \<and> (rest = [] \<or> \<not> isDigit (hd rest))
      \<longrightarrow> parseServerVersion (pre @ ''-V'' @ v @ rest) = Inr v)"
proof (intro conjI impI)
  assume "parseServerVersion out = Inr v"
  then have found: "findVersion out = Some v" by (simp add: parseServerVersion_def split: option.splits)
  from findVersion_isVersion [OF found] show "isVersion v" .
  from findVersion_split [OF found] show "\<exists>pre rest. out = pre @ ''-V'' @ v @ rest" .
next
  assume a: "isVersion v \<and> \<not> sublist ''-V'' (pre @ ''-'') \<and> (rest = [] \<or> \<not> isDigit (hd rest))"
  then obtain a b c where abc: "v = a @ ''.'' @ b @ ''.'' @ c" "a \<noteq> []" "b \<noteq> []" "c \<noteq> []"
    "list_all isDigit a" "list_all isDigit b" "list_all isDigit c" unfolding isVersion_def by blast
  have "matchVersion (v @ rest) = Some v"
    using matchVersion_of [OF abc(5,2,6,3,7,4), of rest] abc(1) a by simp
  then have "findVersion (''-V'' @ v @ rest) = Some v" by (simp add: hasPrefix_def)
  then show "parseServerVersion (pre @ ''-V'' @ v @ rest) = Inr v"
    using findVersion_skip [of pre "v @ rest"] a by (simp add: parseServerVersion_def)
qed

theorem server_version_is_read_witness:
  "parseServerVersion ''Server version: LI-V5.0.1.1469 Firebird 5.0'' = Inr ''5.0.1''"
proof -
  have "isVersion ''5.0.1''"
    unfolding isVersion_def
    by (rule exI [of _ "''5''"], rule exI [of _ "''0''"], rule exI [of _ "''1''"])
      (simp add: isDigit_def less_eq_char_def)
  moreover have "\<not> sublist ''-V'' (''Server version: LI'' @ ''-'')" by (simp add: sublist_Cons_right)
  moreover have "\<not> isDigit (hd ''.1469 Firebird 5.0'')" by simp
  ultimately show ?thesis
    using server_version_is_read [of _ "''5.0.1''" "''Server version: LI''" "''.1469 Firebird 5.0''"] by simp
qed

section \<open>When the server is asked\<close>

definition versionLabel :: "Pod \<Rightarrow> string" where
  "versionLabel pod = mapGet (om_labels (pod_meta pod)) firebirdVersionLabelKey"

definition podLabelled :: "Pod \<Rightarrow> string \<Rightarrow> Pod" where
  "podLabelled pod v = pod\<lparr>pod_meta := (pod_meta pod)\<lparr>om_labels :=
     (om_labels (pod_meta pod))(firebirdVersionLabelKey \<mapsto> v)\<rparr>\<rparr>"

text \<open>The server of an unlabelled pod has given an answer with the version \<open>v\<close>.\<close>

definition answeredVersion :: "Instance \<Rightarrow> Pod \<Rightarrow> string \<Rightarrow> event set \<Rightarrow> bool" where
  "answeredVersion i pod v E =
     (\<exists>pw r out. (QExec (in_namespace i) (om_name (pod_meta pod)) (versionCommand pw) None, r) \<in> E
        \<and> asExec r = Inr out \<and> parseServerVersion out = Inr v)"

text \<open>The version the pod is known to run: by its label, or asked for and then written to it.\<close>

definition knownVersion :: "Instance \<Rightarrow> string \<Rightarrow> event set \<Rightarrow> bool" where
  "knownVersion i v E =
     (\<exists>pod. (QGetPod (in_namespace i, firebirdPodName i), RPod pod) \<in> E
        \<and> (if versionLabel pod \<noteq> [] then v = versionLabel pod
           else answeredVersion i pod v E
             \<and> (\<exists>r. (QPatchPod pod (podLabelled pod v), r) \<in> E \<and> asUnit r = Inr ())))"

lemma knownVersion_mono: "knownVersion i v E \<Longrightarrow> E \<subseteq> F \<Longrightarrow> knownVersion i v F"
  unfolding knownVersion_def answeredVersion_def by (auto split: if_splits)

inductive versionStep :: "Instance \<Rightarrow> event set \<Rightarrow> request \<Rightarrow> bool" for i E where
  pod: "versionStep i E (QGetPod (in_namespace i, firebirdPodName i))"
| password: "versionStep i E (QGetSecret (in_namespace i, sysdbaSecretRefName i))"
| ask: "(QGetPod (in_namespace i, firebirdPodName i), RPod pod) \<in> E \<Longrightarrow> versionLabel pod = []
    \<Longrightarrow> versionStep i E (QExec (in_namespace i) (om_name (pod_meta pod)) (versionCommand pw) None)"
| label: "(QGetPod (in_namespace i, firebirdPodName i), RPod pod) \<in> E \<Longrightarrow> versionLabel pod = []
    \<Longrightarrow> answeredVersion i pod v E \<Longrightarrow> versionStep i E (QPatchPod pod (podLabelled pod v))"
| written: "knownVersion i v E \<Longrightarrow> v \<noteq> st_firebirdVersion (in_status i)
    \<Longrightarrow> versionStep i E (QUpdateStatus (upd_status (\<lambda>s. s\<lparr>st_firebirdVersion := v\<rparr>) i))"

definition versionRecorded :: "Instance \<Rightarrow> error + unit \<Rightarrow> Instance \<Rightarrow> event list \<Rightarrow> bool" where
  "versionRecorded i r j h =
     (r = Inr () \<longrightarrow> (\<exists>v. knownVersion i v (set h)
        \<and> (j = i \<and> v = st_firebirdVersion (in_status i)
           \<or> (QUpdateStatus (upd_status (\<lambda>s. s\<lparr>st_firebirdVersion := v\<rparr>) i), RInstance j) \<in> set h)))"

lemma detectFirebirdVersion_ok:
  assumes "(QGetPod (in_namespace i, firebirdPodName i), RPod pod) \<in> set h" and "versionLabel pod = []"
  shows "wpa A (\<lambda>h. versionStep i (set h)) (\<lambda>r j h'. j = i \<and> (\<forall>v. r = Inr v \<longrightarrow> knownVersion i v (set h')))
    (detectFirebirdVersion pod) i h"
  using assms unfolding detectFirebirdVersion_def sysdbaPassword_def execInPodOutput_def podLabelled_def [symmetric]
  by (auto simp: wprule Let_def split: sum.splits intro!: versionStep.intros)
    (auto simp: knownVersion_def answeredVersion_def)


lemma reconcileFirebirdVersion_ok:
  "wpa A (\<lambda>h. versionStep i (set h)) (versionRecorded i) reconcileFirebirdVersion i h"
proof -
  let ?G = "\<lambda>h. versionStep i (set h)"
  have rest: "wpa A ?G (versionRecorded i) (withI (\<lambda>j. if st_firebirdVersion (in_status j) = v then ok ()
      else thenA (modifyI (upd_status (\<lambda>s. s\<lparr>st_firebirdVersion := v\<rparr>))) updateStatus)) i h'"
    if "knownVersion i v (set h')" for v h'
    using that
    by (auto simp: wprule versionRecorded_def asInstance_Inr intro!: versionStep.written
        intro: exI [of _ v] knownVersion_mono [of i v "set h'"])
  have finish: "wpa A ?G (versionRecorded i) (bindA m
      (\<lambda>v. withI (\<lambda>j. if st_firebirdVersion (in_status j) = v then ok ()
        else thenA (modifyI (upd_status (\<lambda>s. s\<lparr>st_firebirdVersion := v\<rparr>))) updateStatus))) i h'"
    if "wpa A ?G (\<lambda>r j h''. j = i \<and> (\<forall>v. r = Inr v \<longrightarrow> knownVersion i v (set h''))) m i h'" for m h'
    unfolding wpa_bindA by (rule wpa_mono [OF that]) (auto intro!: rest simp: versionRecorded_def)
  show ?thesis
    unfolding reconcileFirebirdVersion_def
    by (auto simp: wpa_withI wpa_bindA [where m = "wrapA _ _"] wpa_wrapA wpa_callA asPod_Inr versionRecorded_def
        versionLabel_def Let_def knownVersion_def wpa_ok intro!: versionStep.pod finish detectFirebirdVersion_ok)
qed


text \<open>The server is asked for its version once per pod. Only a pod without the label is asked, it is
  labelled with what it answered, and only then does the status record the version; and when
  reconcileFirebirdVersion succeeds, the version in the status is the one of the pod's label, or the one
  the pod answered and has been labelled with.\<close>

theorem version_is_detected_once:
  assumes "steps (reconcileFirebirdVersion i) tr p"
  shows "(\<forall>pre q a post. tr = pre @ (q, a) # post \<longrightarrow> versionStep i (set pre) q)
    \<and> (\<forall>j. p = Ret (Inr (), j) \<longrightarrow> versionRecorded i (Inr ()) j (rev tr))"
  using wpa_run [OF assms reconcileFirebirdVersion_ok] by fastforce


text \<open>A pod without labels whose server answers with its version.\<close>

definition banner :: string where
  "banner = ''Server version: LI-V5.0.1.1469 Firebird 5.0''"

fun talkingPod :: "event list \<Rightarrow> request \<Rightarrow> answer" where
  "talkingPod h (QExec ns pod cmd stdin) = RExec banner [] None"
| "talkingPod h q = cluster (sampleInstance ''5.0.1'') None (Some (finishedPod [])) h q"

theorem version_is_detected_once_witness:
  "\<exists>tr j. steps (reconcileFirebirdVersion (sampleInstance ''5.0.1'')) tr (Ret (Inr (), j))
     \<and> versionRecorded (sampleInstance ''5.0.1'') (Inr ()) j (rev tr)
     \<and> st_firebirdVersion (in_status j) = ''5.0.1''"
proof -
  let ?i = "sampleInstance ''5.0.1''"
  let ?run = "runWith talkingPod (reconcileFirebirdVersion ?i) []"
  have parse: "parseServerVersion banner = Inr ''5.0.1''" by code_simp
  have "fst ?run = (Inr (), upd_status (\<lambda>s. s\<lparr>st_firebirdVersion := ''5.0.1''\<rparr>) ?i)"
    by (simp add: reconcileFirebirdVersion_def detectFirebirdVersion_def sysdbaPassword_def execInPodOutput_def
        act_defs Let_def finishedPod_def noMeta_def mapGet_def sample_defs parse)
  from run_steps [OF this] version_is_detected_once [OF run_steps [OF this]] show ?thesis
    by (intro exI conjI) auto
qed

section \<open>Tags\<close>

lemma cut_at_digits:
  assumes "list_all isDigit ds" and "rest = [] \<or> hd rest = CHR ''.'' \<or> hd rest = CHR ''-''"
  shows "cutBefore (CHR ''-'') (cutBefore (CHR ''.'') (ds @ rest)) = ds"
proof -
  have "\<not> isDigit CHR ''-''" by (simp add: isDigit_def less_eq_char_def)
  then have dot: "CHR ''.'' \<notin> set ds" and dash: "CHR ''-'' \<notin> set ds"
    using assms(1) not_isDigit_dot by (auto simp: list_all_iff)
  show ?thesis
  proof (cases rest)
    case (Cons c cs)
    with assms(2) have "c = CHR ''.'' \<or> c = CHR ''-''" by simp
    then show ?thesis
    proof
      assume "c = CHR ''-''"
      moreover have "cutBefore (CHR ''.'') (ds @ c # cs) = ds @ cutBefore (CHR ''.'') (c # cs)"
        using dot by (auto simp: cutBefore_def takeWhile_append)
      moreover have "cutBefore (CHR ''.'') (CHR ''-'' # cs) = CHR ''-'' # cutBefore (CHR ''.'') cs"
        by (simp add: cutBefore_def)
      ultimately show ?thesis using dash Cons by simp
    qed (simp add: Cons dot dash)
  qed (use dot dash in simp)
qed

lemma firebirdMajorVersion_of:
  assumes "0 < n" and "int n \<le> max_int64" and "rest = [] \<or> hd rest = CHR ''.'' \<or> hd rest = CHR ''-''"
  shows "firebirdMajorVersion (showNat n @ rest) = Some (int n)"
  using assms by (simp add: firebirdMajorVersion_def cut_at_digits [OF showNat_digits assms(3)] atoi_showNat)

definition isTag :: "nat \<Rightarrow> string \<Rightarrow> bool" where
  "isTag n tag =
     (0 < n \<and> int n \<le> max_int64
      \<and> (\<exists>rest. tag = showNat n @ rest \<and> (rest = [] \<or> hd rest = CHR ''.'' \<or> hd rest = CHR ''-'')))"

lemma firebirdMajorVersion_tag: "isTag n tag \<Longrightarrow> firebirdMajorVersion tag = Some (int n)"
  unfolding isTag_def using firebirdMajorVersion_of by blast

text \<open>C36: What a change of version means. For two tags that begin with a major version, alone or followed by
  a dot or a dash: the same major version is no upgrade, an older one is refused, a newer one is
  refused without a local backup volume and starts an upgrade with one.\<close>

theorem upgrade_is_decided_by_major:
  assumes "isTag m running" and "isTag n wanted"
  shows "(decideUpgrade running wanted vol = NoUpgrade \<longleftrightarrow> m = n)
    \<and> (decideUpgrade running wanted vol = StartUpgrade \<longleftrightarrow> m < n \<and> vol)
    \<and> ((\<exists>e. decideUpgrade running wanted vol = Refused e) \<longleftrightarrow> n < m \<or> m < n \<and> \<not> vol)"
  using assms by (auto simp: decideUpgrade_def firebirdMajorVersion_tag)

theorem upgrade_is_decided_by_major_witness:
  "decideUpgrade ''4.0.3'' ''5-bookworm'' True = StartUpgrade"
proof -
  have digits: "showNat 4 = ''4''" "showNat 5 = ''5''" by code_simp+
  have "isTag 4 ''4.0.3''" and "isTag 5 ''5-bookworm''"
    unfolding isTag_def by (simp_all add: max_int64_def digits)
  from upgrade_is_decided_by_major [OF this, of True] show ?thesis by simp
qed

section \<open>The version of a StatefulSet\<close>

lemma server_version_of:
  assumes "CHR '':'' \<notin> set (sp_version (in_spec i))" and "CHR ''/'' \<notin> set (sp_version (in_spec i))"
  shows "statefulSetFirebirdVersion (desiredStatefulSet i password sts) = sp_version (in_spec i)"
proof -
  have "imageTag (instanceImage i) = sp_version (in_spec i)"
    using assms by (simp add: imageTag_def instanceImage_def)
  then show ?thesis
    by (simp add: statefulSetFirebirdVersion_def desiredStatefulSet_def desiredTemplate_def firebirdContainer_def)
qed

lemma same_version_stays: "decideUpgrade v v vol = NoUpgrade"
  by (simp add: decideUpgrade_def split: option.splits)

text \<open>C37: The version goes round: what mutateStatefulSet puts into the image of the server is what
  statefulSetFirebirdVersion reads out of it, for a version that is a plain tag; so a StatefulSet that
  has been brought up to date needs no upgrade, whatever the tag.\<close>

theorem server_version_reads_back:
  assumes "CHR '':'' \<notin> set (sp_version (in_spec i))" and "CHR ''/'' \<notin> set (sp_version (in_spec i))"
  shows "statefulSetFirebirdVersion (desiredStatefulSet i password sts) = sp_version (in_spec i)
    \<and> decideUpgrade (statefulSetFirebirdVersion (desiredStatefulSet i password sts)) (sp_version (in_spec i)) vol
        = NoUpgrade"
  using server_version_of [OF assms] by (simp add: same_version_stays)

theorem server_version_reads_back_witness:
  "statefulSetFirebirdVersion (desiredStatefulSet (sampleInstance ''5.0.1'') ''masterkey'' (sampleSts ''localhost:5000/firebird:4'' 1)) = ''5.0.1''"
  using server_version_reads_back [of "sampleInstance ''5.0.1''"] by (simp add: sample_defs)

end
