(* ===== verification/Names.thy ===== *)
theory Names
  imports Samples
begin

text \<open>
  Where the files of a database are: its file, its shadow and its backup, each in its own directory and
  apart from those of other databases and from the security database; and which backups the orphan
  warning names.
\<close>

section \<open>Joining a directory and a name\<close>

lemma splitOn_not_Nil [simp]: "splitOn c s \<noteq> []"
  by (induction s) (auto split: list.splits)

lemma splitOn_append: "splitOn c (a @ c # b) = splitOn c a @ splitOn c b"
proof (induction a)
  case (Cons x a)
  then show ?case by (cases "splitOn c a") (auto split: list.splits)
qed simp

lemma splitOn_single: "c \<notin> set b \<Longrightarrow> splitOn c b = [b]"
  by (induction b) auto

lemma cleanElems_snoc:
  "e \<noteq> [] \<Longrightarrow> e \<noteq> ''.'' \<Longrightarrow> e \<noteq> ''..''
   \<Longrightarrow> cleanElems rooted out (es @ [e]) = cleanElems rooted out es @ [e]"
  by (induction rooted out es rule: cleanElems.induct) (auto split: list.splits)

lemma joinWith_snoc: "es \<noteq> [] \<Longrightarrow> joinWith sep (es @ [e]) = joinWith sep es @ sep @ e"
  by (induction sep es rule: joinWith.induct) auto

text \<open>A name that is one element of a path.\<close>

definition plainName :: "string \<Rightarrow> bool" where
  "plainName s = (s \<noteq> [] \<and> CHR ''/'' \<notin> set s \<and> s \<noteq> ''.'' \<and> s \<noteq> ''..'')"

text \<open>An absolute, clean directory.\<close>

definition cleanDir :: "string \<Rightarrow> bool" where
  "cleanDir d =
     (d \<noteq> [] \<and> hd d = CHR ''/'' \<and> cleanElems True [] (splitOn (CHR ''/'') d) \<noteq> []
      \<and> CHR ''/'' # joinWith ''/'' (cleanElems True [] (splitOn (CHR ''/'') d)) = d)"

lemma pathJoin_plain:
  assumes "cleanDir d" and "plainName n"
  shows "pathJoin [d, n] = d @ ''/'' @ n"
proof -
  let ?es = "cleanElems True [] (splitOn (CHR ''/'') d)"
  have "cleanElems True [] (splitOn (CHR ''/'') (d @ ''/'' @ n)) = ?es @ [n]"
    using assms(2) by (simp add: splitOn_append splitOn_single plainName_def cleanElems_snoc)
  moreover have "d @ ''/'' @ n \<noteq> []" "hd (d @ ''/'' @ n) = CHR ''/''" using assms(1) by (auto simp: cleanDir_def)
  ultimately have "pathClean (d @ ''/'' @ n) = CHR ''/'' # joinWith ''/'' (?es @ [n])"
    by (simp add: pathClean_def Let_def)
  also have "\<dots> = d @ ''/'' @ n"
    using assms(1) unfolding cleanDir_def by (metis joinWith_snoc append_Cons)
  finally show ?thesis
    using assms by (simp add: pathJoin_def cleanDir_def plainName_def)
qed

lemma clean_dirs:
  "cleanDir primaryDataMountPath" "cleanDir shadowDataMountPath" "cleanDir instanceBackupDir"
  by code_simp+

lemma dirs_apart:
  "primaryDataMountPath @ ''/'' @ a \<noteq> shadowDataMountPath @ ''/'' @ b"
  "primaryDataMountPath @ ''/'' @ a \<noteq> instanceBackupDir @ ''/'' @ b"
  "shadowDataMountPath @ ''/'' @ a \<noteq> instanceBackupDir @ ''/'' @ b"
proof -
  have dir: "instanceBackupDir = ''/var/lib/firebird/backup/base''" by code_simp
  show "primaryDataMountPath @ ''/'' @ a \<noteq> shadowDataMountPath @ ''/'' @ b"
    "primaryDataMountPath @ ''/'' @ a \<noteq> instanceBackupDir @ ''/'' @ b"
    "shadowDataMountPath @ ''/'' @ a \<noteq> instanceBackupDir @ ''/'' @ b"
    unfolding dir by (simp_all add: primaryDataMountPath_def shadowDataMountPath_def)
qed

text \<open>Two files in one directory are one only by name.\<close>

lemma same_file:
  "cleanDir d \<Longrightarrow> plainName a \<Longrightarrow> plainName b \<Longrightarrow> pathJoin [d, a] = pathJoin [d, b] \<longleftrightarrow> a = b"
  by (simp add: pathJoin_plain)

lemma backupFileName_inj:
  "hasSuffix a ''.fdb'' \<Longrightarrow> hasSuffix b ''.fdb'' \<Longrightarrow> backupFileName a = backupFileName b \<longleftrightarrow> a = b"
  by (auto simp: hasSuffix_iff)

lemma plain_backup:
  assumes "plainName a" and "hasSuffix a ''.fdb''"
  shows "plainName (backupFileName a)"
proof -
  from assms(2) obtain b where a: "a = b @ ''.fdb''" by (auto simp: hasSuffix_iff)
  then have "CHR ''/'' \<notin> set b" using assms(1) by (auto simp: plainName_def)
  moreover have "b @ ''.fbk'' \<noteq> ''.''" "b @ ''.fbk'' \<noteq> ''..''"
    by (auto dest: arg_cong [where f = last])
  ultimately show ?thesis by (simp add: a plainName_def)
qed

lemma plain_security:
  assumes "CHR ''/'' \<notin> set version"
  shows "plainName (securityDatabaseFileNameForVersion version)"
    and "hasSuffix (securityDatabaseFileNameForVersion version) ''.fdb''"
proof -
  have "set (cutBefore (CHR ''.'') version) \<subseteq> set version"
    by (auto simp: cutBefore_def dest: set_takeWhileD)
  with assms have slash: "CHR ''/'' \<notin> set (if cutBefore (CHR ''.'') version = [] then ''4'' else cutBefore (CHR ''.'') version)"
    by auto
  then show "plainName (securityDatabaseFileNameForVersion version)"
    by (simp add: securityDatabaseFileNameForVersion_def Let_def plainName_def)
  show "hasSuffix (securityDatabaseFileNameForVersion version) ''.fdb''"
    by (simp add: securityDatabaseFileNameForVersion_def Let_def hasSuffix_iff)
qed

text \<open>C38: The files are kept apart. For databases with plain names that end in .fdb: each has its own file,
  shadow and backup, each right in the directory for them, and no file of one is a shadow or a backup
  of the same or another, and no shadow a backup; no file is the security database, and no backup that
  of a security database, unless the database bears the security database's name.\<close>

theorem database_files_are_apart:
  assumes "plainName a" and "hasSuffix a ''.fdb''" and "plainName b" and "hasSuffix b ''.fdb''"
    and "CHR ''/'' \<notin> set version" and "CHR ''/'' \<notin> set (sp_version (in_spec i))"
  shows "primaryPath a = primaryDataMountPath @ ''/'' @ a
    \<and> shadowPath a = shadowDataMountPath @ ''/'' @ a
    \<and> backupPath a = instanceBackupDir @ ''/'' @ backupFileName a
    \<and> primaryPath a \<noteq> shadowPath b \<and> primaryPath a \<noteq> backupPath b \<and> shadowPath a \<noteq> backupPath b
    \<and> (primaryPath a = primaryPath b \<longleftrightarrow> a = b)
    \<and> (shadowPath a = shadowPath b \<longleftrightarrow> a = b)
    \<and> (backupPath a = backupPath b \<longleftrightarrow> a = b)
    \<and> (primaryPath a = securityDatabasePath i \<longleftrightarrow> a = securityDatabaseFileName i)
    \<and> (backupPath a = securityDatabaseBackupPathForVersion version
        \<longleftrightarrow> a = securityDatabaseFileNameForVersion version)"
  using assms plain_security [OF assms(5)] plain_security [OF assms(6)]
    dirs_apart(1) [of a b] dirs_apart(2) [of a "backupFileName b"] dirs_apart(3) [of a "backupFileName b"]
  by (simp add: primaryPath_def shadowPath_def backupPath_def securityDatabasePath_def securityDatabaseFileName_def
      securityDatabaseBackupPathForVersion_def same_file clean_dirs plain_backup backupFileName_inj pathJoin_plain)


theorem database_files_are_apart_witness:
  "primaryPath ''a.fdb'' = ''/var/lib/firebird/data/a.fdb'' \<and> backupPath ''a.fdb'' \<noteq> backupPath ''b.fdb''
   \<and> primaryPath ''security5.fdb'' = securityDatabasePath (sampleInstance ''5.0.1'')"
proof -
  have "securityDatabaseFileName (sampleInstance ''5.0.1'') = ''security5.fdb''" by code_simp
  moreover have "sp_version (in_spec (sampleInstance ''5.0.1'')) = ''5.0.1''" by (simp add: sample_defs)
  ultimately show ?thesis
    using database_files_are_apart [of "''a.fdb''" "''b.fdb''" "''5.0.1''" "sampleInstance ''5.0.1''"]
      database_files_are_apart [of "''security5.fdb''" "''b.fdb''" "''5.0.1''" "sampleInstance ''5.0.1''"]
    by (auto simp: plainName_def hasSuffix_def primaryDataMountPath_def)
qed

text \<open>Two databases can share a backup: of a name without .fdb, the backup file is that of the name with
  .fdb, and although the database is declared its own backup is reported as that of a database nobody
  declares, if its name is not that of a security database's backup.\<close>

theorem names_without_fdb_collide:
  assumes "\<not> hasSuffix name ''.fdb''" and "\<not> securityDatabaseBackupPattern (backupFileName name)"
    and "name @ ''.fdb'' \<notin> set (map db_name dbs)"
  shows "backupFileName name = backupFileName (name @ ''.fdb'') \<and> isOrphan dbs (backupFileName name)"
  using assms by (simp add: backupFileName_def trimSuffix_def [of name] isOrphan_def)

theorem names_without_fdb_collide_witness:
  "isOrphan [sampleDatabase ''sales''] (backupFileName ''sales'')"
proof -
  have "\<not> hasSuffix ''sales'' ''.fdb''" "\<not> securityDatabaseBackupPattern (backupFileName ''sales'')"
    by code_simp+
  moreover have "''sales'' @ ''.fdb'' \<notin> set (map db_name [sampleDatabase ''sales''])"
    by (simp add: sampleDatabase_def)
  ultimately show ?thesis using names_without_fdb_collide by blast
qed

section \<open>Orphans\<close>

text \<open>What \<open>ls -1\<close> prints of names without white space is read back as those names.\<close>

definition fileName :: "string \<Rightarrow> bool" where
  "fileName f = (f \<noteq> [] \<and> (\<forall>c\<in>set f. \<not> isSpace c))"

lemma strFieldsAux_word:
  "\<forall>c\<in>set w. \<not> isSpace c \<Longrightarrow> cur \<noteq> [] \<or> w \<noteq> []
   \<Longrightarrow> strFieldsAux cur (w @ CHR 0x0A # rest) = (rev cur @ w) # strFieldsAux [] rest"
  by (induction w arbitrary: cur) (auto simp: isSpace_def)

lemma strFields_unlines: "list_all fileName files \<Longrightarrow> strFields (unlines files) = files"
proof (induction files)
  case (Cons f files)
  then have "strFieldsAux [] (f @ CHR 0x0A # unlines files) = f # strFieldsAux [] (unlines files)"
    using strFieldsAux_word [of f "[]"] by (auto simp: fileName_def)
  then show ?case using Cons by (simp add: strFields_def ln_def)
qed (simp add: strFields_def)

text \<open>The orphan warning is exact. When the backup directory is listed, a database whose name ends in .fdb
  is named in the warning exactly when its backup is there, it is not declared, and the file is not the
  backup of a security database; and the names are in order.\<close>

theorem orphan_warning_is_exact:
  assumes "list_all fileName files"
  shows "(b @ ''.fdb'' \<in> set (orphansListed dbs (unlines files)) \<longleftrightarrow>
      backupFileName (b @ ''.fdb'') \<in> set files \<and> b @ ''.fdb'' \<notin> set (map db_name dbs)
      \<and> \<not> securityDatabaseBackupPattern (backupFileName (b @ ''.fdb'')))
    \<and> sorted (orphansListed dbs (unlines files))"
proof -
  have listed: "isOrphan dbs f \<longleftrightarrow> (\<exists>c. f = c @ ''.fbk'' \<and> c @ ''.fdb'' \<notin> set (map db_name dbs)
      \<and> \<not> securityDatabaseBackupPattern f)" for f
    unfolding isOrphan_def hasSuffix_iff by (auto simp del: set_map)
  have "b @ ''.fdb'' \<in> set (orphansListed dbs (unlines files)) \<longleftrightarrow>
      (\<exists>f\<in>set files. isOrphan dbs f \<and> trimSuffix f ''.fbk'' @ ''.fdb'' = b @ ''.fdb'')"
    by (auto simp: orphansListed_def strFields_unlines [OF assms])
  also have "\<dots> \<longleftrightarrow> b @ ''.fbk'' \<in> set files \<and> isOrphan dbs (b @ ''.fbk'')"
    by (auto simp: listed simp del: set_map)
  finally show ?thesis by (auto simp: orphansListed_def listed simp del: set_map)
qed

theorem orphan_warning_is_exact_witness:
  "''b.fdb'' \<in> set (orphansListed [sampleDatabase ''a.fdb''] (unlines [''a.fbk'', ''b.fbk'', ''security4.fbk'']))"
proof -
  have "\<not> securityDatabaseBackupPattern ''b.fbk''" by code_simp
  moreover have "backupFileName ''b.fdb'' = ''b.fbk''" by code_simp
  moreover have "list_all fileName [''a.fbk'', ''b.fbk'', ''security4.fbk'']"
    by (simp add: fileName_def isSpace_def)
  ultimately show ?thesis
    using orphan_warning_is_exact [of "[''a.fbk'', ''b.fbk'', ''security4.fbk'']" "''b''" "[sampleDatabase ''a.fdb'']"]
    by (simp add: sampleDatabase_def)
qed

end
