(* ===== verification/Timestamps.thy ===== *)
theory Timestamps
  imports Schedule
begin

text \<open>
  The UTC timestamps scheduled backups carry, as \<open>date -u\<close> prints them with the format
  \<open>scheduledBackupTimestampDate\<close>: fixed width and most significant first, so that the scripts may
  compare them as plain strings.
\<close>

section \<open>Printing a moment\<close>

text \<open>A number in a field of the given width, with leading zeros.\<close>

primrec padded :: "nat \<Rightarrow> nat \<Rightarrow> string" where
  "padded 0 n = []"
| "padded (Suc w) n = padded w (n div 10) @ [digitChar (n mod 10)]"

record moment =
  tm_year :: nat
  tm_month :: nat
  tm_day :: nat
  tm_hour :: nat
  tm_minute :: nat
  tm_second :: nat

definition validMoment :: "moment \<Rightarrow> bool" where
  "validMoment t =
     (tm_year t < 10000 \<and> tm_month t < 100 \<and> tm_day t < 100
      \<and> tm_hour t < 100 \<and> tm_minute t < 100 \<and> tm_second t < 100)"

text \<open>\<open>date +%Y%m%dT%H%M%SZ\<close>\<close>

definition timestamp :: "moment \<Rightarrow> string" where
  "timestamp t =
     padded 4 (tm_year t) @ padded 2 (tm_month t) @ padded 2 (tm_day t) @ ''T''
     @ padded 2 (tm_hour t) @ padded 2 (tm_minute t) @ padded 2 (tm_second t) @ ''Z''"

text \<open>What the sed patterns of the scripts take for a timestamp: \<open>[0-9]{8}T[0-9]{6}Z\<close>.\<close>

definition isTimestamp :: "string \<Rightarrow> bool" where
  "isTimestamp s =
     (length s = 16 \<and> list_all isDigit (take 8 s) \<and> s ! 8 = CHR ''T''
      \<and> list_all isDigit (take 6 (drop 9 s)) \<and> s ! 15 = CHR ''Z'')"

text \<open>Moments in their order.\<close>

definition moment_fields :: "moment \<Rightarrow> nat list" where
  "moment_fields t = [tm_year t, tm_month t, tm_day t, tm_hour t, tm_minute t, tm_second t]"

definition earlier :: "moment \<Rightarrow> moment \<Rightarrow> bool" where
  "earlier s t = (moment_fields s < moment_fields t)"

section \<open>Order\<close>

lemma length_padded [simp]: "length (padded w n) = w"
  by (induction w arbitrary: n) auto

lemma padded_digits: "list_all isDigit (padded w n)"
  by (induction w arbitrary: n) auto

lemma append_less_same_length:
  fixes xs ys us vs :: "'a::linorder list"
  assumes "length xs = length ys"
  shows "xs @ us < ys @ vs \<longleftrightarrow> xs < ys \<or> xs = ys \<and> us < vs"
  using assms by (induction xs ys rule: list_induct2) auto

lemma digitChar_less: "c < 10 \<Longrightarrow> d < 10 \<Longrightarrow> digitChar c < digitChar d \<longleftrightarrow> c < d"
  by (simp add: digitChar_def less_char_def)

lemma digitChar_eq: "c < 10 \<Longrightarrow> d < 10 \<Longrightarrow> digitChar c = digitChar d \<longleftrightarrow> c = d"
  by (metis digitChar_less less_irrefl neq_iff)

lemma padded_inj: "m < 10 ^ w \<Longrightarrow> n < 10 ^ w \<Longrightarrow> padded w m = padded w n \<longleftrightarrow> m = n"
proof (induction w arbitrary: m n)
  case (Suc w)
  then have "m div 10 < 10 ^ w" "n div 10 < 10 ^ w" by (auto simp: less_mult_imp_div_less)
  from Suc.IH [OF this] show ?case
    by (auto simp: digitChar_eq) (metis div_mult_mod_eq)
qed simp

lemma digitwise_less:
  "b < 10 \<Longrightarrow> d < 10 \<Longrightarrow> 10 * a + b < 10 * c + d \<longleftrightarrow> a < c \<or> a = c \<and> b < (d::nat)"
  by (cases a c rule: linorder_cases) auto

lemma padded_less: "m < 10 ^ w \<Longrightarrow> n < 10 ^ w \<Longrightarrow> padded w m < padded w n \<longleftrightarrow> m < n"
proof (induction w arbitrary: m n)
  case (Suc w)
  then have bounds: "m div 10 < 10 ^ w" "n div 10 < 10 ^ w" by (auto simp: less_mult_imp_div_less)
  have "m < n \<longleftrightarrow> m div 10 < n div 10 \<or> m div 10 = n div 10 \<and> m mod 10 < n mod 10"
    using digitwise_less [of "m mod 10" "n mod 10" "m div 10" "n div 10"] by simp
  then show ?case
    by (simp add: append_less_same_length Suc.IH [OF bounds] padded_inj [OF bounds] digitChar_less)
qed simp

lemma padded_append_less:
  "m < 10 ^ w \<Longrightarrow> n < 10 ^ w
   \<Longrightarrow> padded w m @ us < padded w n @ vs \<longleftrightarrow> m < n \<or> m = n \<and> us < vs"
  by (simp add: append_less_same_length padded_less padded_inj)

lemma padded_append_inj:
  "m < 10 ^ w \<Longrightarrow> n < 10 ^ w \<Longrightarrow> padded w m @ us = padded w n @ vs \<longleftrightarrow> m = n \<and> us = vs"
  by (simp add: padded_inj)

lemma validMoment_bounds:
  assumes "validMoment t"
  shows "tm_year t < 10 ^ 4" "tm_month t < 10 ^ 2" "tm_day t < 10 ^ 2" "tm_hour t < 10 ^ 2"
    "tm_minute t < 10 ^ 2" "tm_second t < 10 ^ 2"
  using assms by (simp_all add: validMoment_def)

lemma timestamp_less:
  assumes "validMoment s" and "validMoment t"
  shows "timestamp s < timestamp t \<longleftrightarrow> earlier s t"
proof -
  note bounds = validMoment_bounds [OF assms(1)] validMoment_bounds [OF assms(2)]
  have T: "''T'' @ us < ''T'' @ vs \<longleftrightarrow> us < vs" for us vs :: string by simp
  show ?thesis
    unfolding timestamp_def earlier_def moment_fields_def
    by (simp only: padded_append_less [OF bounds(1) bounds(7)] padded_append_less [OF bounds(2) bounds(8)]
        padded_append_less [OF bounds(3) bounds(9)] padded_append_less [OF bounds(4) bounds(10)]
        padded_append_less [OF bounds(5) bounds(11)] padded_append_less [OF bounds(6) bounds(12)] T) auto
qed

lemma timestamp_inj:
  assumes "validMoment s" and "validMoment t"
  shows "timestamp s = timestamp t \<longleftrightarrow> s = t"
proof -
  note bounds = validMoment_bounds [OF assms(1)] validMoment_bounds [OF assms(2)]
  have T: "''T'' @ us = ''T'' @ vs \<longleftrightarrow> us = vs" for us vs :: string by simp
  have "timestamp s = timestamp t \<longleftrightarrow> moment_fields s = moment_fields t"
    unfolding timestamp_def moment_fields_def
    by (simp only: padded_append_inj [OF bounds(1) bounds(7)] padded_append_inj [OF bounds(2) bounds(8)]
        padded_append_inj [OF bounds(3) bounds(9)] padded_append_inj [OF bounds(4) bounds(10)]
        padded_append_inj [OF bounds(5) bounds(11)] padded_append_inj [OF bounds(6) bounds(12)] T) simp
  then show ?thesis by (cases s; cases t) (simp add: moment_fields_def)
qed

lemma isTimestamp_timestamp: "isTimestamp (timestamp t)"
proof -
  let ?d = "padded 4 (tm_year t) @ padded 2 (tm_month t) @ padded 2 (tm_day t)"
  let ?h = "padded 2 (tm_hour t) @ padded 2 (tm_minute t) @ padded 2 (tm_second t)"
  have whole: "timestamp t = ?d @ CHR ''T'' # ?h @ ''Z''" by (simp add: timestamp_def)
  have len: "length ?d = 8" "length ?h = 6" by simp_all
  have digits: "list_all isDigit ?d" "list_all isDigit ?h" by (simp_all add: padded_digits)
  have "isTimestamp (d @ CHR ''T'' # h @ ''Z'')"
    if "length d = 8" "length h = 6" "list_all isDigit d" "list_all isDigit h" for d h
    using that by (simp add: isTimestamp_def nth_append)
  from this [OF len digits] show ?thesis unfolding whole .
qed

text \<open>Timestamps compare as strings: for moments up to the year 9999, one timestamp is before another in the
  order of strings, which the scripts compare with expr, exactly when its moment is earlier; the
  patterns of the scripts recognise every timestamp.\<close>

theorem timestamps_compare_as_strings:
  assumes "validMoment s" and "validMoment t"
  shows "(timestamp s < timestamp t \<longleftrightarrow> earlier s t) \<and> (timestamp s = timestamp t \<longleftrightarrow> s = t)
    \<and> isTimestamp (timestamp s)"
  using timestamp_less [OF assms] timestamp_inj [OF assms] isTimestamp_timestamp by blast

theorem timestamps_compare_as_strings_witness:
  "''20231231T235959Z'' < timestamp \<lparr>tm_year = 2024, tm_month = 1, tm_day = 1, tm_hour = 0, tm_minute = 0, tm_second = 0\<rparr>"
proof -
  let ?s = "\<lparr>tm_year = 2023, tm_month = 12, tm_day = 31, tm_hour = 23, tm_minute = 59, tm_second = 59\<rparr>"
  have "timestamp ?s = ''20231231T235959Z''" by code_simp
  then show ?thesis
    using timestamps_compare_as_strings [of ?s "\<lparr>tm_year = 2024, tm_month = 1, tm_day = 1, tm_hour = 0, tm_minute = 0, tm_second = 0\<rparr>"]
    by (simp add: validMoment_def earlier_def moment_fields_def)
qed

end
