(* ===== verification/Claims.thy ===== *)
theory Claims
  imports Timestamps
begin

text \<open>
  How the runs of one frequency's backup script share its directory: the loop that
  \<open>scheduledBackupUniqueTimestampScript\<close> renders, run by any number of Jobs at once, as a step relation.
  A step is one line of the script in one of the runs, or the clock.
\<close>

section \<open>Runs\<close>

text \<open>
  Where a run is: about to read the clock (\<open>TS=$(date ...)\<close>), to claim the timestamp (\<open>mkdir\<close>), to look for
  files that carry it (\<open>for f in\<close>), to give the claim back (\<open>rmdir\<close>), past the loop and writing backups,
  ended with the EXIT trap, or ended without it: killed, or by a failure before the trap is set.
\<close>

datatype place = Stamping | Claiming | Checking | Unclaiming | Writing | Finished | Killed

text \<open>Its \<open>$TS\<close>, and its \<open>$CUTOFF\<close> once it has come to pruning.\<close>

record run =
  rn_place :: place
  rn_ts :: string
  rn_cutoff :: "string option"

text \<open>
  The clock as the timestamp it prints, the claims (directories \<open>.claim-TS\<close>), the timestamps that backups
  and pools carry, each with the run that wrote it (none for those from before), and the runs.
\<close>

record world =
  w_now :: string
  w_claims :: "string set"
  w_files :: "(string \<times> nat option) set"
  w_runs :: "nat \<Rightarrow> run"

abbreviation place_of :: "world \<Rightarrow> nat \<Rightarrow> place" where
  "place_of w r \<equiv> rn_place (w_runs w r)"

abbreviation ts_of :: "world \<Rightarrow> nat \<Rightarrow> string" where
  "ts_of w r \<equiv> rn_ts (w_runs w r)"

definition moveTo :: "nat \<Rightarrow> place \<Rightarrow> world \<Rightarrow> world" where
  "moveTo r p w = w\<lparr>w_runs := (w_runs w)(r := (w_runs w r)\<lparr>rn_place := p\<rparr>)\<rparr>"

definition carried :: "world \<Rightarrow> string set" where
  "carried w = fst ` w_files w"

text \<open>
  \<open>cutoff\<close> is what \<open>date -d\<close> makes of the retention at a moment. A claim that is refused, whatever the
  reason, and a used timestamp both end in \<open>sleep 1\<close> and the next turn; under \<open>set -e\<close> a run whose \<open>rmdir\<close>
  in the loop fails ends there, with no trap yet and its claim left if it was there. A run past the loop
  writes its backups, deletes old ones (expired ones, and in the incremental mode the other pools: here
  any), reads its cutoff, removes the claims before it, which killed runs have left, and ends, by its
  last line or a failure, with the trap, which removes its claim or fails.
\<close>

inductive claimStep :: "(string \<Rightarrow> string) \<Rightarrow> world \<Rightarrow> world \<Rightarrow> bool" for cutoff where
  tick: "w_now w \<le> t \<Longrightarrow> isTimestamp t \<Longrightarrow> claimStep cutoff w (w\<lparr>w_now := t\<rparr>)"
| stamp: "place_of w r = Stamping
    \<Longrightarrow> claimStep cutoff w (w\<lparr>w_runs := (w_runs w)(r := \<lparr>rn_place = Claiming, rn_ts = w_now w, rn_cutoff = None\<rparr>)\<rparr>)"
| claimed: "place_of w r = Claiming \<Longrightarrow> ts_of w r \<notin> w_claims w
    \<Longrightarrow> claimStep cutoff w (moveTo r Checking (w\<lparr>w_claims := insert (ts_of w r) (w_claims w)\<rparr>))"
| refused: "place_of w r = Claiming \<Longrightarrow> claimStep cutoff w (moveTo r Stamping w)"
| unused: "place_of w r = Checking \<Longrightarrow> ts_of w r \<notin> carried w
    \<Longrightarrow> claimStep cutoff w (moveTo r Writing w)"
| used: "place_of w r = Checking \<Longrightarrow> ts_of w r \<in> carried w
    \<Longrightarrow> claimStep cutoff w (moveTo r Unclaiming w)"
| unclaim: "place_of w r = Unclaiming \<Longrightarrow> ts_of w r \<in> w_claims w
    \<Longrightarrow> claimStep cutoff w (moveTo r Stamping (w\<lparr>w_claims := w_claims w - {ts_of w r}\<rparr>))"
| unclaimFails: "place_of w r = Unclaiming \<Longrightarrow> claimStep cutoff w (moveTo r Killed w)"
| writeFile: "place_of w r = Writing
    \<Longrightarrow> claimStep cutoff w (w\<lparr>w_files := insert (ts_of w r, Some r) (w_files w)\<rparr>)"
| pruneFile: "place_of w r = Writing
    \<Longrightarrow> claimStep cutoff w (w\<lparr>w_files := w_files w - {f}\<rparr>)"
| readCutoff: "place_of w r = Writing
    \<Longrightarrow> claimStep cutoff w (w\<lparr>w_runs := (w_runs w)(r := (w_runs w r)\<lparr>rn_cutoff := Some (cutoff (w_now w))\<rparr>)\<rparr>)"
| pruneClaim: "place_of w r = Writing \<Longrightarrow> rn_cutoff (w_runs w r) = Some k \<Longrightarrow> c < k
    \<Longrightarrow> claimStep cutoff w (w\<lparr>w_claims := w_claims w - {c}\<rparr>)"
| ended: "place_of w r = Writing
    \<Longrightarrow> claimStep cutoff w (moveTo r Finished (w\<lparr>w_claims := w_claims w - {ts_of w r}\<rparr>))"
| trapFails: "place_of w r = Writing \<Longrightarrow> claimStep cutoff w (moveTo r Finished w)"
| killed: "place_of w r \<noteq> Finished \<Longrightarrow> claimStep cutoff w (moveTo r Killed w)"

inductive_cases claimStepE: "claimStep cutoff w w'"

definition fresh :: "world \<Rightarrow> bool" where
  "fresh w = (isTimestamp (w_now w)
     \<and> (\<forall>r. place_of w r = Stamping \<and> rn_cutoff (w_runs w r) = None) \<and> (\<forall>f\<in>w_files w. snd f = None))"

section \<open>Exclusion\<close>

definition holds :: "world \<Rightarrow> nat \<Rightarrow> bool" where
  "holds w r = (place_of w r \<in> {Checking, Unclaiming, Writing})"

text \<open>
  Past the retention at some moment up to now. Once is for good here, while \<open>date\<close> takes back the last days
  of a month: a month before 2024-03-31 is 2024-03-02, a month before 2024-04-01 is 2024-03-01.
\<close>

definition expired :: "(string \<Rightarrow> string) \<Rightarrow> world \<Rightarrow> string \<Rightarrow> bool" where
  "expired cutoff w ts = (\<exists>t. isTimestamp t \<and> t \<le> w_now w \<and> ts < cutoff t)"

text \<open>Everything is up to expiry: a claim older than the retention is taken for one a killed run left.\<close>

definition exclusive :: "(string \<Rightarrow> string) \<Rightarrow> world \<Rightarrow> bool" where
  "exclusive cutoff w =
     ((\<forall>r. holds w r \<and> \<not> expired cutoff w (ts_of w r) \<longrightarrow> ts_of w r \<in> w_claims w)
    \<and> (\<forall>r r'. holds w r \<and> holds w r' \<and> r \<noteq> r' \<and> ts_of w r = ts_of w r' \<longrightarrow> expired cutoff w (ts_of w r))
    \<and> (\<forall>r x. place_of w r = Writing \<and> (ts_of w r, x) \<in> w_files w \<and> x \<noteq> Some r \<longrightarrow> expired cutoff w (ts_of w r))
    \<and> (\<forall>ts r x. (ts, Some r) \<in> w_files w \<and> (ts, x) \<in> w_files w \<and> x \<noteq> Some r \<longrightarrow> expired cutoff w ts))"

text \<open>What the runs have read was the clock's, and the cutoffs are those of moments up to now.\<close>

definition clocked :: "(string \<Rightarrow> string) \<Rightarrow> world \<Rightarrow> bool" where
  "clocked cutoff w = (isTimestamp (w_now w)
     \<and> (\<forall>r k. rn_cutoff (w_runs w r) = Some k \<longrightarrow> (\<exists>t. isTimestamp t \<and> t \<le> w_now w \<and> k = cutoff t)))"

lemmas exclusive_facts = exclusive_def holds_def carried_def

lemma fresh_exclusive: "fresh w \<Longrightarrow> exclusive cutoff w \<and> clocked cutoff w"
  unfolding fresh_def exclusive_def holds_def clocked_def by fastforce

lemma moveTo_simps [simp]:
  "w_now (moveTo r p w) = w_now w" "w_claims (moveTo r p w) = w_claims w" "w_files (moveTo r p w) = w_files w"
  "ts_of (moveTo r p w) s = ts_of w s" "place_of (moveTo r p w) s = (if s = r then p else place_of w s)"
  "rn_cutoff (w_runs (moveTo r p w) s) = rn_cutoff (w_runs w s)"
  by (simp_all add: moveTo_def)

lemma expired_mono: "expired cutoff w ts \<Longrightarrow> w_now w \<le> w_now w' \<Longrightarrow> expired cutoff w' ts"
  unfolding expired_def by (meson order_trans)

lemma expired_simps [simp]:
  "expired cutoff (moveTo r p w) = expired cutoff w" "expired cutoff (w\<lparr>w_runs := rs\<rparr>) = expired cutoff w"
  "expired cutoff (w\<lparr>w_claims := cs\<rparr>) = expired cutoff w" "expired cutoff (w\<lparr>w_files := fs\<rparr>) = expired cutoff w"
  by (simp_all add: expired_def fun_eq_iff)

lemma claimStep_now: "claimStep cutoff w w' \<Longrightarrow> w_now w \<le> w_now w'"
  by (cases rule: claimStep.cases) auto

lemma claimStep_clocked:
  assumes "claimStep cutoff w w'" and "clocked cutoff w"
  shows "clocked cutoff w'"
proof -
  note later = order_trans [OF _ claimStep_now [OF assms(1)]]
  from assms(1) show ?thesis
  proof cases
    case (tick t)
    with assms(2) later show ?thesis unfolding clocked_def by simp blast
  next
    case (readCutoff r)
    with assms(2) show ?thesis unfolding clocked_def by auto
  qed (use assms(2) in \<open>auto simp: clocked_def\<close>)
qed

lemma claimStep_exclusive:
  assumes "claimStep cutoff w w'" and "exclusive cutoff w" and "clocked cutoff w"
  shows "exclusive cutoff w'"
  using assms(1)
proof cases
  case (tick t)
  have "expired cutoff w ts \<Longrightarrow> expired cutoff w' ts" for ts
    by (rule expired_mono [OF _ claimStep_now [OF assms(1)]])
  with assms(2) show ?thesis unfolding exclusive_facts tick(1) by simp blast
next
  case (stamp r)
  with assms(2) show ?thesis unfolding exclusive_facts by simp blast
next
  case (claimed r)
  with assms(2) show ?thesis unfolding exclusive_facts by simp metis
next
  case (refused r)
  with assms(2) show ?thesis unfolding exclusive_facts by simp blast
next
  case (unused r)
  then have "(ts_of w r, x) \<notin> w_files w" for x by (force simp: carried_def)
  with unused(1,2) assms(2) show ?thesis unfolding exclusive_facts by simp metis
next
  case (used r)
  with assms(2) show ?thesis unfolding exclusive_facts by simp blast
next
  case (unclaim r)
  with assms(2) show ?thesis unfolding exclusive_facts by simp metis
next
  case (unclaimFails r)
  with assms(2) show ?thesis unfolding exclusive_facts by simp blast
next
  case (writeFile r)
  with assms(2) show ?thesis unfolding exclusive_facts by simp (intro conjI; metis)
next
  case (pruneFile r f)
  with assms(2) show ?thesis unfolding exclusive_facts by simp blast
next
  case (readCutoff r)
  with assms(2) show ?thesis unfolding exclusive_facts by simp metis
next
  case (pruneClaim r k c)
  then have "expired cutoff w c" using assms(3) by (auto simp: clocked_def expired_def)
  with pruneClaim assms(2) show ?thesis unfolding exclusive_facts by simp metis
next
  case (ended r)
  with assms(2) show ?thesis unfolding exclusive_facts by simp metis
next
  case (trapFails r)
  with assms(2) show ?thesis unfolding exclusive_facts by simp blast
next
  case (killed r)
  with assms(2) show ?thesis unfolding exclusive_facts by simp blast
qed


text \<open>C16: Two backups never share a timestamp. In any interleaving of any number of runs of a frequency's script,
  from any contents of the directory, with runs killed or failing anywhere: two runs that are past the
  claim and hold the same timestamp, or a run that writes under a timestamp some other run's or an older
  file carries, can only be at a timestamp that was past the retention at some moment up to then; any
  other timestamp is held by one run, whose claim is in place. Whatever date makes of the retention:
  nothing is asked of it.\<close>

theorem timestamps_are_exclusive:
  assumes "(claimStep cutoff)\<^sup>*\<^sup>* w0 w" and "fresh w0"
  shows "exclusive cutoff w"
proof -
  from assms(1) have "exclusive cutoff w \<and> clocked cutoff w"
  proof induction
    case base
    show ?case by (rule fresh_exclusive [OF assms(2)])
  next
    case (step w w')
    then show ?case using claimStep_exclusive claimStep_clocked by blast
  qed
  then show ?thesis ..
qed

text \<open>
  Backups are kept for a month. Of two runs that read the clock in the same second the first claims the
  timestamp, prunes the claim that a run killed in January has left, and still holds its own; the second
  is yet to be refused.
\<close>

definition monthAgo :: "string \<Rightarrow> string" where
  "monthAgo now = (if now < ''20240401T000000Z'' then ''20240302T000000Z'' else ''20240301T000000Z'')"

definition lateMarch :: world where
  "lateMarch = \<lparr>w_now = ''20240331T000000Z'', w_claims = {''20240115T000000Z''}, w_files = {(''20240310T000000Z'', None)},
     w_runs = \<lambda>r. \<lparr>rn_place = Stamping, rn_ts = [], rn_cutoff = None\<rparr>\<rparr>"

theorem timestamps_are_exclusive_witness:
  "\<exists>w. (claimStep monthAgo)\<^sup>*\<^sup>* lateMarch w \<and> place_of w 0 = Writing \<and> place_of w 1 = Claiming
     \<and> ts_of w 1 = ts_of w 0 \<and> ts_of w 0 \<in> w_claims w \<and> ''20240115T000000Z'' \<notin> w_claims w"
proof -
  let ?step = "claimStep monthAgo"
  let ?stamp = "\<lambda>r w. w\<lparr>w_runs := (w_runs w)(r := \<lparr>rn_place = Claiming, rn_ts = w_now w, rn_cutoff = None\<rparr>)\<rparr>"
  let ?claim = "\<lambda>w. moveTo 0 Checking (w\<lparr>w_claims := insert (ts_of w 0) (w_claims w)\<rparr>)"
  define w1 where "w1 = ?stamp 0 lateMarch"
  define w2 where "w2 = ?stamp 1 w1"
  define w3 where "w3 = ?claim w2"
  define w4 where "w4 = moveTo 0 Writing w3"
  define w5 where "w5 = w4\<lparr>w_runs := (w_runs w4)(0 := (w_runs w4 0)\<lparr>rn_cutoff := Some (monthAgo (w_now w4))\<rparr>)\<rparr>"
  define w6 where "w6 = w5\<lparr>w_claims := w_claims w5 - {''20240115T000000Z''}\<rparr>"
  note worlds = w1_def w2_def w3_def w4_def w5_def w6_def lateMarch_def
  have cut: "rn_cutoff (w_runs w5 0) = Some ''20240302T000000Z''"
    by (simp add: worlds monthAgo_def)
  have "?step lateMarch w1" unfolding w1_def by (rule claimStep.stamp) (simp add: lateMarch_def)
  moreover have "?step w1 w2" unfolding w2_def by (rule claimStep.stamp) (simp add: worlds)
  moreover have "?step w2 w3" unfolding w3_def by (rule claimStep.claimed) (simp_all add: worlds)
  moreover have "?step w3 w4" unfolding w4_def by (rule claimStep.unused) (simp_all add: worlds carried_def)
  moreover have "?step w4 w5" unfolding w5_def by (rule claimStep.readCutoff) (simp add: worlds)
  moreover have "?step w5 w6" unfolding w6_def by (rule claimStep.pruneClaim [OF _ cut]) (simp_all add: worlds)
  ultimately have reached: "?step\<^sup>*\<^sup>* lateMarch w6" by (meson converse_rtranclp_into_rtranclp rtranclp.rtrancl_refl)
  have "isTimestamp (w_now lateMarch)" unfolding lateMarch_def by code_simp
  then have "fresh lateMarch" by (simp add: fresh_def lateMarch_def)
  from timestamps_are_exclusive [OF reached this] have "holds w6 0 \<and> \<not> expired monthAgo w6 (ts_of w6 0) \<longrightarrow> ts_of w6 0 \<in> w_claims w6"
    unfolding exclusive_def by blast
  moreover have "place_of w6 0 = Writing" "place_of w6 1 = Claiming" "ts_of w6 1 = ts_of w6 0"
    "''20240115T000000Z'' \<notin> w_claims w6" "ts_of w6 0 = ''20240331T000000Z''"
    by (simp_all add: worlds)
  moreover have "holds w6 0" by (simp add: holds_def worlds)
  moreover have "\<not> expired monthAgo w6 ''20240331T000000Z''"
    by (simp add: expired_def monthAgo_def)
  ultimately show ?thesis using reached by (intro exI [of _ w6]) simp
qed

end
