(* ===== verification/Pruning.thy ===== *)
theory Pruning
  imports Timestamps Samples
begin

text \<open>
  What a run of the scheduled backup script does to its frequency's directory: the lines that
  \<open>scheduledBackupScript\<close> and the functions it calls render, read as a shell reads them under \<open>set -e\<close>. The
  directory is the list of its files, its claims and its pools, in the order a glob expands to.
  Names are taken to be without newlines.
\<close>

section \<open>Names with a timestamp\<close>

text \<open>\<open>scheduledBackupTimestampSedPattern\<close>: \<open>s/.*-\(TS\)\.[fn]bk\(\.gz\)\{0,1\}$/\1/p\<close>\<close>

definition fileTimestamp :: "string \<Rightarrow> string option" where
  "fileTimestamp f =
     (let g = trimSuffix f ''.gz'' in
      if hasSuffix g ''.fbk'' \<or> hasSuffix g ''.nbk'' then
        let s = take (length g - 4) g; pre = take (length s - 16) s; ts = drop (length s - 16) s in
        if isTimestamp ts \<and> pre \<noteq> [] \<and> last pre = CHR ''-'' then Some ts else None
      else None)"

text \<open>A prefix, a timestamp and nothing else: \<open>s/^\.claim-\(TS\)$/\1/p\<close>, \<open>s/^pool-\(TS\)$/\1/p\<close>\<close>

definition prefixedTimestamp :: "string \<Rightarrow> string \<Rightarrow> string option" where
  "prefixedTimestamp p d =
     (if hasPrefix d p \<and> isTimestamp (drop (length p) d) then Some (drop (length p) d) else None)"

text \<open>\<open>expr "$TS" < "$CUTOFF"\<close>, for a name that has a timestamp.\<close>

definition before :: "string \<Rightarrow> string option \<Rightarrow> bool" where
  "before cutoff t = (case t of None \<Rightarrow> False | Some ts \<Rightarrow> ts < cutoff)"

text \<open>\<open>*.fbk *.fbk.gz *.nbk *.nbk.gz\<close>; a glob does not find names that begin with a dot.\<close>

definition globbed :: "string \<Rightarrow> bool" where
  "globbed f =
     (f \<noteq> [] \<and> hd f \<noteq> CHR ''.''
      \<and> list_ex (hasSuffix f) [''.fbk'', ''.fbk.gz'', ''.nbk'', ''.nbk.gz''])"

section \<open>Pruning\<close>

record shelf =
  sh_files :: "string list"
  sh_claims :: "string list"
  sh_pools :: "string list"

definition expiredFile :: "string \<Rightarrow> string \<Rightarrow> bool" where
  "expiredFile cutoff f = (globbed f \<and> before cutoff (fileTimestamp f))"

definition expiredClaim :: "string \<Rightarrow> string \<Rightarrow> bool" where
  "expiredClaim cutoff d = before cutoff (prefixedTimestamp scheduledBackupClaimPrefix d)"

definition expiredPool :: "string \<Rightarrow> string \<Rightarrow> bool" where
  "expiredPool cutoff d = before cutoff (prefixedTimestamp scheduledBackupPoolPrefix d)"

text \<open>\<open>pruneScheduledBackupsScript\<close>\<close>

definition pruneScheduledBackups :: "string \<Rightarrow> shelf \<Rightarrow> shelf" where
  "pruneScheduledBackups cutoff s =
     s\<lparr>sh_files := filter (\<lambda>f. \<not> expiredFile cutoff f) (sh_files s),
       sh_claims := filter (\<lambda>d. \<not> expiredClaim cutoff d) (sh_claims s)\<rparr>"

text \<open>\<open>pruneExpiredPoolsScript\<close>\<close>

definition pruneExpiredPools :: "string \<Rightarrow> shelf \<Rightarrow> shelf" where
  "pruneExpiredPools cutoff s = s\<lparr>sh_pools := filter (\<lambda>d. \<not> expiredPool cutoff d) (sh_pools s)\<rparr>"

section \<open>A run outside incremental mode\<close>

text \<open>The file a run writes for a database, once compressed if that is asked for.\<close>

definition scheduledFile :: "Instance \<Rightarrow> string \<Rightarrow> string \<Rightarrow> string" where
  "scheduledFile i ts name =
     baseName name @ ''-'' @ ts @ (if isPhysical (bk_mode (sp_backup (in_spec i))) then ''.nbk'' else ''.fbk'')
     @ (if bk_compress (sp_backup (in_spec i)) then ''.gz'' else [])"

text \<open>Backing up a database, compression included, works or fails, perhaps leaving files.\<close>

datatype outcome = Taken | Failed "string list"

text \<open>Under \<open>set -e\<close> the script ends with the first failure. The flag says whether it got to the end.\<close>

fun backUpAll :: "(string \<Rightarrow> string) \<Rightarrow> (string \<Rightarrow> outcome) \<Rightarrow> string list \<Rightarrow> shelf \<Rightarrow> shelf \<times> bool" where
  "backUpAll file result [] s = (s, True)"
| "backUpAll file result (name # names) s =
     (case result name of
        Taken \<Rightarrow> backUpAll file result names (s\<lparr>sh_files := sh_files s @ [file name]\<rparr>)
      | Failed left \<Rightarrow> (s\<lparr>sh_files := sh_files s @ left\<rparr>, False))"

text \<open>\<open>trap 'rmdir "$dir/.claim-$TS"' EXIT\<close>: however the script ends, its own claim goes, if pruning has left it.\<close>

definition dropClaim :: "string \<Rightarrow> shelf \<Rightarrow> shelf" where
  "dropClaim ts s = s\<lparr>sh_claims := filter (\<lambda>d. d \<noteq> scheduledBackupClaimPrefix @ ts) (sh_claims s)\<rparr>"

text \<open>From the claim of the timestamp \<open>ts\<close>, which is on the shelf, to the end. Deletions are taken to work.\<close>

definition scheduledRun :: "Instance \<Rightarrow> string \<Rightarrow> string \<Rightarrow> (string \<Rightarrow> outcome) \<Rightarrow> shelf \<Rightarrow> shelf \<times> bool" where
  "scheduledRun i ts cutoff result s =
     (let (s', done_all) = backUpAll (scheduledFile i ts) result (status_databases i) s in
      if done_all then (dropClaim ts (pruneExpiredPools cutoff (pruneScheduledBackups cutoff s')), True)
      else (dropClaim ts s', False))"

section \<open>What pruning finds\<close>

definition backupEndings :: "string list" where
  "backupEndings = [''.fbk'', ''.fbk.gz'', ''.nbk'', ''.nbk.gz'']"

lemma fileTimestamp_of:
  assumes "isTimestamp ts" and "e \<in> set backupEndings"
  shows "fileTimestamp (b @ ''-'' @ ts @ e) = Some ts"
proof -
  have len: "length ts = 16" using assms(1) by (simp add: isTimestamp_def)
  define g where "g = (if e = ''.fbk'' \<or> e = ''.fbk.gz'' then ''.fbk'' else ''.nbk'')"
  have stripped: "trimSuffix (b @ ''-'' @ ts @ e) ''.gz'' = b @ ''-'' @ ts @ g"
  proof (cases "hasSuffix e ''.gz''")
    case True
    then have "b @ ''-'' @ ts @ e = (b @ ''-'' @ ts @ g) @ ''.gz''"
      using assms(2) by (auto simp: backupEndings_def g_def hasSuffix_def)
    then show ?thesis by (simp only: trimSuffix_append)
  next
    case False
    then have "e = g" using assms(2) by (auto simp: backupEndings_def g_def hasSuffix_def)
    moreover have "\<not> hasSuffix (b @ ''-'' @ ts @ g) ''.gz''"
      by (auto simp: g_def hasSuffix_iff dest: arg_cong [where f = last])
    ultimately show ?thesis by (simp add: trimSuffix_def)
  qed
  have g: "hasSuffix (b @ ''-'' @ ts @ g) g" using hasSuffix_append [of "b @ ''-'' @ ts" g] by simp
  have "g = ''.fbk'' \<or> g = ''.nbk''" by (simp add: g_def)
  with g have "hasSuffix (b @ ''-'' @ ts @ g) ''.fbk'' \<or> hasSuffix (b @ ''-'' @ ts @ g) ''.nbk''" and "length g = 4"
    by auto
  then show ?thesis
    unfolding fileTimestamp_def stripped using assms(1) len by (simp add: Let_def)
qed


lemma trimSuffix_cases: "f = trimSuffix f p \<or> f = trimSuffix f p @ p"
  by (metis trimSuffix_def trimSuffix_restore)

lemma fileTimestamp_form:
  assumes "fileTimestamp f = Some ts"
  shows "isTimestamp ts \<and> (\<exists>b. \<exists>e\<in>set backupEndings. f = b @ ''-'' @ ts @ e)"
proof -
  define g where "g = trimSuffix f ''.gz''"
  define s where "s = take (length g - 4) g"
  define pre where "pre = take (length s - 16) s"
  have parts: "hasSuffix g ''.fbk'' \<or> hasSuffix g ''.nbk''" "isTimestamp ts" "pre \<noteq> []" "last pre = CHR ''-''"
    "ts = drop (length s - 16) s"
    using assms unfolding fileTimestamp_def Let_def g_def [symmetric] s_def [symmetric] pre_def [symmetric]
    by (auto split: if_splits)
  from parts(1) obtain k where k: "g = s @ k" "k = ''.fbk'' \<or> k = ''.nbk''"
    by (auto simp: hasSuffix_iff s_def)
  have "s = pre @ ts" by (simp add: parts(5) pre_def)
  moreover have "pre = butlast pre @ ''-''"
    using parts(3,4) by (metis append_butlast_last_id)
  ultimately have "g = butlast pre @ ''-'' @ ts @ k" using k(1) by simp
  then have "f = butlast pre @ ''-'' @ ts @ k \<or> f = butlast pre @ ''-'' @ ts @ (k @ ''.gz'')"
    using trimSuffix_cases [of f "''.gz''"] unfolding g_def [symmetric] by (metis append.assoc)
  moreover have "k \<in> set backupEndings" "k @ ''.gz'' \<in> set backupEndings"
    using k(2) by (auto simp: backupEndings_def)
  ultimately show ?thesis using parts(2) by blast
qed

lemma expiredFile_iff:
  "expiredFile cutoff f \<longleftrightarrow>
     (\<exists>b ts. \<exists>e\<in>set backupEndings. f = b @ ''-'' @ ts @ e \<and> isTimestamp ts \<and> ts < cutoff
        \<and> hd f \<noteq> CHR ''.'')"
proof
  assume "expiredFile cutoff f"
  then show "\<exists>b ts. \<exists>e\<in>set backupEndings. f = b @ ''-'' @ ts @ e \<and> isTimestamp ts \<and> ts < cutoff \<and> hd f \<noteq> CHR ''.''"
    using fileTimestamp_form [of f] by (auto simp: expiredFile_def before_def globbed_def split: option.splits)
next
  assume "\<exists>b ts. \<exists>e\<in>set backupEndings. f = b @ ''-'' @ ts @ e \<and> isTimestamp ts \<and> ts < cutoff \<and> hd f \<noteq> CHR ''.''"
  then obtain b ts e where f: "f = b @ ''-'' @ ts @ e" "e \<in> set backupEndings" "isTimestamp ts" "ts < cutoff"
    "hd f \<noteq> CHR ''.''" by blast
  have "hasSuffix f e" using hasSuffix_append [of "b @ ''-'' @ ts" e] by (simp add: f(1))
  then have "globbed f" using f(1,2,5) by (auto simp: globbed_def backupEndings_def)
  then show "expiredFile cutoff f"
    using f fileTimestamp_of [of ts e b] by (simp add: expiredFile_def before_def)
qed

lemma prefixedTimestamp_Some_iff:
  "prefixedTimestamp p d = Some t \<longleftrightarrow> d = p @ t \<and> isTimestamp t"
  by (auto simp: prefixedTimestamp_def hasPrefix_def) (metis append_take_drop_id)

lemma before_prefixed_iff:
  "before cutoff (prefixedTimestamp p d) \<longleftrightarrow> (\<exists>t. d = p @ t \<and> isTimestamp t \<and> t < cutoff)"
  using prefixedTimestamp_Some_iff by (auto simp: before_def split: option.split) (metis option.distinct(1))+

lemma backUpAll_files:
  "backUpAll file result names s = (s', c) \<Longrightarrow>
     sh_claims s' = sh_claims s \<and> sh_pools s' = sh_pools s \<and> set (sh_files s) \<subseteq> set (sh_files s')
     \<and> (c \<longleftrightarrow> (\<forall>name\<in>set names. result name = Taken))
     \<and> (c \<longrightarrow> sh_files s' = sh_files s @ map file names)"
proof (induction names arbitrary: s)
  case (Cons name names)
  show ?case
  proof (cases "result name")
    case Taken
    with Cons.prems have "backUpAll file result names (s\<lparr>sh_files := sh_files s @ [file name]\<rparr>) = (s', c)" by simp
    from Cons.IH [OF this] Taken show ?thesis by auto
  qed (use Cons.prems in auto)
qed simp

text \<open>C17: A scheduled run keeps what it should and deletes what it should. When backing up a database
  fails, nothing is deleted but the run's own claim. When all work, the files left are exactly those of
  before and a new backup of every database, without those that have the form of a backup of the
  operator's own (anything, a dash, a timestamp and one of its endings, no dot in front) and a
  timestamp before the cutoff; the claims and the pools left are those of before whose timestamp is
  not before the cutoff, or that have none, without the run's own claim. With a timestamp that is not
  before the cutoff, a run keeps what it wrote.\<close>

theorem scheduled_run_keeps_what_it_should:
  assumes "scheduledRun i ts cutoff result s = (s', c)" and "isTimestamp ts"
  shows "(c \<longleftrightarrow> (\<forall>name\<in>set (status_databases i). result name = Taken))
    \<and> (\<not> c \<longrightarrow> set (sh_files s) \<subseteq> set (sh_files s') \<and> sh_pools s' = sh_pools s
         \<and> set (sh_claims s') = set (sh_claims s) - {scheduledBackupClaimPrefix @ ts})
    \<and> (c \<longrightarrow> set (sh_files s') = (set (sh_files s) \<union> scheduledFile i ts ` set (status_databases i))
         - {f. \<exists>b t. \<exists>e\<in>set backupEndings. f = b @ ''-'' @ t @ e \<and> isTimestamp t \<and> t < cutoff \<and> hd f \<noteq> CHR ''.''})
    \<and> (c \<longrightarrow> set (sh_claims s') = set (sh_claims s) - {scheduledBackupClaimPrefix @ ts}
         - {d. \<exists>t. d = scheduledBackupClaimPrefix @ t \<and> isTimestamp t \<and> t < cutoff})
    \<and> (c \<longrightarrow> set (sh_pools s') = set (sh_pools s)
         - {p. \<exists>t. p = scheduledBackupPoolPrefix @ t \<and> isTimestamp t \<and> t < cutoff})
    \<and> (c \<and> \<not> ts < cutoff \<longrightarrow> scheduledFile i ts ` set (status_databases i) \<subseteq> set (sh_files s'))"
proof -
  obtain t d where t: "backUpAll (scheduledFile i ts) result (status_databases i) s = (t, d)" by fastforce
  note files = backUpAll_files [OF t]
  have c: "c = d"
    and s': "s' = dropClaim ts (if d then pruneExpiredPools cutoff (pruneScheduledBackups cutoff t) else t)"
    using assms(1) by (auto simp: scheduledRun_def t split: if_splits)
  have kept: "\<not> expiredFile cutoff (scheduledFile i ts name)" if "\<not> ts < cutoff" for name
  proof -
    have "\<exists>e\<in>set backupEndings. scheduledFile i ts name = baseName name @ ''-'' @ ts @ e"
      by (auto simp: scheduledFile_def backupEndings_def)
    then obtain e where "e \<in> set backupEndings" "scheduledFile i ts name = baseName name @ ''-'' @ ts @ e" by blast
    with fileTimestamp_of [OF assms(2)] that show ?thesis by (simp add: expiredFile_def before_def)
  qed
  have own: "{d. before cutoff (prefixedTimestamp p d)} = {d. \<exists>t. d = p @ t \<and> isTimestamp t \<and> t < cutoff}" for p
    by (simp add: before_prefixed_iff)
  have failed: "\<not> c \<longrightarrow> set (sh_files s) \<subseteq> set (sh_files s') \<and> sh_pools s' = sh_pools s
         \<and> set (sh_claims s') = set (sh_claims s) - {scheduledBackupClaimPrefix @ ts}"
    using files by (auto simp: c s' dropClaim_def)
  have left: "c \<longrightarrow> set (sh_files s') =
      (set (sh_files s) \<union> scheduledFile i ts ` set (status_databases i)) - {f. expiredFile cutoff f}"
    using files by (auto simp: c s' dropClaim_def pruneScheduledBackups_def pruneExpiredPools_def)
  have claims: "c \<longrightarrow> set (sh_claims s') = set (sh_claims s) - {scheduledBackupClaimPrefix @ ts}
         - {d. before cutoff (prefixedTimestamp scheduledBackupClaimPrefix d)}"
    using files by (auto simp: c s' dropClaim_def pruneScheduledBackups_def pruneExpiredPools_def expiredClaim_def)
  have pools: "c \<longrightarrow> set (sh_pools s') = set (sh_pools s)
         - {p. before cutoff (prefixedTimestamp scheduledBackupPoolPrefix p)}"
    using files by (auto simp: c s' dropClaim_def pruneScheduledBackups_def pruneExpiredPools_def expiredPool_def)
  have new: "c \<and> \<not> ts < cutoff \<longrightarrow> scheduledFile i ts ` set (status_databases i) \<subseteq> set (sh_files s')"
    using left kept by auto
  have "c \<longleftrightarrow> (\<forall>name\<in>set (status_databases i). result name = Taken)" using files c by simp
  with failed left claims pools new show ?thesis unfolding own expiredFile_iff by blast
qed


definition oldShelf :: shelf where
  "oldShelf = \<lparr>sh_files = [''a-20240101T000000Z.fbk'', ''a-20240215T000000Z.fbk'', ''notes.fbk''],
     sh_claims = [''.claim-20231231T000000Z'', ''.claim-20240301T000000Z''],
     sh_pools = [''pool-20240101T000000Z'', ''pool-20240215T000000Z'']\<rparr>"

theorem scheduled_run_keeps_what_it_should_witness:
  "\<exists>s. scheduledRun (sampleInstance ''5.0.1'') ''20240301T000000Z'' ''20240201T000000Z'' (\<lambda>_. Taken) oldShelf = (s, True)
     \<and> ''a-20240301T000000Z.fbk'' \<in> set (sh_files s) \<and> ''a-20240101T000000Z.fbk'' \<notin> set (sh_files s)
     \<and> ''notes.fbk'' \<in> set (sh_files s) \<and> sh_claims s = [] \<and> sh_pools s = [''pool-20240215T000000Z'']"
proof -
  let ?run = "scheduledRun (sampleInstance ''5.0.1'') ''20240301T000000Z'' ''20240201T000000Z'' (\<lambda>_. Taken) oldShelf"
  have run: "?run = (fst ?run, True)" by code_simp
  have dbs: "status_databases (sampleInstance ''5.0.1'') = [''a.fdb'']" by (simp add: sample_defs)
  have own: "scheduledFile (sampleInstance ''5.0.1'') ''20240301T000000Z'' ''a.fdb'' = ''a-20240301T000000Z.fbk''" by code_simp
  have "isTimestamp ''20240301T000000Z''" and "\<not> ''20240301T000000Z'' < ''20240201T000000Z''" by code_simp+
  with scheduled_run_keeps_what_it_should [OF run this(1)]
  have "scheduledFile (sampleInstance ''5.0.1'') ''20240301T000000Z'' ` set (status_databases (sampleInstance ''5.0.1''))
      \<subseteq> set (sh_files (fst ?run))" by blast
  then have "''a-20240301T000000Z.fbk'' \<in> set (sh_files (fst ?run))" unfolding dbs using own by auto
  moreover have "''a-20240101T000000Z.fbk'' \<notin> set (sh_files (fst ?run))" "''notes.fbk'' \<in> set (sh_files (fst ?run))"
    "sh_claims (fst ?run) = []" "sh_pools (fst ?run) = [''pool-20240215T000000Z'']"
    by code_simp+
  ultimately show ?thesis using run by blast
qed

end
