(* ===== verification/Pools.thy ===== *)
theory Pools
  imports Pruning
begin

text \<open>
  The incremental mode: what the lines \<open>incrementalBackupScript\<close> renders do to a frequency's pools, as a shell
  runs them under \<open>set -e\<close>. A pool is a directory \<open>pool-TS\<close> with its files; the pools are in the order a glob
  expands to.
\<close>

section \<open>A pool\<close>






section \<open>A run\<close>






section \<open>What a run leaves\<close>










end
