(* ===== verification/Seeding.thy ===== *)
theory Seeding
  imports Names
begin

text \<open>
  What the init container's script does to the primary volume: the commands of the text that
  \<open>securityDatabaseInitScript\<close> renders, as a shell runs them under \<open>set -e\<close>, over the paths of the volume.
  The file names \<open>ls -t\<close> lists are without white space, and a version is the text of an image tag.
\<close>

section \<open>Choosing the backup\<close>

text \<open>The numbers that \<open>test\<close> takes; with anything else it complains and fails.\<close>

definition shellNumber :: "string \<Rightarrow> int option" where
  "shellNumber s =
     (if s \<noteq> [] \<and> list_all isDigit s \<and> digitsVal s \<le> max_int64 then Some (digitsVal s) else None)"

definition testNumbers :: "(int \<Rightarrow> int \<Rightarrow> bool) \<Rightarrow> string \<Rightarrow> string \<Rightarrow> bool" where
  "testNumbers rel a b =
     (case (shellNumber a, shellNumber b) of (Some x, Some y) \<Rightarrow> rel x y | _ \<Rightarrow> False)"

text \<open>\<open>m=$(basename "$f" .fbk)\<close> and \<open>m=${m#security}\<close>\<close>

definition backupMajor :: "string \<Rightarrow> string" where
  "backupMajor f = trimPrefix (trimSuffix f ''.fbk'') ''security''"

text \<open>\<open>security*.fbk\<close>\<close>

definition securityGlob :: "string \<Rightarrow> bool" where
  "securityGlob f = (hasPrefix f ''security'' \<and> hasSuffix f ''.fbk'' \<and> 12 \<le> length f)"

text \<open>The loop over the files, newest first, which leaves \<open>$SRC\<close> and \<open>$SRC_MAJOR\<close>.\<close>

fun chooseSource :: "string \<Rightarrow> string list \<Rightarrow> (string \<times> string) option" where
  "chooseSource major [] = None"
| "chooseSource major (f # fs) =
     (let m = backupMajor f in
      if m = [] \<or> \<not> list_all isDigit m then chooseSource major fs
      else if testNumbers (\<le>) m major then Some (f, m)
      else chooseSource major fs)"

section \<open>The commands\<close>

text \<open>What a file on the volume is; anything a command left half way is \<open>Unfinished\<close>.\<close>

datatype content = ImageDefault | Restored string | WithUsersOf string | Unfinished

type_synonym disk = "string \<rightharpoonup> content"

text \<open>\<open>cp\<close> from the image, \<open>gbak -create\<close>, \<open>rm -f\<close> of a file, \<open>isql\<close> with the migration script, \<open>mv\<close>\<close>

datatype command =
    CopyDefault string
  | RestoreFrom string string \<comment> \<open>backup, target\<close>
  | Remove string
  | MigrateUsers string string \<comment> \<open>restored source, target\<close>
  | Move string string

fun perform :: "command \<Rightarrow> disk \<Rightarrow> disk" where
  "perform (CopyDefault p) d = d(p \<mapsto> ImageDefault)"
| "perform (RestoreFrom f p) d = d(p \<mapsto> Restored f)"
| "perform (Remove p) d = d(p := None)"
| "perform (MigrateUsers s p) d =
     d(p \<mapsto> (case (d s, d p) of (Some (Restored f), Some ImageDefault) \<Rightarrow> WithUsersOf f | _ \<Rightarrow> Unfinished))"
| "perform (Move s p) d = d(p := d s, s := None)"

text \<open>Where a command that fails may leave something: a removal and a rename within the volume happen or not.\<close>

fun spoils :: "command \<Rightarrow> string set" where
  "spoils (CopyDefault p) = {p}"
| "spoils (RestoreFrom f p) = {p}"
| "spoils (Remove p) = {}"
| "spoils (MigrateUsers s p) = {s, p}"
| "spoils (Move s p) = {}"

text \<open>A run: to the end, or to a command that fails or in which the container is killed.\<close>

inductive runCommands :: "command list \<Rightarrow> disk \<Rightarrow> disk \<Rightarrow> bool \<Rightarrow> bool" where
  ended: "runCommands [] d d True"
| works: "runCommands cs (perform k d) d' c \<Longrightarrow> runCommands (k # cs) d d' c"
| fails: "\<forall>p. p \<notin> spoils k \<longrightarrow> d' p = d p \<Longrightarrow> runCommands (k # cs) d d' False"

inductive_simps run_simps [simp]: "runCommands [] d d' c" "runCommands (k # cs) d d' c"

definition seedCommands :: "Instance \<Rightarrow> string list \<Rightarrow> disk \<Rightarrow> command list" where
  "seedCommands i files d =
     (let dst = securityDatabasePath i; major = securityScriptMajor i in
      if d dst \<noteq> None then []
      else if backupVolumeSpec i = None then [CopyDefault dst]
      else
        case chooseSource major (filter securityGlob files) of
          None \<Rightarrow> [CopyDefault dst]
        | Some (f, m) \<Rightarrow>
            if testNumbers (=) m ''3'' \<and> testNumbers (>) major ''3'' then
              [Remove migratedPath, Remove migrationSourcePath, CopyDefault migratedPath,
               RestoreFrom f migrationSourcePath, MigrateUsers migrationSourcePath migratedPath,
               Remove migrationSourcePath, Move migratedPath dst]
            else [RestoreFrom f dst])"

section \<open>The backup that is chosen\<close>

text \<open>The most recent backup, by the pattern the operator itself uses for them, of a version not newer.\<close>

definition seedSource :: "int \<Rightarrow> string list \<Rightarrow> string option" where
  "seedSource n files = find (\<lambda>f. securityDatabaseBackupPattern f \<and> digitsVal (backupMajor f) \<le> n) files"

lemma backupMajor_of [simp]: "backupMajor (''security'' @ m @ ''.fbk'') = m"
proof -
  have "trimSuffix ((''security'' @ m) @ ''.fbk'') ''.fbk'' = ''security'' @ m" by (rule trimSuffix_append)
  then show ?thesis unfolding backupMajor_def append_assoc by (simp only: trimPrefix_append)
qed

lemma between:
  assumes "hasPrefix f p" and "hasSuffix f q" and "length p + length q \<le> length f"
  shows "f = p @ trimPrefix (trimSuffix f q) p @ q" and "trimSuffix (trimPrefix f p) q = trimPrefix (trimSuffix f q) p"
proof -
  obtain r where r: "f = r @ q" using assms(2) by (auto simp: hasSuffix_iff)
  then have "take (length p) r = p" using assms(1,3) by (simp add: hasPrefix_def)
  then obtain m where m: "r = p @ m" by (metis append_take_drop_id)
  have f: "f = (p @ m) @ q" "f = p @ m @ q" using r m by simp_all
  have "trimPrefix (trimSuffix f q) p = m" unfolding f(1) by (simp only: trimSuffix_append trimPrefix_append)
  moreover have "trimSuffix (trimPrefix f p) q = m" unfolding f(2) by (simp only: trimSuffix_append trimPrefix_append)
  ultimately show "f = p @ trimPrefix (trimSuffix f q) p @ q"
    "trimSuffix (trimPrefix f p) q = trimPrefix (trimSuffix f q) p"
    using f(2) by simp_all
qed

lemma pattern_form:
  "securityDatabaseBackupPattern f \<longleftrightarrow>
     securityGlob f \<and> backupMajor f \<noteq> [] \<and> list_all isDigit (backupMajor f)"
proof (cases "securityGlob f")
  case True
  then have glob: "12 \<le> length f" "hasPrefix f ''security''" "hasSuffix f ''.fbk''" by (auto simp: securityGlob_def)
  then have "length ''security'' + length ''.fbk'' \<le> length f" by simp
  note parts = between [OF glob(2,3) this, folded backupMajor_def]
  have "length f = 12 + length (backupMajor f)" using arg_cong [OF parts(1), of length] by simp
  then have "12 < length f \<longleftrightarrow> backupMajor f \<noteq> []" by auto
  with True glob parts(2) show ?thesis unfolding securityDatabaseBackupPattern_def by simp
next
  case False
  then show ?thesis by (auto simp: securityDatabaseBackupPattern_def securityGlob_def)
qed

lemma test_le:
  assumes "shellNumber major = Some n" and "m \<noteq> []" and "list_all isDigit m"
  shows "testNumbers (\<le>) m major \<longleftrightarrow> digitsVal m \<le> n"
  using assms by (auto simp: testNumbers_def shellNumber_def split: if_splits)

lemma chooseSource_is:
  assumes "shellNumber major = Some n"
  shows "chooseSource major (filter securityGlob files) = map_option (\<lambda>f. (f, backupMajor f)) (seedSource n files)"
  by (induction files) (auto simp: seedSource_def pattern_form Let_def test_le [OF assms])

lemma migrates_iff:
  assumes "shellNumber major = Some n" and "seedSource n files = Some f"
  shows "testNumbers (=) (backupMajor f) ''3'' \<and> testNumbers (>) major ''3''
    \<longleftrightarrow> digitsVal (backupMajor f) = 3 \<and> 3 < n"
proof -
  have "securityDatabaseBackupPattern f" "digitsVal (backupMajor f) \<le> n"
    using assms(2) by (auto simp: seedSource_def find_Some_iff)
  moreover have "n \<le> max_int64" using assms(1) by (auto simp: shellNumber_def split: if_splits)
  moreover have "shellNumber ''3'' = Some 3" by code_simp
  ultimately show ?thesis
    using assms(1) by (auto simp: testNumbers_def pattern_form shellNumber_def [of "backupMajor f"])
qed

section \<open>What a run leaves\<close>

lemma security_file: "securityDatabaseFileName i = ''security'' @ securityScriptMajor i @ ''.fdb''"
proof -
  define m where "m = (let v = cutBefore (CHR ''.'') (version_of i) in if v = [] then ''4'' else v)"
  have whole: "securityDatabaseFileName i = ''security'' @ m @ ''.fdb''"
    by (simp add: securityDatabaseFileName_def securityDatabaseFileNameForVersion_def m_def Let_def)
  have "CHR ''.'' \<notin> set m" by (auto simp: m_def Let_def cutBefore_def dest: set_takeWhileD)
  then have "cutBefore (CHR ''.'') ((''security'' @ m) @ ''.fdb'') = ''security'' @ m"
    unfolding cutBefore_def by (subst takeWhile_append2) auto
  then have "securityScriptMajor i = m"
    unfolding securityScriptMajor_def whole append_assoc by (simp only: trimPrefix_append)
  with whole show ?thesis by simp
qed

lemma seed_paths:
  assumes "shellNumber (securityScriptMajor i) = Some n"
  shows "migratedPath \<noteq> securityDatabasePath i" "migrationSourcePath \<noteq> securityDatabasePath i"
    "migratedPath \<noteq> migrationSourcePath"
proof -
  have "list_all isDigit (securityScriptMajor i)" using assms by (auto simp: shellNumber_def split: if_splits)
  then have "CHR ''/'' \<notin> set (securityScriptMajor i)"
    by (auto simp: list_all_iff isDigit_def dest: bspec [of _ _ "CHR ''/''"])
  then have "plainName (securityDatabaseFileName i)" by (simp add: security_file plainName_def)
  moreover have "plainName ''.security-migrated.fdb''" "plainName ''.security-migration-source.fdb''"
    by (simp_all add: plainName_def)
  ultimately show "migratedPath \<noteq> securityDatabasePath i" "migrationSourcePath \<noteq> securityDatabasePath i"
    "migratedPath \<noteq> migrationSourcePath"
    by (simp_all add: migratedPath_def migrationSourcePath_def securityDatabasePath_def same_file clean_dirs security_file)
qed

text \<open>A backup an operator wrote for a version is found when it is the most recent file.\<close>

lemma newest_backup_is_found:
  assumes "shellNumber (cutBefore (CHR ''.'') from) = Some m" and "m \<le> n"
    and "f = backupFileName (securityDatabaseFileNameForVersion from)"
  shows "seedSource n (f # fs) = Some f"
proof -
  let ?m = "cutBefore (CHR ''.'') from"
  have m: "?m \<noteq> []" "list_all isDigit ?m" "digitsVal ?m = m" using assms(1) by (auto simp: shellNumber_def split: if_splits)
  then have "securityDatabaseFileNameForVersion from = (''security'' @ ?m) @ ''.fdb''"
    by (simp add: securityDatabaseFileNameForVersion_def Let_def)
  then have f: "f = ''security'' @ ?m @ ''.fbk''" using assms(3) backupFileName_fdb [of "''security'' @ ?m"] by simp
  have "hasSuffix ((''security'' @ ?m) @ ''.fbk'') ''.fbk''" by (rule hasSuffix_append)
  then have "securityGlob f" by (simp add: f securityGlob_def hasPrefix_def)
  moreover have "backupMajor f = ?m" unfolding f by (rule backupMajor_of)
  ultimately show ?thesis using m assms(2) by (simp add: seedSource_def pattern_form)
qed

lemma chooseSource_no_number:
  "shellNumber major = None \<Longrightarrow> chooseSource major files = None"
  by (induction files) (auto simp: Let_def testNumbers_def split: option.splits)

text \<open>The backup that is looked for, and what is made of it: without a number there is nothing to compare
  with, and no backup is taken.\<close>

definition seedBackup :: "Instance \<Rightarrow> string list \<Rightarrow> string option" where
  "seedBackup i files =
     (case shellNumber (securityScriptMajor i) of
        None \<Rightarrow> None
      | Some n \<Rightarrow> if backupVolumeSpec i = None then None else seedSource n files)"

definition seeded :: "Instance \<Rightarrow> string option \<Rightarrow> content" where
  "seeded i backup =
     (case (shellNumber (securityScriptMajor i), backup) of
        (Some n, Some f) \<Rightarrow> if digitsVal (backupMajor f) = 3 \<and> 3 < n then WithUsersOf f else Restored f
      | _ \<Rightarrow> ImageDefault)"

lemma seed_default:
  assumes "d (securityDatabasePath i) = None" and "seedBackup i files = None"
  shows "seedCommands i files d = [CopyDefault (securityDatabasePath i)]"
proof (cases "shellNumber (securityScriptMajor i)")
  case None
  with assms show ?thesis by (simp add: seedCommands_def Let_def chooseSource_no_number)
next
  case (Some n)
  with assms show ?thesis
    by (auto simp: seedCommands_def seedBackup_def chooseSource_is [OF Some] split: if_splits)
qed

text \<open>C4: The security database of a new volume comes from the right backup. One that is there is left as it is.
  Otherwise a run of the script to its end leaves it restored from the most recent security database
  backup of a major version not newer than the image's, its users migrated if that is Firebird 3 and
  the image newer, and the image's default if there is no such backup; a migration that is cut short
  anywhere leaves no security database, so the next run starts over; nothing else on the volume
  changes but the two scratch files. A backup the operator has just written for the version it
  upgrades from is the one chosen. All that is so for a tag that starts with the number of its major
  version and a dot or is just that number; for any other (\<open>latest\<close>, \<open>5-bookworm\<close>) the script has no
  number to compare with, and the volume gets the image's default whatever backups there are.\<close>

theorem security_database_is_seeded_right:
  assumes "runCommands (seedCommands i files d) d d' c"
  shows "(d (securityDatabasePath i) \<noteq> None \<longrightarrow> d' = d \<and> c)
    \<and> (d (securityDatabasePath i) = None \<and> c
        \<longrightarrow> d' (securityDatabasePath i) = Some (seeded i (seedBackup i files)))
    \<and> (d (securityDatabasePath i) = None \<and> \<not> c \<and> (\<exists>f. seeded i (seedBackup i files) = WithUsersOf f)
        \<longrightarrow> d' (securityDatabasePath i) = None)
    \<and> (\<forall>p. p \<notin> {securityDatabasePath i, migratedPath, migrationSourcePath} \<longrightarrow> d' p = d p)
    \<and> (\<forall>version fs m n. backupVolumeSpec i \<noteq> None \<and> shellNumber (cutBefore (CHR ''.'') version) = Some m
         \<and> shellNumber (securityScriptMajor i) = Some n \<and> m \<le> n
         \<and> files = backupFileName (securityDatabaseFileNameForVersion version) # fs
         \<longrightarrow> seedBackup i files = Some (backupFileName (securityDatabaseFileNameForVersion version)))
    \<and> (shellNumber (securityScriptMajor i) = None \<longrightarrow> seeded i (seedBackup i files) = ImageDefault)"
proof -
  have found: "\<forall>version fs m n. backupVolumeSpec i \<noteq> None \<and> shellNumber (cutBefore (CHR ''.'') version) = Some m
         \<and> shellNumber (securityScriptMajor i) = Some n \<and> m \<le> n
         \<and> files = backupFileName (securityDatabaseFileNameForVersion version) # fs
         \<longrightarrow> seedBackup i files = Some (backupFileName (securityDatabaseFileNameForVersion version))"
    using newest_backup_is_found by (auto simp: seedBackup_def)
  have unnumbered: "shellNumber (securityScriptMajor i) = None \<longrightarrow> seeded i (seedBackup i files) = ImageDefault"
    by (simp add: seeded_def)
  show ?thesis
  proof (cases "d (securityDatabasePath i)")
    case (Some x)
    with assms found unnumbered show ?thesis by (simp add: seedCommands_def Let_def)
  next
    case none: None
    show ?thesis
    proof (cases "seedBackup i files")
      case None
      from assms [unfolded seed_default [of d i files, OF none this]] None none found
      show ?thesis by (auto simp: seeded_def split: option.splits)
    next
      case (Some f)
      then obtain n where n: "shellNumber (securityScriptMajor i) = Some n"
        and src: "seedSource n files = Some f" "backupVolumeSpec i \<noteq> None"
        by (auto simp: seedBackup_def split: option.splits if_splits)
      note choice = chooseSource_is [OF n] migrates_iff [OF n src(1)] and paths = seed_paths [OF n]
      show ?thesis
      proof (cases "digitsVal (backupMajor f) = 3 \<and> 3 < n")
        case True
        then show ?thesis
          using assms none found paths
          by (auto simp: seedCommands_def Let_def src choice Some seeded_def n)
      next
        case False
        then show ?thesis
          using assms none found
          by (auto simp: seedCommands_def Let_def src choice Some seeded_def n)
      qed
    qed
  qed
qed

text \<open>Firebird 5 over the backup of a Firebird 3, with one of Firebird 6 left behind.\<close>

theorem security_database_is_seeded_right_witness:
  "\<exists>d'. runCommands (seedCommands (sampleInstance ''5.0.1'') [''security6.fbk'', ''security3.fbk''] (\<lambda>_. None)) (\<lambda>_. None) d' True
     \<and> d' ''/var/lib/firebird/data/security5.fdb'' = Some (WithUsersOf ''security3.fbk'')"
proof -
  let ?i = "sampleInstance ''5.0.1''" and ?files = "[''security6.fbk'', ''security3.fbk'']"
  have "\<exists>d'. runCommands (seedCommands ?i ?files (\<lambda>_. None)) (\<lambda>_. None) d' True"
    unfolding seedCommands_def Let_def by (simp split: option.split)
  then obtain d' where run: "runCommands (seedCommands ?i ?files (\<lambda>_. None)) (\<lambda>_. None) d' True" ..
  have "seeded ?i (seedBackup ?i ?files) = WithUsersOf ''security3.fbk''" by code_simp
  moreover have "securityDatabasePath ?i = ''/var/lib/firebird/data/security5.fdb''" by code_simp
  ultimately show ?thesis
    using security_database_is_seeded_right [OF run] run by auto
qed

end
