(* ===== verification/Manager.thy ===== *)
theory Manager
  imports Controller
begin

text \<open>
  The start of the process (\<open>cmd/main.go\<close>): the namespaces the manager watches, and the options of the
  webhook and metrics servers as the command line asks for them, and the calls that set the manager up
  and start it. What the libraries do in these calls is left out: each works or fails.
\<close>

section \<open>Namespaces\<close>

text \<open>\<open>os.LookupEnv\<close> is the map of the variables that are set.\<close>

definition getWatchNamespace :: "strmap \<Rightarrow> error + string" where
  "getWatchNamespace environ =
     (case environ ''WATCH_NAMESPACE'' of
        None \<Rightarrow> Inl (Errorf (''WATCH_NAMESPACE'' @ '' must be set''))
      | Some ns \<Rightarrow> Inr ns)"

text \<open>The keys of \<open>cache.Options.DefaultNamespaces\<close>; every value is the empty configuration.\<close>

definition setupCacheNamespaces :: "string \<Rightarrow> string set" where
  "setupCacheNamespaces namespaces = set (map trimSpace (splitOn (CHR '','') namespaces))"

section \<open>Command line\<close>

record flags =
  fl_metricsAddr :: string
  fl_probeAddr :: string
  fl_leaderElect :: bool
  fl_secureMetrics :: bool
  fl_webhookCertPath :: string
  fl_webhookCertName :: string
  fl_webhookCertKey :: string
  fl_metricsCertPath :: string
  fl_metricsCertName :: string
  fl_metricsCertKey :: string
  fl_enableHTTP2 :: bool

definition defaultFlags :: flags where
  "defaultFlags =
     \<lparr>fl_metricsAddr = ''0'', fl_probeAddr = '':8081'', fl_leaderElect = False, fl_secureMetrics = True,
      fl_webhookCertPath = [], fl_webhookCertName = ''tls.crt'', fl_webhookCertKey = ''tls.key'',
      fl_metricsCertPath = [], fl_metricsCertName = ''tls.crt'', fl_metricsCertKey = ''tls.key'',
      fl_enableHTTP2 = False\<rparr>"

text \<open>A certificate: directory, file name and key. A TLS configuration is its list of protocols, a
  TLS option changes one.\<close>

record serverOptions =
  so_bindAddress :: string
  so_secureServing :: bool
  so_tlsOpts :: "(string list \<Rightarrow> string list) list"
  so_filtered :: bool
  so_certificate :: "(string \<times> string \<times> string) option"

definition disableHTTP2 :: "string list \<Rightarrow> string list" where
  "disableHTTP2 protos = [''http/1.1'']"

definition tlsOpts :: "flags \<Rightarrow> (string list \<Rightarrow> string list) list" where
  "tlsOpts f = (if fl_enableHTTP2 f then [] else [disableHTTP2])"

definition webhookServerOptions :: "flags \<Rightarrow> serverOptions" where
  "webhookServerOptions f =
     \<lparr>so_bindAddress = [], so_secureServing = False, so_tlsOpts = tlsOpts f, so_filtered = False,
      so_certificate = (if fl_webhookCertPath f \<noteq> []
        then Some (fl_webhookCertPath f, fl_webhookCertName f, fl_webhookCertKey f) else None)\<rparr>"

definition metricsServerOptions :: "flags \<Rightarrow> serverOptions" where
  "metricsServerOptions f =
     \<lparr>so_bindAddress = fl_metricsAddr f, so_secureServing = fl_secureMetrics f, so_tlsOpts = tlsOpts f,
      so_filtered = fl_secureMetrics f,
      so_certificate = (if fl_metricsCertPath f \<noteq> []
        then Some (fl_metricsCertPath f, fl_metricsCertName f, fl_metricsCertKey f) else None)\<rparr>"

text \<open>The protocols a server offers once its options have run on a configuration.\<close>

definition offered :: "serverOptions \<Rightarrow> string list \<Rightarrow> string list" where
  "offered so protos = fold (\<lambda>opt ps. opt ps) (so_tlsOpts so) protos"

text \<open>What the manager is built from, or the process exits with status 1. The scheme is a pointer, of the API
  machinery's type \<open>'s\<close>; left out, it is nil, and the manager takes client-go's own.\<close>

record 's managerOptions =
  mg_scheme :: "'s option"
  mg_metrics :: serverOptions
  mg_webhook :: serverOptions
  mg_probeAddr :: string
  mg_leaderElection :: bool
  mg_leaderElectionID :: string
  mg_namespaces :: "string set"

definition managerSetup :: "'s \<Rightarrow> flags \<Rightarrow> strmap \<Rightarrow> error + 's managerOptions" where
  "managerSetup scheme f environ =
     (case getWatchNamespace environ of
        Inl e \<Rightarrow> Inl e
      | Inr ns \<Rightarrow> Inr \<lparr>mg_scheme = Some scheme, mg_metrics = metricsServerOptions f, mg_webhook = webhookServerOptions f,
          mg_probeAddr = fl_probeAddr f, mg_leaderElection = fl_leaderElect f,
          mg_leaderElectionID = ''9d9b3fbf.github.io'', mg_namespaces = setupCacheNamespaces ns\<rparr>)"

section \<open>The calls\<close>

text \<open>What \<open>SetupWithManager\<close> asks the controller builder for.\<close>

record controllerSpec =
  cs_name :: string
  cs_for :: string
  cs_owns :: "string list"
  cs_watches :: "string list"

definition instanceController :: controllerSpec where
  "instanceController =
     \<lparr>cs_name = ''instance'', cs_for = ''Instance'',
      cs_owns = [''StatefulSet'', ''Service'', ''ConfigMap'', ''CronJob''], cs_watches = [''Secret'']\<rparr>"

datatype 's startCall =
    GetConfig
  | NewManager "'s managerOptions"
  | NewClientSet
  | IndexField string
  | BuildController controllerSpec
  | AddHealthzCheck string
  | AddReadyzCheck string
  | StartManager

definition setupWithManager :: "'s startCall list" where
  "setupWithManager = [IndexField secretRefIndexField, BuildController instanceController]"

definition startCalls :: "'s managerOptions \<Rightarrow> 's startCall list" where
  "startCalls opts =
     [GetConfig, NewManager opts, NewClientSet] @ setupWithManager
     @ [AddHealthzCheck ''healthz'', AddReadyzCheck ''readyz'', StartManager]"

text \<open>The calls made and the status the process exits with: the first call that fails is the last.\<close>

fun callAll :: "('s startCall \<Rightarrow> bool) \<Rightarrow> 's startCall list \<Rightarrow> 's startCall list \<times> nat" where
  "callAll works [] = ([], 0)"
| "callAll works (c # cs) =
     (if works c then (case callAll works cs of (made, status) \<Rightarrow> (c # made, status)) else ([c], 1))"

definition processMain :: "'s \<Rightarrow> flags \<Rightarrow> strmap \<Rightarrow> ('s startCall \<Rightarrow> bool) \<Rightarrow> 's startCall list \<times> nat" where
  "processMain scheme f environ works =
     (case managerSetup scheme f environ of Inl e \<Rightarrow> ([], 1) | Inr opts \<Rightarrow> callAll works (startCalls opts))"

section \<open>Properties\<close>

lemma splitOn_joined:
  "CHR '','' \<notin> set n \<Longrightarrow> \<forall>m\<in>set ns. CHR '','' \<notin> set m
   \<Longrightarrow> splitOn (CHR '','') (joinWith ('','' @ blank) (n # ns)) = n # map (\<lambda>m. blank @ m) ns"
  if "CHR '','' \<notin> set blank"
proof -
  have single: "splitOn (CHR '','') m = [m]" if "CHR '','' \<notin> set m" for m
    using that by (induction m) auto
  have cut: "splitOn (CHR '','') (m @ CHR '','' # r) = m # splitOn (CHR '','') r" if "CHR '','' \<notin> set m" for m r
    using that by (induction m) auto
  show "splitOn (CHR '','') (joinWith ('','' @ blank) (n # ns)) = n # map (\<lambda>m. blank @ m) ns"
    if "CHR '','' \<notin> set n" "\<forall>m\<in>set ns. CHR '','' \<notin> set m"
    using that
  proof (induction ns arbitrary: n)
    case Nil
    then show ?case by (simp add: single)
  next
    case (Cons m ns)
    have "joinWith ('','' @ blank) (n # m # ns) = n @ CHR '','' # joinWith ('','' @ blank) ((blank @ m) # ns)"
      by (cases ns) simp_all
    then have "splitOn (CHR '','') (joinWith ('','' @ blank) (n # m # ns))
        = n # splitOn (CHR '','') (joinWith ('','' @ blank) ((blank @ m) # ns))"
      by (simp only: cut [OF Cons.prems(1)])
    also have "\<dots> = n # (blank @ m) # map (\<lambda>m. blank @ m) ns"
      using Cons.IH [of "blank @ m"] Cons.prems(2) \<open>CHR '','' \<notin> set blank\<close> by simp
    finally show ?case by simp
  qed
qed

lemma trimSpace_blank: "\<forall>c\<in>set blank. isSpace c \<Longrightarrow> trimSpace (blank @ m) = trimSpace m"
  by (simp add: trimSpace_def)

text \<open>The watched namespaces are the listed ones: names separated by commas, with or without blanks after
  the commas, are read back as just those names.\<close>

theorem namespaces_are_the_listed_ones:
  assumes "ns \<noteq> []" and "\<forall>n\<in>set ns. CHR '','' \<notin> set n \<and> trimSpace n = n" and "\<forall>c\<in>set blank. isSpace c"
  shows "setupCacheNamespaces (joinWith ('','' @ blank) ns) = set ns"
proof (cases ns)
  case (Cons n ms)
  have "\<not> isSpace CHR '',''" by (simp add: isSpace_def)
  then have "CHR '','' \<notin> set blank" using assms(3) by blast
  then have split: "splitOn (CHR '','') (joinWith ('','' @ blank) ns) = n # map (\<lambda>m. blank @ m) ms"
    using splitOn_joined [OF \<open>CHR '','' \<notin> set blank\<close>, of n ms] assms(2) by (simp only: Cons) simp
  have trimmed: "trimSpace m = m" if "m \<in> set ms" for m
    using assms(2) that by (simp add: Cons)
  have "map (\<lambda>m. trimSpace (blank @ m)) ms = ms"
    by (rule map_idI) (simp only: trimSpace_blank [OF assms(3)] trimmed)
  moreover have "trimSpace n = n" using assms(2) by (simp add: Cons)
  ultimately have "map trimSpace (splitOn (CHR '','') (joinWith ('','' @ blank) ns)) = ns"
    unfolding split by (simp add: Cons o_def)
  then show ?thesis by (simp only: setupCacheNamespaces_def)
qed (use assms(1) in simp)

theorem namespaces_are_the_listed_ones_witness:
  "setupCacheNamespaces (joinWith '', '' [''prod'', ''test'']) = {''prod'', ''test''}"
  using namespaces_are_the_listed_ones [of "[''prod'', ''test'']" "'' ''"]
  by (simp add: trimSpace_def isSpace_def)

lemma servers_as_asked:
  assumes "managerSetup scheme f environ = Inr opts"
  shows "\<not> fl_enableHTTP2 f \<Longrightarrow> offered (mg_metrics opts) ps = [''http/1.1''] \<and> offered (mg_webhook opts) ps = [''http/1.1'']"
    and "fl_enableHTTP2 f \<Longrightarrow> offered (mg_metrics opts) ps = ps \<and> offered (mg_webhook opts) ps = ps"
    and "so_filtered (mg_metrics opts) = fl_secureMetrics f" "so_secureServing (mg_metrics opts) = fl_secureMetrics f"
  using assms
  by (auto simp: managerSetup_def offered_def metricsServerOptions_def webhookServerOptions_def
      tlsOpts_def disableHTTP2_def split: sum.splits)

lemma callAll_made:
  "callAll works cs = (made, status) \<Longrightarrow> (status = 0 \<longleftrightarrow> (\<forall>c\<in>set cs. works c)) \<and> set made \<subseteq> set cs"
  by (induction cs arbitrary: made) (fastforce split: prod.splits if_splits)+

text \<open>C40: How the process starts. It exits with 0 exactly when WATCH_NAMESPACE is set and every call works;
  the manager runs only after the controller is built, with the index its watch on Secrets uses, and both
  checks are in place; and the manager it runs is as the command line asks: without --enable-http2 both
  servers offer HTTP/1.1 alone, whatever they offered before, and with it they keep what they offer;
  the metrics are filtered by authentication exactly when they are served securely, the default.\<close>

theorem process_starts_as_asked:
  assumes "processMain scheme f environ works = (made, status)"
  shows "(status = 0 \<longleftrightarrow> (\<exists>opts. managerSetup scheme f environ = Inr opts \<and> (\<forall>c\<in>set (startCalls opts). works c)))
    \<and> (environ ''WATCH_NAMESPACE'' = None \<longleftrightarrow> made = [])
    \<and> (StartManager \<in> set made \<longrightarrow> works (IndexField secretRefIndexField) \<and> works (BuildController instanceController)
        \<and> works (AddHealthzCheck ''healthz'') \<and> works (AddReadyzCheck ''readyz'')
        \<and> (\<exists>opts. works (NewManager opts) \<and> NewManager opts \<in> set made))
    \<and> (\<forall>opts. NewManager opts \<in> set made \<longrightarrow>
         (\<not> fl_enableHTTP2 f \<longrightarrow> offered (mg_metrics opts) ps = [''http/1.1''] \<and> offered (mg_webhook opts) ps = [''http/1.1''])
         \<and> (fl_enableHTTP2 f \<longrightarrow> offered (mg_metrics opts) ps = ps \<and> offered (mg_webhook opts) ps = ps)
         \<and> so_filtered (mg_metrics opts) = fl_secureMetrics f \<and> so_secureServing (mg_metrics opts) = fl_secureMetrics f)
    \<and> fl_secureMetrics defaultFlags \<and> \<not> fl_enableHTTP2 defaultFlags"
proof (cases "managerSetup scheme f environ")
  case (Inl e)
  then have "environ ''WATCH_NAMESPACE'' = None"
    by (auto simp: managerSetup_def getWatchNamespace_def split: option.splits)
  with Inl assms show ?thesis by (auto simp: processMain_def defaultFlags_def)
next
  case (Inr opts)
  then have set: "environ ''WATCH_NAMESPACE'' \<noteq> None"
    by (auto simp: managerSetup_def getWatchNamespace_def split: option.splits)
  have run: "callAll works (startCalls opts) = (made, status)" using assms Inr by (simp add: processMain_def)
  note calls = callAll_made [OF run]
  have "made \<noteq> []" using run by (auto simp: startCalls_def split: if_splits prod.splits)
  moreover have "StartManager \<in> set made \<longrightarrow> works (IndexField secretRefIndexField) \<and> works (BuildController instanceController)
        \<and> works (AddHealthzCheck ''healthz'') \<and> works (AddReadyzCheck ''readyz'')
        \<and> works (NewManager opts) \<and> NewManager opts \<in> set made"
    using run by (auto simp: startCalls_def setupWithManager_def split: if_splits prod.splits)
  moreover have "o' = opts" if "NewManager o' \<in> set made" for o'
    using that calls by (auto simp: startCalls_def setupWithManager_def)
  ultimately show ?thesis
    using calls set Inr servers_as_asked [OF Inr] by (auto simp: defaultFlags_def)
qed

theorem process_starts_as_asked_witness:
  "\<exists>opts. managerSetup () defaultFlags [''WATCH_NAMESPACE'' \<mapsto> ''prod''] = Inr opts
     \<and> processMain () defaultFlags [''WATCH_NAMESPACE'' \<mapsto> ''prod''] (\<lambda>_. True) = (startCalls opts, 0)
     \<and> offered (mg_metrics opts) [''h2'', ''http/1.1''] = [''http/1.1'']"
proof -
  let ?e = "[''WATCH_NAMESPACE'' \<mapsto> ''prod''] :: strmap"
  obtain opts where opts: "managerSetup () defaultFlags ?e = Inr opts"
    by (auto simp: managerSetup_def getWatchNamespace_def)
  have run: "processMain () defaultFlags ?e (\<lambda>_. True) = (startCalls opts, 0)"
    by (simp add: processMain_def opts startCalls_def setupWithManager_def)
  have "NewManager opts \<in> set (startCalls opts)" by (simp add: startCalls_def)
  then show ?thesis
    using process_starts_as_asked [OF run, of "[''h2'', ''http/1.1'']"] opts run by (auto simp: defaultFlags_def)
qed

end
