(* ===== verification/Scheme.thy ===== *)
theory Scheme
  imports Manager
begin

text \<open>
  The registration of the custom resource's Go types (\<open>api/v1/groupversion_info.go\<close>, the \<open>init\<close> functions
  of \<open>api/v1/instance_types.go\<close> and \<open>cmd/main.go\<close>), and the process from its start: the initialisation of
  the packages, then \<open>main\<close>, whose manager is handed the scheme.
\<close>

section \<open>Schemes\<close>

record groupVersion =
  gv_group :: string
  gv_version :: string

definition SchemeGroupVersion :: groupVersion where
  "SchemeGroupVersion = \<lparr>gv_group = ''kubebird.github.io'', gv_version = ''v1''\<rparr>"

definition GroupVersion :: groupVersion where
  "GroupVersion = SchemeGroupVersion"

text \<open>A function that registers types in a scheme: it may fail, and leaves a scheme.\<close>

type_synonym 's registration = "'s \<Rightarrow> error option \<times> 's"

text \<open>The API machinery's schemes \<open>'s\<close> and scheme builders \<open>'b\<close> are a parameter:
  \<open>runtime.NewScheme\<close>, \<open>NewSchemeBuilder\<close>, the builder's \<open>Register\<close> and \<open>AddToScheme\<close>, the scheme's
  \<open>AddKnownTypes\<close> (with the kinds of the types) and \<open>Recognizes\<close>, \<open>metav1.AddToGroupVersion\<close> and client-go's
  own \<open>AddToScheme\<close>.\<close>

record ('s, 'b) machinery =
  am_NewScheme :: 's
  am_NewSchemeBuilder :: "'s registration list \<Rightarrow> 'b"
  am_Register :: "'b \<Rightarrow> 's registration list \<Rightarrow> 'b"
  am_builderAddToScheme :: "'b \<Rightarrow> 's registration"
  am_AddKnownTypes :: "'s \<Rightarrow> groupVersion \<Rightarrow> string list \<Rightarrow> 's"
  am_AddToGroupVersion :: "'s \<Rightarrow> groupVersion \<Rightarrow> 's"
  am_clientgoAddToScheme :: "'s registration"
  am_Recognizes :: "'s \<Rightarrow> groupVersion \<Rightarrow> string \<Rightarrow> bool"

section \<open>The package api/v1\<close>

text \<open>Its variable: the builder, as the initialiser of the variable makes it.\<close>

definition SchemeBuilder :: "('s, 'b) machinery \<Rightarrow> 'b" where
  "SchemeBuilder m = am_NewSchemeBuilder m [\<lambda>scheme. (None, am_AddToGroupVersion m scheme SchemeGroupVersion)]"

text \<open>\<open>init\<close> leaves the variable changed.\<close>

definition registerInstance :: "('s, 'b) machinery \<Rightarrow> 's registration" where
  "registerInstance m s = (None, am_AddKnownTypes m s SchemeGroupVersion [''Instance'', ''InstanceList''])"

definition apiInit :: "('s, 'b) machinery \<Rightarrow> 'b \<Rightarrow> 'b" where
  "apiInit m builder = am_Register m builder [registerInstance m]"

text \<open>\<open>AddToScheme\<close> is bound to the address of the variable: it sees what was registered meanwhile.\<close>

definition AddToScheme :: "('s, 'b) machinery \<Rightarrow> 'b \<Rightarrow> 's registration" where
  "AddToScheme m builder = am_builderAddToScheme m builder"

section \<open>The process\<close>

text \<open>\<open>utilruntime.Must\<close> panics on an error.\<close>

definition must :: "error option \<times> 's \<Rightarrow> error + 's" where
  "must r = (case fst r of Some e \<Rightarrow> Inl e | None \<Rightarrow> Inr (snd r))"

definition mainInit :: "('s, 'b) machinery \<Rightarrow> 'b \<Rightarrow> error + 's" where
  "mainInit m builder =
     (case must (am_clientgoAddToScheme m (am_NewScheme m)) of
        Inl e \<Rightarrow> Inl e
      | Inr scheme \<Rightarrow> must (AddToScheme m builder scheme))"

text \<open>The imported package is initialised first. A panic ends the process before \<open>main\<close>; otherwise
  \<open>main\<close> runs with the package variable \<open>scheme\<close> as \<open>init\<close> has left it.\<close>

definition process :: "('s, 'b) machinery \<Rightarrow> flags \<Rightarrow> strmap \<Rightarrow> ('s startCall \<Rightarrow> bool)
    \<Rightarrow> error + 's startCall list \<times> nat" where
  "process m f environ works =
     (case mainInit m (apiInit m (SchemeBuilder m)) of
        Inl e \<Rightarrow> Inl e
      | Inr scheme \<Rightarrow> Inr (processMain scheme f environ works))"

section \<open>What the API machinery promises\<close>

text \<open>A builder runs the functions it was given, in order, until one fails.\<close>

fun runAll :: "'s registration list \<Rightarrow> 's registration" where
  "runAll [] s = (None, s)"
| "runAll (r # rs) s = (case r s of (Some e, s') \<Rightarrow> (Some e, s') | (None, s') \<Rightarrow> runAll rs s')"

text \<open>A type that was added is recognised, and one that is recognised stays so.\<close>

definition machineryLaws :: "('s, 'b) machinery \<Rightarrow> bool" where
  "machineryLaws m \<longleftrightarrow>
     (\<forall>fs. am_builderAddToScheme m (am_NewSchemeBuilder m fs) = runAll fs)
   \<and> (\<forall>fs gs. am_builderAddToScheme m (am_Register m (am_NewSchemeBuilder m fs) gs) = runAll (fs @ gs))
   \<and> (\<forall>s gv kinds g k. am_Recognizes m (am_AddKnownTypes m s gv kinds) g k
        \<longleftrightarrow> g = gv \<and> k \<in> set kinds \<or> am_Recognizes m s g k)
   \<and> (\<forall>s gv g k. am_Recognizes m s g k \<longrightarrow> am_Recognizes m (am_AddToGroupVersion m s gv) g k)"

section \<open>Properties\<close>

lemma init_registers:
  assumes "machineryLaws m"
  shows "AddToScheme m (apiInit m (SchemeBuilder m)) s =
    (None, am_AddKnownTypes m (am_AddToGroupVersion m s SchemeGroupVersion) SchemeGroupVersion
             [''Instance'', ''InstanceList''])"
  using assms by (simp add: machineryLaws_def AddToScheme_def apiInit_def SchemeBuilder_def registerInstance_def)

lemma made_with_scheme:
  assumes "processMain scheme f environ works = (made, status)"
  shows "(StartManager \<in> set made \<longrightarrow> (\<exists>opts. NewManager opts \<in> set made))
    \<and> (\<forall>opts. NewManager opts \<in> set made \<longrightarrow> mg_scheme opts = Some scheme)"
proof (cases "managerSetup scheme f environ")
  case (Inr opts)
  then have "mg_scheme opts = Some scheme" by (auto simp: managerSetup_def split: sum.splits)
  moreover have run: "callAll works (startCalls opts) = (made, status)" using assms Inr by (simp add: processMain_def)
  moreover have "StartManager \<in> set made \<longrightarrow> NewManager opts \<in> set made"
    using run by (auto simp: startCalls_def setupWithManager_def split: if_splits prod.splits)
  ultimately show ?thesis using callAll_made [OF run] by (auto simp: startCalls_def setupWithManager_def)
qed (use assms in \<open>simp add: processMain_def\<close>)

text \<open>C39: The process knows its types. It panics before \<open>main\<close> exactly when client-go cannot register its own
  types. Otherwise the manager it makes, without which none is started, is given a scheme in its options,
  and that scheme recognises the kind the controller is for and its list kind, as members of the group
  version kubebird.github.io/v1, and every type client-go registered.\<close>

theorem process_knows_its_types:
  assumes "machineryLaws m"
  shows "case process m f environ works of
      Inl e \<Rightarrow> fst (am_clientgoAddToScheme m (am_NewScheme m)) = Some e
    | Inr (made, status) \<Rightarrow>
        fst (am_clientgoAddToScheme m (am_NewScheme m)) = None
        \<and> (StartManager \<in> set made \<longrightarrow> (\<exists>opts. NewManager opts \<in> set made))
        \<and> (\<forall>opts. NewManager opts \<in> set made \<longrightarrow> (\<exists>scheme. mg_scheme opts = Some scheme
             \<and> am_Recognizes m scheme \<lparr>gv_group = ''kubebird.github.io'', gv_version = ''v1''\<rparr> (cs_for instanceController)
             \<and> am_Recognizes m scheme GroupVersion (cs_for instanceController @ ''List'')
             \<and> (\<forall>g k. am_Recognizes m (snd (am_clientgoAddToScheme m (am_NewScheme m))) g k
                  \<longrightarrow> am_Recognizes m scheme g k)))"
proof (cases "am_clientgoAddToScheme m (am_NewScheme m)")
  case (Pair e s)
  show ?thesis
  proof (cases e)
    case None
    let ?scheme = "am_AddKnownTypes m (am_AddToGroupVersion m s SchemeGroupVersion) SchemeGroupVersion [''Instance'', ''InstanceList'']"
    obtain made status where run: "processMain ?scheme f environ works = (made, status)" by fastforce
    have "process m f environ works = Inr (made, status)"
      using Pair None run by (simp add: process_def mainInit_def must_def init_registers [OF assms])
    moreover have "am_Recognizes m ?scheme \<lparr>gv_group = ''kubebird.github.io'', gv_version = ''v1''\<rparr> (cs_for instanceController)
        \<and> am_Recognizes m ?scheme GroupVersion (cs_for instanceController @ ''List'')
        \<and> (\<forall>g k. am_Recognizes m s g k \<longrightarrow> am_Recognizes m ?scheme g k)"
      using assms by (simp add: machineryLaws_def GroupVersion_def SchemeGroupVersion_def instanceController_def)
    ultimately show ?thesis
      using Pair None made_with_scheme [OF run] by auto
  qed (use Pair in \<open>simp add: process_def mainInit_def must_def\<close>)
qed

text \<open>A scheme as the list of what it knows, and a builder as the list of its functions.\<close>

definition listMachinery :: "((groupVersion \<times> string) list, (groupVersion \<times> string) list registration list) machinery" where
  "listMachinery =
     \<lparr>am_NewScheme = [], am_NewSchemeBuilder = (\<lambda>fs. fs), am_Register = (@), am_builderAddToScheme = runAll,
      am_AddKnownTypes = (\<lambda>s gv kinds. map (Pair gv) kinds @ s),
      am_AddToGroupVersion = (\<lambda>s gv. (gv, ''WatchEvent'') # s),
      am_clientgoAddToScheme = (\<lambda>s. (None, (\<lparr>gv_group = ''apps'', gv_version = ''v1''\<rparr>, ''StatefulSet'') # s)),
      am_Recognizes = (\<lambda>s g k. (g, k) \<in> set s)\<rparr>"

theorem process_knows_its_types_witness:
  "machineryLaws listMachinery
   \<and> (\<exists>opts scheme made. process listMachinery defaultFlags [''WATCH_NAMESPACE'' \<mapsto> ''prod''] (\<lambda>c. True) = Inr (made, 0)
        \<and> NewManager opts \<in> set made \<and> mg_scheme opts = Some scheme
        \<and> (SchemeGroupVersion, ''Instance'') \<in> set scheme)"
proof -
  let ?process = "process listMachinery defaultFlags [''WATCH_NAMESPACE'' \<mapsto> ''prod''] (\<lambda>c. True)"
  have laws: "machineryLaws listMachinery"
    by (auto simp: machineryLaws_def listMachinery_def fun_eq_iff)
  have calls: "callAll (\<lambda>c. True) cs = (cs, 0)" for cs :: "'s startCall list" by (induction cs) auto
  have clientgo: "fst (am_clientgoAddToScheme listMachinery s) = None" for s by (simp add: listMachinery_def)
  have "\<exists>opts made. ?process = Inr (made, 0) \<and> NewManager opts \<in> set made"
    by (auto simp: process_def mainInit_def must_def clientgo init_registers [OF laws] processMain_def
        managerSetup_def getWatchNamespace_def calls startCalls_def)
  then obtain opts made where run: "?process = Inr (made, 0)" "NewManager opts \<in> set made" by blast
  with process_knows_its_types [OF laws, of defaultFlags "[''WATCH_NAMESPACE'' \<mapsto> ''prod'']" "\<lambda>c. True"]
  obtain scheme where "mg_scheme opts = Some scheme" "(SchemeGroupVersion, ''Instance'') \<in> set scheme"
    by (auto simp: listMachinery_def SchemeGroupVersion_def instanceController_def)
  then show ?thesis using laws run by blast
qed

end
