(* ===== verification/Memory.thy ===== *)
theory Memory
  imports Prelude
begin

text \<open>
  Memory as far as copying needs it: cells at addresses, pointers and slices into them, and copying a
  pointer's target or a slice's elements into new cells, as \<open>controller-gen\<close> generates it. What a value
  with pointers stands for is a view of it: a function of the cells that is undefined when a pointer
  dangles.
\<close>

section \<open>Cells\<close>

type_synonym addr = nat

record 'c mem =
  cells :: "addr \<rightharpoonup> 'c"
  limit :: addr

definition wfMem :: "'c mem \<Rightarrow> bool" where
  "wfMem m = (\<forall>a. limit m \<le> a \<longrightarrow> cells m a = None)"

text \<open>How values of a type are kept in cells.\<close>

record ('c, 'x) kind =
  put_cell :: "'x \<Rightarrow> 'c"
  get_cell :: "'c \<Rightarrow> 'x option"

definition kindLaw :: "('c, 'x) kind \<Rightarrow> bool" where
  "kindLaw k = (\<forall>x. get_cell k (put_cell k x) = Some x)"

definition load :: "('c, 'x) kind \<Rightarrow> (addr \<rightharpoonup> 'c) \<Rightarrow> addr \<Rightarrow> 'x option" where
  "load k c a = (case c a of None \<Rightarrow> None | Some w \<Rightarrow> get_cell k w)"

text \<open>Go's types rule out reading a cell that is not there or of another type, so no value is given then.\<close>

definition deref :: "('c, 'x) kind \<Rightarrow> 'c mem \<Rightarrow> addr \<Rightarrow> 'x" where
  "deref k m a = the (load k (cells m) a)"

definition alloc :: "'c \<Rightarrow> 'c mem \<Rightarrow> addr \<times> 'c mem" where
  "alloc w m = (limit m, \<lparr>cells = (cells m)(limit m \<mapsto> w), limit = Suc (limit m)\<rparr>)"

definition store :: "addr \<Rightarrow> 'c \<Rightarrow> 'c mem \<Rightarrow> 'c mem" where
  "store a w m = m\<lparr>cells := (cells m)(a \<mapsto> w)\<rparr>"

section \<open>Copying\<close>

text \<open>Copying a value gives its copy and the memory after it. A value without pointers is its own copy.\<close>

definition plainCopy :: "'x \<Rightarrow> 'c mem \<Rightarrow> 'x \<times> 'c mem" where
  "plainCopy x m = (x, m)"

text \<open>\<open>if p == nil { return nil }; out := new(T); p.DeepCopyInto(out)\<close>, where \<open>zeroed\<close> is the cell \<open>new\<close> gives.\<close>

definition copyPointer :: "'c \<Rightarrow> ('c, 'x) kind \<Rightarrow> ('x \<Rightarrow> 'c mem \<Rightarrow> 'x \<times> 'c mem) \<Rightarrow> addr option \<Rightarrow> 'c mem \<Rightarrow> addr option \<times> 'c mem" where
  "copyPointer zeroed k f p m =
     (case p of
        None \<Rightarrow> (None, m)
      | Some a \<Rightarrow>
          let (b, m1) = alloc zeroed m;
              (y, m2) = f (deref k m1 a) m1
          in (Some b, store b (put_cell k y) m2))"

text \<open>A slice: nil, or an array with the offset and the length of the part it shows.\<close>

datatype slice = NilSlice | Slice addr nat nat

text \<open>\<open>for i := range *in { (*in)[i].DeepCopyInto(&(*out)[i]) }\<close>, with \<open>n\<close> elements to go.\<close>

primrec copyElements :: "('c, 'x list) kind \<Rightarrow> ('x \<Rightarrow> 'c mem \<Rightarrow> 'x \<times> 'c mem) \<Rightarrow> addr \<Rightarrow> nat \<Rightarrow> addr
    \<Rightarrow> nat \<Rightarrow> nat \<Rightarrow> 'c mem \<Rightarrow> 'c mem" where
  "copyElements k f a off b 0 i m = m"
| "copyElements k f a off b (Suc n) i m =
     (let (y, m1) = f (deref k m a ! (off + i)) m
      in copyElements k f a off b n (Suc i) (store b (put_cell k ((deref k m1 b)[i := y])) m1))"

text \<open>\<open>if s != nil { *out = make([]T, len(s)) ... }\<close>; the zero value of \<open>T\<close> fills what \<open>make\<close> returns.\<close>

definition copySlice :: "('c, 'x list) kind \<Rightarrow> 'x \<Rightarrow> ('x \<Rightarrow> 'c mem \<Rightarrow> 'x \<times> 'c mem) \<Rightarrow> slice \<Rightarrow> 'c mem \<Rightarrow> slice \<times> 'c mem" where
  "copySlice k z f s m =
     (case s of
        NilSlice \<Rightarrow> (NilSlice, m)
      | Slice a off n \<Rightarrow>
          let (b, m1) = alloc (put_cell k (replicate n z)) m
          in (Slice b 0 n, copyElements k f a off b n 0 m1))"

section \<open>Views\<close>

definition plainView :: "(addr \<rightharpoonup> 'c) \<Rightarrow> 'x \<Rightarrow> 'x option" where
  "plainView c x = Some x"

definition pointerView :: "('c, 'x) kind \<Rightarrow> ((addr \<rightharpoonup> 'c) \<Rightarrow> 'x \<Rightarrow> 'v option) \<Rightarrow> (addr \<rightharpoonup> 'c) \<Rightarrow> addr option \<Rightarrow> 'v option option" where
  "pointerView k view c p =
     (case p of
        None \<Rightarrow> Some None
      | Some a \<Rightarrow> (case load k c a of None \<Rightarrow> None | Some x \<Rightarrow> map_option Some (view c x)))"

definition sliceView :: "('c, 'x list) kind \<Rightarrow> ((addr \<rightharpoonup> 'c) \<Rightarrow> 'x \<Rightarrow> 'v option) \<Rightarrow> (addr \<rightharpoonup> 'c) \<Rightarrow> slice \<Rightarrow> 'v list option" where
  "sliceView k view c s =
     (case s of
        NilSlice \<Rightarrow> Some []
      | Slice a off n \<Rightarrow>
          (case load k c a of
             None \<Rightarrow> None
           | Some xs \<Rightarrow> if off + n \<le> length xs then those (map (view c) (take n (drop off xs))) else None))"

definition pairView :: "('c \<Rightarrow> 'x \<Rightarrow> 'v option) \<Rightarrow> ('c \<Rightarrow> 'y \<Rightarrow> 'w option) \<Rightarrow> 'c \<Rightarrow> 'x \<times> 'y \<Rightarrow> ('v \<times> 'w) option" where
  "pairView v w c p = (case (v c (fst p), w c (snd p)) of (Some x, Some y) \<Rightarrow> Some (x, y) | _ \<Rightarrow> None)"

definition pairCopy :: "('x \<Rightarrow> 'c mem \<Rightarrow> 'x \<times> 'c mem) \<Rightarrow> ('y \<Rightarrow> 'c mem \<Rightarrow> 'y \<times> 'c mem) \<Rightarrow> 'x \<times> 'y \<Rightarrow> 'c mem \<Rightarrow> ('x \<times> 'y) \<times> 'c mem" where
  "pairCopy f g p m = (let (x, m1) = f (fst p) m; (y, m2) = g (snd p) m1 in ((x, y), m2))"

section \<open>Growing memory\<close>

definition grows :: "'c mem \<Rightarrow> 'c mem \<Rightarrow> bool" where
  "grows m m' = (wfMem m' \<and> limit m \<le> limit m' \<and> cells m \<subseteq>\<^sub>m cells m')"

text \<open>The cells from an address on.\<close>

abbreviation above :: "addr \<Rightarrow> (addr \<rightharpoonup> 'c) \<Rightarrow> addr \<rightharpoonup> 'c" where
  "above a c \<equiv> c |` {a..}"

lemma grows_refl: "wfMem m \<Longrightarrow> grows m m"
  by (simp add: grows_def)

lemma grows_trans: "grows m n \<Longrightarrow> grows n o' \<Longrightarrow> grows m o'"
  by (auto simp: grows_def intro: map_le_trans)

lemma grows_wf: "grows m n \<Longrightarrow> wfMem n"
  by (simp add: grows_def)

lemma grows_le: "grows m n \<Longrightarrow> cells m \<subseteq>\<^sub>m cells n"
  by (simp add: grows_def)

lemma load_mono: "c \<subseteq>\<^sub>m d \<Longrightarrow> load k c a = Some x \<Longrightarrow> load k d a = Some x"
  by (auto simp: load_def map_le_def dom_def split: option.splits)

lemma above_mono: "c \<subseteq>\<^sub>m d \<Longrightarrow> b \<le> a \<Longrightarrow> above a c \<subseteq>\<^sub>m above b d"
  by (auto simp: map_le_def restrict_map_def dom_def)

lemma grows_alloc: "wfMem m \<Longrightarrow> alloc w m = (b, m1) \<Longrightarrow> grows m m1 \<and> b = limit m \<and> limit m1 = Suc b \<and> cells m1 b = Some w"
  by (auto simp: alloc_def grows_def wfMem_def map_le_def)

lemma grows_store:
  "grows m n \<Longrightarrow> limit m \<le> b \<Longrightarrow> b < limit n \<Longrightarrow> wfMem m \<Longrightarrow> grows m (store b w n)"
  by (auto simp: grows_def store_def wfMem_def map_le_def dom_def)

lemma load_store [simp]: "kindLaw k \<Longrightarrow> load k (cells (store b (put_cell k x) m)) b = Some x"
  by (simp add: load_def store_def kindLaw_def)

lemma limit_store [simp]: "limit (store b w m) = limit m"
  by (simp add: store_def)

lemma above_store: "b < a \<Longrightarrow> above a (cells (store b w m)) = above a (cells m)"
  by (auto simp: store_def restrict_map_def fun_eq_iff)

lemma deref_load: "load k (cells m) a = Some x \<Longrightarrow> deref k m a = x"
  by (simp add: deref_def)

section \<open>The contract of a deep copy\<close>

text \<open>
  A deep copy adds cells and changes none; and the new cells alone are enough to read the copy, as what
  the original stood for. So nothing that is done to the old cells shows in the copy.
\<close>

locale copier =
  fixes view :: "(addr \<rightharpoonup> 'c) \<Rightarrow> 'x \<Rightarrow> 'v option" and copy :: "'x \<Rightarrow> 'c mem \<Rightarrow> 'x \<times> 'c mem"
  assumes view_mono: "c \<subseteq>\<^sub>m d \<Longrightarrow> view c x = Some v \<Longrightarrow> view d x = Some v"
    and copies: "wfMem m \<Longrightarrow> view (cells m) x = Some v \<Longrightarrow> copy x m = (y, m')
      \<Longrightarrow> grows m m' \<and> view (above (limit m) (cells m')) y = Some v"
begin

lemma copy_reads_the_same:
  assumes "wfMem m" and "view (cells m) x = Some v" and "copy x m = (y, m')"
    and "\<And>a. limit m \<le> a \<Longrightarrow> c a = cells m' a"
  shows "view c y = Some v"
proof (rule view_mono)
  show "view (above (limit m) (cells m')) y = Some v" using copies [OF assms(1-3)] by simp
  show "above (limit m) (cells m') \<subseteq>\<^sub>m c" using assms(4) by (auto simp: map_le_def restrict_map_def)
qed

lemma original_reads_the_same:
  assumes "wfMem m" and "view (cells m) x = Some v" and "\<And>a. a < limit m \<Longrightarrow> c a = cells m a"
  shows "view c x = Some v"
proof (rule view_mono [OF _ assms(2)])
  have "c a = cells m a" if "cells m a \<noteq> None" for a
    using assms(1,3) that by (cases "a < limit m") (auto simp: wfMem_def)
  then show "cells m \<subseteq>\<^sub>m c" by (auto simp: map_le_def dom_def)
qed

end

text \<open>The contract is met by values without pointers, and kept by pointers, slices and structs.\<close>

interpretation plain: copier plainView plainCopy
  by unfold_locales
    (auto simp: plainView_def plainCopy_def grows_refl)

lemma copier_plain: "copier (\<lambda>c. g) plainCopy"
  by unfold_locales (auto simp: plainCopy_def grows_refl)

lemma copier_pointer:
  assumes "kindLaw k" and "copier view f"
  shows "copier (pointerView k view) (copyPointer zeroed k f)"
proof
  fix c d :: "addr \<rightharpoonup> 'a" and p v
  assume "c \<subseteq>\<^sub>m d" and "pointerView k view c p = Some v"
  then show "pointerView k view d p = Some v"
    by (auto simp: pointerView_def load_mono split: option.splits dest: copier.view_mono [OF assms(2)])
next
  fix m m' :: "'a mem" and p q v
  assume wf: "wfMem m" and v: "pointerView k view (cells m) p = Some v" and run: "copyPointer zeroed k f p m = (q, m')"
  show "grows m m' \<and> pointerView k view (above (limit m) (cells m')) q = Some v"
  proof (cases p)
    case None
    then show ?thesis using wf v run by (auto simp: copyPointer_def pointerView_def grows_refl)
  next
    case (Some a)
    with v obtain x w where x: "load k (cells m) a = Some x" "view (cells m) x = Some w" and v: "v = Some w"
      by (auto simp: pointerView_def split: option.splits)
    obtain b m1 where m1: "alloc zeroed m = (b, m1)" by fastforce
    note new = grows_alloc [OF wf m1]
    then have le: "cells m \<subseteq>\<^sub>m cells m1" by (simp add: grows_le)
    note x1 = load_mono [OF le x(1)] copier.view_mono [OF assms(2) le x(2)]
    obtain y m2 where m2: "f x m1 = (y, m2)" by fastforce
    have copy: "grows m1 m2" "view (above (limit m1) (cells m2)) y = Some w"
      using copier.copies [OF assms(2) _ x1(2) m2] new grows_wf [of m m1] by simp_all
    have q: "q = Some b" and m': "m' = store b (put_cell k y) m2"
      using run m1 m2 x1(1) by (simp_all add: Some copyPointer_def deref_load)
    have "limit m1 \<le> limit m2" using copy(1) by (simp add: grows_def)
    then have "grows m m'" using grows_store [OF grows_trans, of m m1 m2 b] new copy(1) wf by (simp add: m')
    moreover have "above (limit m1) (cells m2) \<subseteq>\<^sub>m above b (cells m')"
      using new by (auto simp: m' store_def map_le_def restrict_map_def)
    then have "view (above b (cells m')) y = Some w" using copier.view_mono [OF assms(2)] copy(2) by blast
    moreover have "load k (above b (cells m')) b = Some y"
      using assms(1) by (simp add: m' store_def load_def kindLaw_def)
    ultimately show ?thesis using new by (simp add: q v pointerView_def)
  qed
qed

lemma those_Some: "those xs = Some ys \<longleftrightarrow> xs = map Some ys"
proof (induction xs arbitrary: ys)
  case (Cons x xs)
  then show ?case by (cases x; cases ys) (auto split: option.splits)
qed auto

text \<open>The elements of a slice, one after the other: those up to \<open>i\<close> are copied, \<open>n\<close> are to go.\<close>

lemma copyElements_copies:
  assumes "kindLaw k" and "copier view f" and wf: "wfMem m0" and b: "b = limit m0"
    and xs: "load k (cells m0) a = Some xs" "off + length vs \<le> length xs"
      "\<forall>j<length vs. view (cells m0) (xs ! (off + j)) = Some (vs ! j)"
  shows "i + n = length vs \<Longrightarrow> grows m0 m \<Longrightarrow> b < limit m
    \<Longrightarrow> load k (cells m) b = Some ys \<Longrightarrow> length ys = length vs
    \<Longrightarrow> \<forall>j<i. view (above (Suc b) (cells m)) (ys ! j) = Some (vs ! j)
    \<Longrightarrow> m' = copyElements k f a off b n i m
    \<Longrightarrow> grows m0 m' \<and> (\<exists>zs. load k (cells m') b = Some zs \<and> length zs = length vs
          \<and> (\<forall>j<length vs. view (above (Suc b) (cells m')) (zs ! j) = Some (vs ! j)))"
proof (induction n arbitrary: i m ys)
  case 0
  then show ?case by auto
next
  case (Suc n)
  let ?x = "xs ! (off + i)"
  have x: "deref k m a = xs" "view (cells m) ?x = Some (vs ! i)"
    using load_mono [OF grows_le [OF Suc.prems(2)] xs(1)] xs(3) Suc.prems(1)
      copier.view_mono [OF assms(2) grows_le [OF Suc.prems(2)]] by (simp_all add: deref_load)
  obtain y m1 where m1: "f ?x m = (y, m1)" by fastforce
  have copy: "grows m m1" "view (above (limit m) (cells m1)) y = Some (vs ! i)"
    using copier.copies [OF assms(2) grows_wf [OF Suc.prems(2)] x(2) m1] by simp_all
  have ys: "deref k m1 b = ys" by (rule deref_load [OF load_mono [OF grows_le [OF copy(1)] Suc.prems(4)]])
  define m2 where "m2 = store b (put_cell k (ys[i := y])) m1"
  have lim: "limit m \<le> limit m1" using copy(1) by (simp add: grows_def)
  have "m' = copyElements k f a off b n (Suc i) m2"
    using Suc.prems(7) m1 x(1) ys by (simp add: m2_def)
  moreover have "grows m0 m2"
    unfolding m2_def using grows_store [OF grows_trans [OF Suc.prems(2) copy(1)]] wf b lim Suc.prems(3) by simp
  moreover have "load k (cells m2) b = Some (ys[i := y])" using assms(1) by (simp add: m2_def)
  moreover have "view (above (Suc b) (cells m2)) (ys[i := y] ! j) = Some (vs ! j)" if "j < Suc i" for j
  proof -
    have eq: "above (Suc b) (cells m2) = above (Suc b) (cells m1)" by (simp add: m2_def above_store)
    show ?thesis
    proof (cases "j = i")
      case True
      have "above (limit m) (cells m1) \<subseteq>\<^sub>m above (Suc b) (cells m2)"
        unfolding eq using Suc.prems(3) by (intro above_mono) auto
      then show ?thesis
        using True copy(2) Suc.prems(1,5) copier.view_mono [OF assms(2)] by simp
    next
      case False
      then have "view (above (Suc b) (cells m)) (ys ! j) = Some (vs ! j)" using that Suc.prems(6) by simp
      moreover have "above (Suc b) (cells m) \<subseteq>\<^sub>m above (Suc b) (cells m2)"
        unfolding eq using copy(1) by (intro above_mono) (auto simp: grows_le)
      ultimately show ?thesis using False copier.view_mono [OF assms(2)] by simp
    qed
  qed
  ultimately show ?case
    using Suc.IH [of "Suc i" m2 "ys[i := y]"] Suc.prems(1,3,5) lim by (simp add: m2_def)
qed

lemma copier_slice:
  assumes "kindLaw k" and "copier view f"
  shows "copier (sliceView k view) (copySlice k z f)"
proof
  fix c d :: "addr \<rightharpoonup> 'a" and s v
  assume le: "c \<subseteq>\<^sub>m d" and v: "sliceView k view c s = Some v"
  have mono: "view c x = Some w \<Longrightarrow> view d x = Some w" for x w using copier.view_mono [OF assms(2) le] .
  have all: "map (view c) xs = map Some ws \<Longrightarrow> map (view d) xs = map Some ws" for xs ws
    using mono by (induction xs arbitrary: ws) auto
  with le v show "sliceView k view d s = Some v"
    by (auto simp: sliceView_def load_mono those_Some split: slice.splits option.splits if_splits)
next
  fix m m' :: "'a mem" and s t v
  assume wf: "wfMem m" and v: "sliceView k view (cells m) s = Some v" and run: "copySlice k z f s m = (t, m')"
  show "grows m m' \<and> sliceView k view (above (limit m) (cells m')) t = Some v"
  proof (cases s)
    case NilSlice
    then show ?thesis using wf v run by (auto simp: copySlice_def sliceView_def grows_refl)
  next
    case (Slice a off n)
    with v obtain xs where xs: "load k (cells m) a = Some xs" "off + n \<le> length xs"
      and vs: "map (view (cells m)) (take n (drop off xs)) = map Some v"
      by (auto simp: sliceView_def those_Some split: option.splits if_splits)
    have len: "length v = n" using vs xs(2) by (metis length_map length_take length_drop min.absorb2 le_diff_conv2 add.commute add_leD1)
    have elems: "view (cells m) (xs ! (off + j)) = Some (v ! j)" if "j < length v" for j
      using arg_cong [OF vs, of "\<lambda>l. l ! j"] that len xs(2) by simp
    obtain b m1 where m1: "alloc (put_cell k (replicate n z)) m = (b, m1)" by fastforce
    note new = grows_alloc [OF wf m1]
    have "load k (cells m1) b = Some (replicate n z)"
      using conjunct2 [OF conjunct2 [OF conjunct2 [OF new]]] assms(1) by (simp add: load_def kindLaw_def)
    moreover have t: "t = Slice b 0 n" "m' = copyElements k f a off b n 0 m1"
      using run m1 by (simp_all add: Slice copySlice_def)
    ultimately obtain zs where grows: "grows m m'" and zs: "load k (cells m') b = Some zs" "length zs = length v"
      "\<forall>j<length v. view (above (Suc b) (cells m')) (zs ! j) = Some (v ! j)"
      using copyElements_copies [OF assms wf _ xs(1), of b off v 0 n m1 "replicate n z" m'] new len xs(2) elems by auto
    have "above (Suc b) (cells m') \<subseteq>\<^sub>m above b (cells m')" by (intro above_mono) auto
    then have "\<forall>j<length v. view (above b (cells m')) (zs ! j) = Some (v ! j)"
      using zs(3) copier.view_mono [OF assms(2)] by blast
    moreover have "load k (above b (cells m')) b = Some zs" using zs(1) by (simp add: load_def)
    ultimately show ?thesis
      using grows new zs(2) len by (auto simp: t sliceView_def those_Some list_eq_iff_nth_eq)
  qed
qed

lemma copier_pair:
  assumes "copier v f" and "copier w g"
  shows "copier (pairView v w) (pairCopy f g)"
proof
  fix c d :: "addr \<rightharpoonup> 'a" and p u
  assume "c \<subseteq>\<^sub>m d" and "pairView v w c p = Some u"
  then show "pairView v w d p = Some u"
    by (auto simp: pairView_def split: option.splits
        dest: copier.view_mono [OF assms(1)] copier.view_mono [OF assms(2)])
next
  fix m m' :: "'a mem" and p q u
  assume wf: "wfMem m" and u: "pairView v w (cells m) p = Some u" and run: "pairCopy f g p m = (q, m')"
  then obtain s t where view: "v (cells m) (fst p) = Some s" "w (cells m) (snd p) = Some t" and u: "u = (s, t)"
    by (auto simp: pairView_def split: option.splits)
  obtain x m1 where m1: "f (fst p) m = (x, m1)" by fastforce
  obtain y where y: "g (snd p) m1 = (y, m')" and q: "q = (x, y)"
    using run m1 by (auto simp: pairCopy_def split: prod.splits)
  have first: "grows m m1" "v (above (limit m) (cells m1)) x = Some s"
    using copier.copies [OF assms(1) wf view(1) m1] by blast+
  have "w (cells m1) (snd p) = Some t" using copier.view_mono [OF assms(2) grows_le] first(1) view(2) by blast
  then have second: "grows m1 m'" "w (above (limit m1) (cells m')) y = Some t"
    using copier.copies [OF assms(2) grows_wf _ y] first(1) by blast+
  have "above (limit m) (cells m1) \<subseteq>\<^sub>m above (limit m) (cells m')"
    "above (limit m1) (cells m') \<subseteq>\<^sub>m above (limit m) (cells m')"
    using first(1) second(1) by (auto intro!: above_mono simp: grows_def)
  then have "v (above (limit m) (cells m')) x = Some s" "w (above (limit m) (cells m')) y = Some t"
    using first(2) second(2) copier.view_mono [OF assms(1)] copier.view_mono [OF assms(2)] by blast+
  then show "grows m m' \<and> pairView v w (above (limit m) (cells m')) q = Some u"
    using grows_trans [OF first(1) second(1)] by (simp add: pairView_def q u)
qed

text \<open>A struct copies the part of it that has pointers.\<close>

lemma copier_struct:
  assumes "copier v f" and "\<And>c x. view c x = map_option (build x) (v c (part x))"
    and "\<And>x m. copy x m = (let (p, m') = f (part x) m in (put p x, m'))"
    and "\<And>p x. part (put p x) = p" and "\<And>p x. build (put p x) = build x"
  shows "copier view copy"
proof
  fix c d :: "addr \<rightharpoonup> 'a" and x u
  assume "c \<subseteq>\<^sub>m d" and "view c x = Some u"
  then show "view d x = Some u" using copier.view_mono [OF assms(1)] by (fastforce simp: assms(2))
next
  fix m m' :: "'a mem" and x y u
  assume wf: "wfMem m" and "view (cells m) x = Some u" and run: "copy x m = (y, m')"
  then obtain w where w: "v (cells m) (part x) = Some w" "u = build x w" by (auto simp: assms(2))
  obtain p where p: "f (part x) m = (p, m')" "y = put p x" using run by (auto simp: assms(3) split: prod.splits)
  show "grows m m' \<and> view (above (limit m) (cells m')) y = Some u"
    using copier.copies [OF assms(1) wf w(1) p(1)] by (simp add: assms(2,4,5) p(2) w(2))
qed

end
