(* ===== verification/DeepCopy.thy ===== *)
theory DeepCopy
  imports Memory Api
begin

text \<open>
  The deep copies of the API types (\<open>api/v1/zz_generated.deepcopy.go\<close>) over memory with pointers and
  slices: the structs as they lie in memory, and every \<open>DeepCopyInto\<close>, \<open>DeepCopy\<close> and \<open>DeepCopyObject\<close>. A
  struct is given by its fields, its pointers by addresses; \<open>in.DeepCopyInto(out)\<close> gives what it
  leaves in \<open>*out\<close>. Structs of the API machinery (\<open>ObjectMeta\<close>, \<open>ListMeta\<close>, \<open>Condition\<close>, \<open>Quantity\<close>) are values of
  a type \<open>'l\<close>, with their own deep copies as a parameter.
\<close>

section \<open>Structs in memory\<close>

record 'l memStorageVolume =
  mv_class :: string
  mv_size :: 'l

record 'l memStorage =
  ms_primary :: "'l memStorageVolume"
  ms_shadow :: "addr option"

record 'l memLocalBackup =
  ml_storage :: "'l memStorageVolume"

record memBackupDestination =
  md_local :: "addr option"

record memBackup =
  mb_enabled :: bool
  mb_destinations :: slice
  mb_image :: string
  mb_backupOnDelete :: "addr option"
  mb_compress :: bool
  mb_mode :: BackupModeSpec
  mb_retention :: RetentionSpec

record memDatabase =
  ma_name :: string
  ma_alias :: "addr option"
  ma_shadow :: bool
  ma_pageSize :: int32
  ma_charset :: string
  ma_collation :: string

record 'l memSpec =
  mp_image :: string
  mp_version :: string
  mp_databases :: slice
  mp_service :: ServiceSpec
  mp_storage :: "'l memStorage"
  mp_authentication :: AuthenticationSpec
  mp_backup :: memBackup

record memStatus =
  mt_conditions :: slice
  mt_databases :: slice
  mt_databaseCount :: int32
  mt_phase :: string
  mt_error :: string
  mt_message :: string
  mt_warning :: string
  mt_firebirdVersion :: string
  mt_upgrade :: "addr option"

text \<open>\<open>TypeMeta\<close> is kind and API version.\<close>

record 'l memInstance =
  mi_type :: "string \<times> string"
  mi_meta :: 'l
  mi_spec :: "'l memSpec"
  mi_status :: memStatus

record 'l memInstanceList =
  mn_type :: "string \<times> string"
  mn_meta :: 'l
  mn_items :: slice

text \<open>A cell holds a value of one of the types pointers and slices point to, or something of the API
  machinery's own. \<open>Zeroed\<close> is what \<open>new\<close> gives, before it is written.\<close>

datatype 'l cell =
    Zeroed
  | BoolCell bool
  | StringCell string
  | StringArray "string list"
  | DestinationArray "memBackupDestination list"
  | DatabaseArray "memDatabase list"
  | ConditionArray "'l list"
  | InstanceArray "'l memInstance list"
  | AuthenticationCell AuthenticationSpec
  | SysdbaAuthCell SysdbaAuthSpec
  | BackupModeCell BackupModeSpec
  | RetentionCell RetentionSpec
  | ServiceCell ServiceSpec
  | UpgradeCell UpgradeStatus
  | StorageVolumeCell "'l memStorageVolume"
  | StorageCell "'l memStorage"
  | LocalBackupCell "'l memLocalBackup"
  | BackupDestinationCell memBackupDestination
  | BackupCell memBackup
  | DatabaseCell memDatabase
  | SpecCell "'l memSpec"
  | StatusCell memStatus
  | InstanceCell "'l memInstance"
  | InstanceListCell "'l memInstanceList"
  | LibraryCell 'l

type_synonym 'l memory = "'l cell mem"

type_synonym ('l, 'x) copying = "'x \<Rightarrow> 'l memory \<Rightarrow> 'x \<times> 'l memory"

section \<open>How they are kept in cells\<close>

definition boolKind :: "('l cell, bool) kind" where
  "boolKind = \<lparr>put_cell = BoolCell, get_cell = (\<lambda>c. case c of BoolCell x \<Rightarrow> Some x | _ \<Rightarrow> None)\<rparr>"

definition stringKind :: "('l cell, string) kind" where
  "stringKind = \<lparr>put_cell = StringCell, get_cell = (\<lambda>c. case c of StringCell x \<Rightarrow> Some x | _ \<Rightarrow> None)\<rparr>"

definition stringsKind :: "('l cell, string list) kind" where
  "stringsKind = \<lparr>put_cell = StringArray, get_cell = (\<lambda>c. case c of StringArray x \<Rightarrow> Some x | _ \<Rightarrow> None)\<rparr>"

definition destinationsKind :: "('l cell, memBackupDestination list) kind" where
  "destinationsKind = \<lparr>put_cell = DestinationArray, get_cell = (\<lambda>c. case c of DestinationArray x \<Rightarrow> Some x | _ \<Rightarrow> None)\<rparr>"

definition databasesKind :: "('l cell, memDatabase list) kind" where
  "databasesKind = \<lparr>put_cell = DatabaseArray, get_cell = (\<lambda>c. case c of DatabaseArray x \<Rightarrow> Some x | _ \<Rightarrow> None)\<rparr>"

definition conditionsKind :: "('l cell, 'l list) kind" where
  "conditionsKind = \<lparr>put_cell = ConditionArray, get_cell = (\<lambda>c. case c of ConditionArray x \<Rightarrow> Some x | _ \<Rightarrow> None)\<rparr>"

definition instancesKind :: "('l cell, 'l memInstance list) kind" where
  "instancesKind = \<lparr>put_cell = InstanceArray, get_cell = (\<lambda>c. case c of InstanceArray x \<Rightarrow> Some x | _ \<Rightarrow> None)\<rparr>"

definition authenticationKind :: "('l cell, AuthenticationSpec) kind" where
  "authenticationKind = \<lparr>put_cell = AuthenticationCell, get_cell = (\<lambda>c. case c of AuthenticationCell x \<Rightarrow> Some x | _ \<Rightarrow> None)\<rparr>"

definition sysdbaAuthKind :: "('l cell, SysdbaAuthSpec) kind" where
  "sysdbaAuthKind = \<lparr>put_cell = SysdbaAuthCell, get_cell = (\<lambda>c. case c of SysdbaAuthCell x \<Rightarrow> Some x | _ \<Rightarrow> None)\<rparr>"

definition backupModeKind :: "('l cell, BackupModeSpec) kind" where
  "backupModeKind = \<lparr>put_cell = BackupModeCell, get_cell = (\<lambda>c. case c of BackupModeCell x \<Rightarrow> Some x | _ \<Rightarrow> None)\<rparr>"

definition retentionKind :: "('l cell, RetentionSpec) kind" where
  "retentionKind = \<lparr>put_cell = RetentionCell, get_cell = (\<lambda>c. case c of RetentionCell x \<Rightarrow> Some x | _ \<Rightarrow> None)\<rparr>"

definition serviceKind :: "('l cell, ServiceSpec) kind" where
  "serviceKind = \<lparr>put_cell = ServiceCell, get_cell = (\<lambda>c. case c of ServiceCell x \<Rightarrow> Some x | _ \<Rightarrow> None)\<rparr>"

definition upgradeKind :: "('l cell, UpgradeStatus) kind" where
  "upgradeKind = \<lparr>put_cell = UpgradeCell, get_cell = (\<lambda>c. case c of UpgradeCell x \<Rightarrow> Some x | _ \<Rightarrow> None)\<rparr>"

definition storageVolumeKind :: "('l cell, 'l memStorageVolume) kind" where
  "storageVolumeKind = \<lparr>put_cell = StorageVolumeCell, get_cell = (\<lambda>c. case c of StorageVolumeCell x \<Rightarrow> Some x | _ \<Rightarrow> None)\<rparr>"

definition storageKind :: "('l cell, 'l memStorage) kind" where
  "storageKind = \<lparr>put_cell = StorageCell, get_cell = (\<lambda>c. case c of StorageCell x \<Rightarrow> Some x | _ \<Rightarrow> None)\<rparr>"

definition localBackupKind :: "('l cell, 'l memLocalBackup) kind" where
  "localBackupKind = \<lparr>put_cell = LocalBackupCell, get_cell = (\<lambda>c. case c of LocalBackupCell x \<Rightarrow> Some x | _ \<Rightarrow> None)\<rparr>"

definition backupDestinationKind :: "('l cell, memBackupDestination) kind" where
  "backupDestinationKind = \<lparr>put_cell = BackupDestinationCell, get_cell = (\<lambda>c. case c of BackupDestinationCell x \<Rightarrow> Some x | _ \<Rightarrow> None)\<rparr>"

definition backupKind :: "('l cell, memBackup) kind" where
  "backupKind = \<lparr>put_cell = BackupCell, get_cell = (\<lambda>c. case c of BackupCell x \<Rightarrow> Some x | _ \<Rightarrow> None)\<rparr>"

definition databaseKind :: "('l cell, memDatabase) kind" where
  "databaseKind = \<lparr>put_cell = DatabaseCell, get_cell = (\<lambda>c. case c of DatabaseCell x \<Rightarrow> Some x | _ \<Rightarrow> None)\<rparr>"

definition specKind :: "('l cell, 'l memSpec) kind" where
  "specKind = \<lparr>put_cell = SpecCell, get_cell = (\<lambda>c. case c of SpecCell x \<Rightarrow> Some x | _ \<Rightarrow> None)\<rparr>"

definition statusKind :: "('l cell, memStatus) kind" where
  "statusKind = \<lparr>put_cell = StatusCell, get_cell = (\<lambda>c. case c of StatusCell x \<Rightarrow> Some x | _ \<Rightarrow> None)\<rparr>"

definition instanceKind :: "('l cell, 'l memInstance) kind" where
  "instanceKind = \<lparr>put_cell = InstanceCell, get_cell = (\<lambda>c. case c of InstanceCell x \<Rightarrow> Some x | _ \<Rightarrow> None)\<rparr>"

definition instanceListKind :: "('l cell, 'l memInstanceList) kind" where
  "instanceListKind = \<lparr>put_cell = InstanceListCell, get_cell = (\<lambda>c. case c of InstanceListCell x \<Rightarrow> Some x | _ \<Rightarrow> None)\<rparr>"

lemma kind_laws [simp]:
  "kindLaw boolKind"
  "kindLaw stringKind"
  "kindLaw stringsKind"
  "kindLaw destinationsKind"
  "kindLaw databasesKind"
  "kindLaw conditionsKind"
  "kindLaw instancesKind"
  "kindLaw authenticationKind"
  "kindLaw sysdbaAuthKind"
  "kindLaw backupModeKind"
  "kindLaw retentionKind"
  "kindLaw serviceKind"
  "kindLaw upgradeKind"
  "kindLaw storageVolumeKind"
  "kindLaw storageKind"
  "kindLaw localBackupKind"
  "kindLaw backupDestinationKind"
  "kindLaw backupKind"
  "kindLaw databaseKind"
  "kindLaw specKind"
  "kindLaw statusKind"
  "kindLaw instanceKind"
  "kindLaw instanceListKind"
  by (simp_all add: kindLaw_def
    boolKind_def stringKind_def stringsKind_def destinationsKind_def databasesKind_def conditionsKind_def instancesKind_def authenticationKind_def sysdbaAuthKind_def backupModeKind_def retentionKind_def serviceKind_def upgradeKind_def storageVolumeKind_def storageKind_def localBackupKind_def backupDestinationKind_def backupKind_def databaseKind_def specKind_def statusKind_def instanceKind_def instanceListKind_def)

section \<open>The API machinery\<close>

text \<open>The deep copies of its structs, what these stand for, and the zero value. Of \<open>ObjectMeta\<close> the view is what
  theory Api keeps of it.\<close>

record metaView =
  me_name :: string
  me_namespace :: string
  me_generation :: int
  me_deleting :: bool
  me_finalizers :: "string list"

record 'l library =
  quantity_DeepCopy :: "('l, 'l) copying"
  meta_DeepCopyInto :: "('l, 'l) copying"
  condition_DeepCopyInto :: "('l, 'l) copying"
  listMeta_DeepCopyInto :: "('l, 'l) copying"
  quantityView :: "(addr \<rightharpoonup> 'l cell) \<Rightarrow> 'l \<Rightarrow> string option"
  metaView :: "(addr \<rightharpoonup> 'l cell) \<Rightarrow> 'l \<Rightarrow> metaView option"
  conditionView :: "(addr \<rightharpoonup> 'l cell) \<Rightarrow> 'l \<Rightarrow> Condition option"
  listMetaView :: "(addr \<rightharpoonup> 'l cell) \<Rightarrow> 'l \<Rightarrow> string option"
  zeroStruct :: 'l

section \<open>The copies\<close>

definition AuthenticationSpec_DeepCopyInto :: "('l, AuthenticationSpec) copying" where
  "AuthenticationSpec_DeepCopyInto x m = (x\<lparr>au_sysdba := au_sysdba x\<rparr>, m)"

definition AuthenticationSpec_DeepCopy :: "('l, addr option) copying" where
  "AuthenticationSpec_DeepCopy = copyPointer Zeroed authenticationKind AuthenticationSpec_DeepCopyInto"

definition BackupModeSpec_DeepCopyInto :: "('l, BackupModeSpec) copying" where
  "BackupModeSpec_DeepCopyInto = plainCopy"

definition BackupModeSpec_DeepCopy :: "('l, addr option) copying" where
  "BackupModeSpec_DeepCopy = copyPointer Zeroed backupModeKind BackupModeSpec_DeepCopyInto"

definition RetentionSpec_DeepCopyInto :: "('l, RetentionSpec) copying" where
  "RetentionSpec_DeepCopyInto = plainCopy"

definition RetentionSpec_DeepCopy :: "('l, addr option) copying" where
  "RetentionSpec_DeepCopy = copyPointer Zeroed retentionKind RetentionSpec_DeepCopyInto"

definition ServiceSpec_DeepCopyInto :: "('l, ServiceSpec) copying" where
  "ServiceSpec_DeepCopyInto = plainCopy"

definition ServiceSpec_DeepCopy :: "('l, addr option) copying" where
  "ServiceSpec_DeepCopy = copyPointer Zeroed serviceKind ServiceSpec_DeepCopyInto"

definition SysdbaAuthSpec_DeepCopyInto :: "('l, SysdbaAuthSpec) copying" where
  "SysdbaAuthSpec_DeepCopyInto = plainCopy"

definition SysdbaAuthSpec_DeepCopy :: "('l, addr option) copying" where
  "SysdbaAuthSpec_DeepCopy = copyPointer Zeroed sysdbaAuthKind SysdbaAuthSpec_DeepCopyInto"

definition UpgradeStatus_DeepCopyInto :: "('l, UpgradeStatus) copying" where
  "UpgradeStatus_DeepCopyInto = plainCopy"

definition UpgradeStatus_DeepCopy :: "('l, addr option) copying" where
  "UpgradeStatus_DeepCopy = copyPointer Zeroed upgradeKind UpgradeStatus_DeepCopyInto"

definition StorageVolumeSpec_DeepCopyInto :: "'l library \<Rightarrow> ('l, 'l memStorageVolume) copying" where
  "StorageVolumeSpec_DeepCopyInto L x m =
     (let (sz, m) = quantity_DeepCopy L (mv_size x) m in (x\<lparr>mv_size := sz\<rparr>, m))"

definition StorageVolumeSpec_DeepCopy :: "'l library \<Rightarrow> ('l, addr option) copying" where
  "StorageVolumeSpec_DeepCopy L = copyPointer Zeroed storageVolumeKind (StorageVolumeSpec_DeepCopyInto L)"

definition StorageSpec_DeepCopyInto :: "'l library \<Rightarrow> ('l, 'l memStorage) copying" where
  "StorageSpec_DeepCopyInto L x m =
     (let (primary, m) = StorageVolumeSpec_DeepCopyInto L (ms_primary x) m;
          (shadow, m) = copyPointer Zeroed storageVolumeKind (StorageVolumeSpec_DeepCopyInto L) (ms_shadow x) m
      in (x\<lparr>ms_primary := primary, ms_shadow := shadow\<rparr>, m))"

definition StorageSpec_DeepCopy :: "'l library \<Rightarrow> ('l, addr option) copying" where
  "StorageSpec_DeepCopy L = copyPointer Zeroed storageKind (StorageSpec_DeepCopyInto L)"

definition LocalBackupSpec_DeepCopyInto :: "'l library \<Rightarrow> ('l, 'l memLocalBackup) copying" where
  "LocalBackupSpec_DeepCopyInto L x m =
     (let (storage, m) = StorageVolumeSpec_DeepCopyInto L (ml_storage x) m in (x\<lparr>ml_storage := storage\<rparr>, m))"

definition LocalBackupSpec_DeepCopy :: "'l library \<Rightarrow> ('l, addr option) copying" where
  "LocalBackupSpec_DeepCopy L = copyPointer Zeroed localBackupKind (LocalBackupSpec_DeepCopyInto L)"

definition BackupDestinationSpec_DeepCopyInto :: "'l library \<Rightarrow> ('l, memBackupDestination) copying" where
  "BackupDestinationSpec_DeepCopyInto L x m =
     (let (local, m) = copyPointer Zeroed localBackupKind (LocalBackupSpec_DeepCopyInto L) (md_local x) m
      in (x\<lparr>md_local := local\<rparr>, m))"

definition BackupDestinationSpec_DeepCopy :: "'l library \<Rightarrow> ('l, addr option) copying" where
  "BackupDestinationSpec_DeepCopy L =
     copyPointer Zeroed backupDestinationKind (BackupDestinationSpec_DeepCopyInto L)"

definition zeroDestination :: memBackupDestination where
  "zeroDestination = \<lparr>md_local = None\<rparr>"

definition BackupSpec_DeepCopyInto :: "'l library \<Rightarrow> ('l, memBackup) copying" where
  "BackupSpec_DeepCopyInto L x m =
     (let (destinations, m) = copySlice destinationsKind zeroDestination
            (BackupDestinationSpec_DeepCopyInto L) (mb_destinations x) m;
          (backupOnDelete, m) = copyPointer Zeroed boolKind plainCopy (mb_backupOnDelete x) m
      in (x\<lparr>mb_destinations := destinations, mb_backupOnDelete := backupOnDelete, mb_mode := mb_mode x,
            mb_retention := mb_retention x\<rparr>, m))"

definition BackupSpec_DeepCopy :: "'l library \<Rightarrow> ('l, addr option) copying" where
  "BackupSpec_DeepCopy L = copyPointer Zeroed backupKind (BackupSpec_DeepCopyInto L)"

definition DatabaseSpec_DeepCopyInto :: "('l, memDatabase) copying" where
  "DatabaseSpec_DeepCopyInto x m =
     (let (alias, m) = copyPointer Zeroed stringKind plainCopy (ma_alias x) m in (x\<lparr>ma_alias := alias\<rparr>, m))"

definition DatabaseSpec_DeepCopy :: "('l, addr option) copying" where
  "DatabaseSpec_DeepCopy = copyPointer Zeroed databaseKind DatabaseSpec_DeepCopyInto"

definition zeroDatabase :: memDatabase where
  "zeroDatabase = \<lparr>ma_name = [], ma_alias = None, ma_shadow = False, ma_pageSize = 0, ma_charset = [], ma_collation = []\<rparr>"

definition InstanceSpec_DeepCopyInto :: "'l library \<Rightarrow> ('l, 'l memSpec) copying" where
  "InstanceSpec_DeepCopyInto L x m =
     (let (databases, m) = copySlice databasesKind zeroDatabase DatabaseSpec_DeepCopyInto (mp_databases x) m;
          (storage, m) = StorageSpec_DeepCopyInto L (mp_storage x) m;
          (backup, m) = BackupSpec_DeepCopyInto L (mp_backup x) m
      in (x\<lparr>mp_databases := databases, mp_service := mp_service x, mp_storage := storage,
            mp_authentication := mp_authentication x, mp_backup := backup\<rparr>, m))"

definition InstanceSpec_DeepCopy :: "'l library \<Rightarrow> ('l, addr option) copying" where
  "InstanceSpec_DeepCopy L = copyPointer Zeroed specKind (InstanceSpec_DeepCopyInto L)"

definition InstanceStatus_DeepCopyInto :: "'l library \<Rightarrow> ('l, memStatus) copying" where
  "InstanceStatus_DeepCopyInto L x m =
     (let (conditions, m) = copySlice conditionsKind (zeroStruct L) (condition_DeepCopyInto L) (mt_conditions x) m;
          (databases, m) = copySlice stringsKind [] plainCopy (mt_databases x) m;
          (upgrade, m) = copyPointer Zeroed upgradeKind plainCopy (mt_upgrade x) m
      in (x\<lparr>mt_conditions := conditions, mt_databases := databases, mt_upgrade := upgrade\<rparr>, m))"

definition InstanceStatus_DeepCopy :: "'l library \<Rightarrow> ('l, addr option) copying" where
  "InstanceStatus_DeepCopy L = copyPointer Zeroed statusKind (InstanceStatus_DeepCopyInto L)"

definition Instance_DeepCopyInto :: "'l library \<Rightarrow> ('l, 'l memInstance) copying" where
  "Instance_DeepCopyInto L x m =
     (let (meta, m) = meta_DeepCopyInto L (mi_meta x) m;
          (spec, m) = InstanceSpec_DeepCopyInto L (mi_spec x) m;
          (status, m) = InstanceStatus_DeepCopyInto L (mi_status x) m
      in (x\<lparr>mi_type := mi_type x, mi_meta := meta, mi_spec := spec, mi_status := status\<rparr>, m))"

definition Instance_DeepCopy :: "'l library \<Rightarrow> ('l, addr option) copying" where
  "Instance_DeepCopy L = copyPointer Zeroed instanceKind (Instance_DeepCopyInto L)"

text \<open>A \<open>runtime.Object\<close>: nil, or a pointer with its type. \<open>DeepCopyObject\<close> returns a plain nil, not a nil pointer
  in an interface.\<close>

datatype object = NilObject | InstanceObject "addr option" | InstanceListObject "addr option"

definition Instance_DeepCopyObject :: "'l library \<Rightarrow> addr option \<Rightarrow> 'l memory \<Rightarrow> object \<times> 'l memory" where
  "Instance_DeepCopyObject L p m =
     (let (c, m) = Instance_DeepCopy L p m in (if c \<noteq> None then InstanceObject c else NilObject, m))"

definition zeroStorageVolume :: "'l library \<Rightarrow> 'l memStorageVolume" where
  "zeroStorageVolume L = \<lparr>mv_class = [], mv_size = zeroStruct L\<rparr>"

definition zeroInstance :: "'l library \<Rightarrow> 'l memInstance" where
  "zeroInstance L =
     \<lparr>mi_type = ([], []), mi_meta = zeroStruct L,
      mi_spec = \<lparr>mp_image = [], mp_version = [], mp_databases = NilSlice, mp_service = \<lparr>ss_type = [], ss_port = 0\<rparr>,
        mp_storage = \<lparr>ms_primary = zeroStorageVolume L, ms_shadow = None\<rparr>,
        mp_authentication = \<lparr>au_sysdba = \<lparr>sy_secretRef = []\<rparr>\<rparr>,
        mp_backup = \<lparr>mb_enabled = False, mb_destinations = NilSlice, mb_image = [], mb_backupOnDelete = None,
          mb_compress = False, mb_mode = \<lparr>mo_type = [], mo_incremental = False\<rparr>,
          mb_retention = \<lparr>rt_hour = [], rt_day = [], rt_week = [], rt_month = [], rt_year = []\<rparr>\<rparr>\<rparr>,
      mi_status = \<lparr>mt_conditions = NilSlice, mt_databases = NilSlice, mt_databaseCount = 0, mt_phase = [],
        mt_error = [], mt_message = [], mt_warning = [], mt_firebirdVersion = [], mt_upgrade = None\<rparr>\<rparr>"

definition InstanceList_DeepCopyInto :: "'l library \<Rightarrow> ('l, 'l memInstanceList) copying" where
  "InstanceList_DeepCopyInto L x m =
     (let (meta, m) = listMeta_DeepCopyInto L (mn_meta x) m;
          (items, m) = copySlice instancesKind (zeroInstance L) (Instance_DeepCopyInto L) (mn_items x) m
      in (x\<lparr>mn_type := mn_type x, mn_meta := meta, mn_items := items\<rparr>, m))"

definition InstanceList_DeepCopy :: "'l library \<Rightarrow> ('l, addr option) copying" where
  "InstanceList_DeepCopy L = copyPointer Zeroed instanceListKind (InstanceList_DeepCopyInto L)"

definition InstanceList_DeepCopyObject :: "'l library \<Rightarrow> addr option \<Rightarrow> 'l memory \<Rightarrow> object \<times> 'l memory" where
  "InstanceList_DeepCopyObject L p m =
     (let (c, m) = InstanceList_DeepCopy L p m in (if c \<noteq> None then InstanceListObject c else NilObject, m))"

end
