(* ===== verification/Copies.thy ===== *)
theory Copies
  imports DeepCopy
begin

text \<open>
  What the deep copies promise: the copy stands for the same value as the original, and shares no memory
  with it. The values the structs stand for are the records of theory Api.
\<close>

section \<open>What the structs stand for\<close>

text \<open>A struct, with what its pointers and slices lead to, as the record of theory Api.\<close>

fun storageVolumeValue :: "'l memStorageVolume \<Rightarrow> string \<Rightarrow> StorageVolumeSpec" where
  "storageVolumeValue x sz =
     \<lparr>vol_class = mv_class x, vol_size = sz\<rparr>"

definition storageVolumeView :: "'l library \<Rightarrow> (addr \<rightharpoonup> 'l cell) \<Rightarrow> 'l memStorageVolume
    \<Rightarrow> StorageVolumeSpec option" where
  "storageVolumeView L c x =
     map_option (storageVolumeValue x)
       (quantityView L c
         (mv_size x))"

fun storageValue :: "'l memStorage \<Rightarrow> StorageVolumeSpec \<times> StorageVolumeSpec option \<Rightarrow> StorageSpec" where
  "storageValue x (primary, shadow) =
     \<lparr>sg_primary = primary, sg_shadow = shadow\<rparr>"

definition storageView :: "'l library \<Rightarrow> (addr \<rightharpoonup> 'l cell) \<Rightarrow> 'l memStorage
    \<Rightarrow> StorageSpec option" where
  "storageView L c x =
     map_option (storageValue x)
       (pairView (storageVolumeView L) (pointerView storageVolumeKind (storageVolumeView L)) c
         (ms_primary x, ms_shadow x))"

fun localBackupValue :: "'l memLocalBackup \<Rightarrow> StorageVolumeSpec \<Rightarrow> LocalBackupSpec" where
  "localBackupValue x storage =
     \<lparr>lb_storage = storage\<rparr>"

definition localBackupView :: "'l library \<Rightarrow> (addr \<rightharpoonup> 'l cell) \<Rightarrow> 'l memLocalBackup
    \<Rightarrow> LocalBackupSpec option" where
  "localBackupView L c x =
     map_option (localBackupValue x)
       (storageVolumeView L c
         (ml_storage x))"

fun backupDestinationValue :: "memBackupDestination \<Rightarrow> LocalBackupSpec option \<Rightarrow> BackupDestinationSpec" where
  "backupDestinationValue x local =
     \<lparr>bd_local = local\<rparr>"

definition backupDestinationView :: "'l library \<Rightarrow> (addr \<rightharpoonup> 'l cell) \<Rightarrow> memBackupDestination
    \<Rightarrow> BackupDestinationSpec option" where
  "backupDestinationView L c x =
     map_option (backupDestinationValue x)
       (pointerView localBackupKind (localBackupView L) c
         (md_local x))"

fun backupValue :: "memBackup \<Rightarrow> BackupDestinationSpec list \<times> bool option \<Rightarrow> BackupSpec" where
  "backupValue x (destinations, onDelete) =
     \<lparr>bk_enabled = mb_enabled x, bk_destinations = destinations, bk_image = mb_image x,
      bk_backupOnDelete = onDelete, bk_compress = mb_compress x, bk_mode = mb_mode x, bk_retention = mb_retention x\<rparr>"

definition backupView :: "'l library \<Rightarrow> (addr \<rightharpoonup> 'l cell) \<Rightarrow> memBackup
    \<Rightarrow> BackupSpec option" where
  "backupView L c x =
     map_option (backupValue x)
       (pairView (sliceView destinationsKind (backupDestinationView L)) (pointerView boolKind plainView) c
         (mb_destinations x, mb_backupOnDelete x))"

fun databaseValue :: "memDatabase \<Rightarrow> string option \<Rightarrow> DatabaseSpec" where
  "databaseValue x alias =
     \<lparr>db_name = ma_name x, db_alias = alias, db_shadow = ma_shadow x, db_pageSize = ma_pageSize x,
      db_charset = ma_charset x, db_collation = ma_collation x\<rparr>"

definition databaseView :: "(addr \<rightharpoonup> 'l cell) \<Rightarrow> memDatabase
    \<Rightarrow> DatabaseSpec option" where
  "databaseView c x =
     map_option (databaseValue x)
       (pointerView stringKind plainView c
         (ma_alias x))"

fun specValue :: "'l memSpec \<Rightarrow> DatabaseSpec list \<times> StorageSpec \<times> BackupSpec \<Rightarrow> InstanceSpec" where
  "specValue x (databases, storage, backup) =
     \<lparr>sp_image = mp_image x, sp_version = mp_version x, sp_databases = databases, sp_service = mp_service x,
      sp_storage = storage, sp_authentication = mp_authentication x, sp_backup = backup\<rparr>"

definition specView :: "'l library \<Rightarrow> (addr \<rightharpoonup> 'l cell) \<Rightarrow> 'l memSpec
    \<Rightarrow> InstanceSpec option" where
  "specView L c x =
     map_option (specValue x)
       (pairView (sliceView databasesKind databaseView) (pairView (storageView L) (backupView L)) c
         (mp_databases x, mp_storage x, mp_backup x))"

fun statusValue :: "memStatus \<Rightarrow> Condition list \<times> string list \<times> UpgradeStatus option \<Rightarrow> InstanceStatus" where
  "statusValue x (conditions, databases, upgrade) =
     \<lparr>st_conditions = conditions, st_databases = databases, st_databaseCount = mt_databaseCount x,
      st_phase = mt_phase x, st_error = mt_error x, st_message = mt_message x, st_warning = mt_warning x,
      st_firebirdVersion = mt_firebirdVersion x, st_upgrade = upgrade\<rparr>"

definition statusView :: "'l library \<Rightarrow> (addr \<rightharpoonup> 'l cell) \<Rightarrow> memStatus
    \<Rightarrow> InstanceStatus option" where
  "statusView L c x =
     map_option (statusValue x)
       (pairView (sliceView conditionsKind (conditionView L))
       (pairView (sliceView stringsKind plainView) (pointerView upgradeKind plainView)) c
         (mt_conditions x, mt_databases x, mt_upgrade x))"

fun instanceValue :: "'l memInstance \<Rightarrow> metaView \<times> InstanceSpec \<times> InstanceStatus \<Rightarrow> (string \<times> string) \<times> Instance" where
  "instanceValue x (meta, spec, status) =
     (mi_type x, \<lparr>in_name = me_name meta, in_namespace = me_namespace meta, in_generation = me_generation meta,
      in_deleting = me_deleting meta, in_finalizers = me_finalizers meta, in_spec = spec, in_status = status\<rparr>)"

definition instanceView :: "'l library \<Rightarrow> (addr \<rightharpoonup> 'l cell) \<Rightarrow> 'l memInstance
    \<Rightarrow> ((string \<times> string) \<times> Instance) option" where
  "instanceView L c x =
     map_option (instanceValue x)
       (pairView (metaView L) (pairView (specView L) (statusView L)) c
         (mi_meta x, mi_spec x, mi_status x))"

fun instanceListValue :: "'l memInstanceList \<Rightarrow> string \<times> ((string \<times> string) \<times> Instance) list \<Rightarrow> (string \<times> string) \<times> string \<times> ((string \<times> string) \<times> Instance) list" where
  "instanceListValue x p =
     (mn_type x, p)"

definition instanceListView :: "'l library \<Rightarrow> (addr \<rightharpoonup> 'l cell) \<Rightarrow> 'l memInstanceList
    \<Rightarrow> ((string \<times> string) \<times> string \<times> ((string \<times> string) \<times> Instance) list) option" where
  "instanceListView L c x =
     map_option (instanceListValue x)
       (pairView (listMetaView L) (sliceView instancesKind (instanceView L)) c
         (mn_meta x, mn_items x))"

section \<open>Every deep copy meets the contract\<close>

text \<open>What the deep copies of the API machinery are documented to do.\<close>

definition libraryLaw :: "'l library \<Rightarrow> bool" where
  "libraryLaw L =
     (copier (quantityView L) (quantity_DeepCopy L) \<and> copier (metaView L) (meta_DeepCopyInto L)
      \<and> copier (conditionView L) (condition_DeepCopyInto L) \<and> copier (listMetaView L) (listMeta_DeepCopyInto L))"

named_theorems copiers \<open>introduction rules for the contract\<close>

lemma library_copiers [copiers]:
  assumes "libraryLaw L"
  shows "copier (quantityView L) (quantity_DeepCopy L)" "copier (metaView L) (meta_DeepCopyInto L)"
    "copier (conditionView L) (condition_DeepCopyInto L)" "copier (listMetaView L) (listMeta_DeepCopyInto L)"
  using assms by (simp_all add: libraryLaw_def)

lemmas copier_parts [copiers] = copier_pair copier_pointer copier_slice kind_laws plain.copier_axioms

lemmas run_defs = Let_def case_prod_unfold pairCopy_def

lemma copier_storageVolume [copiers]: "libraryLaw L \<Longrightarrow> copier (storageVolumeView L) (StorageVolumeSpec_DeepCopyInto L)"
  by (rule copier_struct [where build = storageVolumeValue and part = "\<lambda>x. mv_size x"
        and put = "\<lambda>p x. x\<lparr>mv_size := p\<rparr>"])
    (auto simp: storageVolumeView_def StorageVolumeSpec_DeepCopyInto_def run_defs fun_eq_iff intro!: copiers)

lemma copier_storage [copiers]: "libraryLaw L \<Longrightarrow> copier (storageView L) (StorageSpec_DeepCopyInto L)"
  by (rule copier_struct [where build = storageValue and part = "\<lambda>x. (ms_primary x, ms_shadow x)"
        and put = "\<lambda>p x. x\<lparr>ms_primary := fst p, ms_shadow := snd p\<rparr>"])
    (auto simp: storageView_def StorageSpec_DeepCopyInto_def run_defs fun_eq_iff intro!: copiers)

lemma copier_localBackup [copiers]: "libraryLaw L \<Longrightarrow> copier (localBackupView L) (LocalBackupSpec_DeepCopyInto L)"
  by (rule copier_struct [where build = localBackupValue and part = "\<lambda>x. ml_storage x"
        and put = "\<lambda>p x. x\<lparr>ml_storage := p\<rparr>"])
    (auto simp: localBackupView_def LocalBackupSpec_DeepCopyInto_def run_defs fun_eq_iff intro!: copiers)

lemma copier_backupDestination [copiers]: "libraryLaw L \<Longrightarrow> copier (backupDestinationView L) (BackupDestinationSpec_DeepCopyInto L)"
  by (rule copier_struct [where build = backupDestinationValue and part = "\<lambda>x. md_local x"
        and put = "\<lambda>p x. x\<lparr>md_local := p\<rparr>"])
    (auto simp: backupDestinationView_def BackupDestinationSpec_DeepCopyInto_def run_defs fun_eq_iff intro!: copiers)

lemma copier_backup [copiers]: "libraryLaw L \<Longrightarrow> copier (backupView L) (BackupSpec_DeepCopyInto L)"
  by (rule copier_struct [where build = backupValue and part = "\<lambda>x. (mb_destinations x, mb_backupOnDelete x)"
        and put = "\<lambda>p x. x\<lparr>mb_destinations := fst p, mb_backupOnDelete := snd p\<rparr>"])
    (auto simp: backupView_def BackupSpec_DeepCopyInto_def run_defs fun_eq_iff intro!: copiers)

interpretation database: copier databaseView DatabaseSpec_DeepCopyInto
  by (rule copier_struct [where build = databaseValue and part = "\<lambda>x. ma_alias x"
        and put = "\<lambda>p x. x\<lparr>ma_alias := p\<rparr>"])
    (auto simp: databaseView_def DatabaseSpec_DeepCopyInto_def run_defs fun_eq_iff intro!: copiers)

lemmas database_copier [copiers] = database.copier_axioms

lemma copier_spec [copiers]: "libraryLaw L \<Longrightarrow> copier (specView L) (InstanceSpec_DeepCopyInto L)"
  by (rule copier_struct [where build = specValue and part = "\<lambda>x. (mp_databases x, mp_storage x, mp_backup x)"
        and put = "\<lambda>p x. x\<lparr>mp_databases := fst p, mp_storage := fst (snd p), mp_backup := snd (snd p)\<rparr>"])
    (auto simp: specView_def InstanceSpec_DeepCopyInto_def run_defs fun_eq_iff intro!: copiers)

lemma copier_status [copiers]: "libraryLaw L \<Longrightarrow> copier (statusView L) (InstanceStatus_DeepCopyInto L)"
  by (rule copier_struct [where build = statusValue and part = "\<lambda>x. (mt_conditions x, mt_databases x, mt_upgrade x)"
        and put = "\<lambda>p x. x\<lparr>mt_conditions := fst p, mt_databases := fst (snd p), mt_upgrade := snd (snd p)\<rparr>"])
    (auto simp: statusView_def InstanceStatus_DeepCopyInto_def run_defs fun_eq_iff intro!: copiers)

lemma copier_instance [copiers]: "libraryLaw L \<Longrightarrow> copier (instanceView L) (Instance_DeepCopyInto L)"
  by (rule copier_struct [where build = instanceValue and part = "\<lambda>x. (mi_meta x, mi_spec x, mi_status x)"
        and put = "\<lambda>p x. x\<lparr>mi_meta := fst p, mi_spec := fst (snd p), mi_status := snd (snd p)\<rparr>"
        and f = "pairCopy (meta_DeepCopyInto L) (pairCopy (InstanceSpec_DeepCopyInto L) (InstanceStatus_DeepCopyInto L))"])
    (auto simp: instanceView_def Instance_DeepCopyInto_def run_defs fun_eq_iff intro!: copiers)

lemma copier_instanceList [copiers]: "libraryLaw L \<Longrightarrow> copier (instanceListView L) (InstanceList_DeepCopyInto L)"
  by (rule copier_struct [where build = instanceListValue and part = "\<lambda>x. (mn_meta x, mn_items x)"
        and put = "\<lambda>p x. x\<lparr>mn_meta := fst p, mn_items := snd p\<rparr>"
        and f = "pairCopy (listMeta_DeepCopyInto L) (copySlice instancesKind (zeroInstance L) (Instance_DeepCopyInto L))"])
    (auto simp: instanceListView_def InstanceList_DeepCopyInto_def run_defs fun_eq_iff intro!: copiers)

section \<open>Copies share nothing with the original\<close>

text \<open>A pointer \<open>p\<close> before a copy that leaves memory \<open>m'\<close>, and the pointer \<open>q\<close> it gives: the old cells are as they
  were; however they are then changed, the copy still stands for \<open>v\<close>; however the new ones are, so does
  the original.\<close>

definition apartCopy :: "((addr \<rightharpoonup> 'c) \<Rightarrow> addr option \<Rightarrow> 'v option) \<Rightarrow> 'c mem \<Rightarrow> addr option \<Rightarrow> 'c mem \<Rightarrow> addr option \<Rightarrow> 'v \<Rightarrow> bool" where
  "apartCopy view m p m' q v =
     ((q = None \<longleftrightarrow> p = None) \<and> cells m \<subseteq>\<^sub>m cells m'
      \<and> (\<forall>c. (\<forall>a\<ge>limit m. c a = cells m' a) \<longrightarrow> view c q = Some v)
      \<and> (\<forall>c. (\<forall>a<limit m. c a = cells m a) \<longrightarrow> view c p = Some v))"

lemma copier_apart:
  assumes "copier view f" and "kindLaw k" and "wfMem m"
    and "pointerView k view (cells m) p = Some v" and "copyPointer w k f p m = (q, m')"
  shows "apartCopy (pointerView k view) m p m' q v"
proof -
  have pointer: "copier (pointerView k view) (copyPointer w k f)" by (rule copier_pointer [OF assms(2,1)])
  have "q = None \<longleftrightarrow> p = None"
    using assms(5) by (auto simp: copyPointer_def run_defs split: option.splits)
  moreover have "cells m \<subseteq>\<^sub>m cells m'"
    using copier.copies [OF pointer assms(3-5)] by (simp add: grows_le)
  ultimately show ?thesis
    unfolding apartCopy_def
    using copier.copy_reads_the_same [OF pointer assms(3-5)]
      copier.original_reads_the_same [OF pointer assms(3,4)] by blast
qed

text \<open>C26: DeepCopyObject of an Instance or an InstanceList: nil gives a nil object. Otherwise memory as it was
  is kept, and the copy is a new pointer that stands for the same resource, down to every pointer and
  slice, and shares no memory with the original: whatever is later written to any cell of before, the
  copy reads the same, and whatever is written to the new cells, the original does. It needs of the API
  machinery only that its own deep copies do so.\<close>

theorem deep_copies_are_apart:
  assumes "libraryLaw L" and "wfMem m"
  shows "(pointerView instanceKind (instanceView L) (cells m) p = Some v \<and> Instance_DeepCopyObject L p m = (out, m')
      \<longrightarrow> (\<exists>q. out = (if p = None then NilObject else InstanceObject q)
            \<and> apartCopy (pointerView instanceKind (instanceView L)) m p m' q v))
    \<and> (pointerView instanceListKind (instanceListView L) (cells m) p = Some vs
        \<and> InstanceList_DeepCopyObject L p m = (out, m')
      \<longrightarrow> (\<exists>q. out = (if p = None then NilObject else InstanceListObject q)
            \<and> apartCopy (pointerView instanceListKind (instanceListView L)) m p m' q vs))"
proof -
  have one: "\<exists>q. out = (if p = None then NilObject else InstanceObject q)
      \<and> apartCopy (pointerView instanceKind (instanceView L)) m p m' q v"
    if v: "pointerView instanceKind (instanceView L) (cells m) p = Some v"
      and run: "Instance_DeepCopyObject L p m = (out, m')"
  proof -
    obtain q where "copyPointer Zeroed instanceKind (Instance_DeepCopyInto L) p m = (q, m')"
      and out: "out = (if q \<noteq> None then InstanceObject q else NilObject)"
      using run by (auto simp: Instance_DeepCopyObject_def Instance_DeepCopy_def split: prod.splits)
    from copier_apart [OF copier_instance [OF assms(1)] _ assms(2) v this(1)] out show ?thesis
      by (auto simp: apartCopy_def)
  qed
  have many: "\<exists>q. out = (if p = None then NilObject else InstanceListObject q)
      \<and> apartCopy (pointerView instanceListKind (instanceListView L)) m p m' q vs"
    if v: "pointerView instanceListKind (instanceListView L) (cells m) p = Some vs"
      and run: "InstanceList_DeepCopyObject L p m = (out, m')"
  proof -
    obtain q where "copyPointer Zeroed instanceListKind (InstanceList_DeepCopyInto L) p m = (q, m')"
      and out: "out = (if q \<noteq> None then InstanceListObject q else NilObject)"
      using run by (auto simp: InstanceList_DeepCopyObject_def InstanceList_DeepCopy_def split: prod.splits)
    from copier_apart [OF copier_instanceList [OF assms(1)] _ assms(2) v this(1)] out show ?thesis
      by (auto simp: apartCopy_def)
  qed
  show ?thesis using one many by blast
qed

section \<open>An instance in memory\<close>

text \<open>A machinery whose metadata has its finalizers in a slice, and whose other structs have no pointers.\<close>

datatype sampleStruct =
    SampleQuantity string
  | SampleMeta string string slice
  | SampleCondition Condition

definition sampleMetaView :: "(addr \<rightharpoonup> sampleStruct cell) \<Rightarrow> sampleStruct \<Rightarrow> metaView option" where
  "sampleMetaView c x =
     (case x of
        SampleMeta name namespace finalizers \<Rightarrow>
          map_option (\<lambda>fs. \<lparr>me_name = name, me_namespace = namespace, me_generation = 1, me_deleting = False, me_finalizers = fs\<rparr>)
            (sliceView stringsKind plainView c finalizers)
      | _ \<Rightarrow> None)"

definition sampleMetaCopy :: "(sampleStruct, sampleStruct) copying" where
  "sampleMetaCopy x m =
     (case x of
        SampleMeta name namespace finalizers \<Rightarrow>
          (let (fs, m) = copySlice stringsKind [] plainCopy finalizers m in (SampleMeta name namespace fs, m))
      | _ \<Rightarrow> (x, m))"

definition sampleMachinery :: "sampleStruct library" where
  "sampleMachinery =
     \<lparr>quantity_DeepCopy = plainCopy, meta_DeepCopyInto = sampleMetaCopy, condition_DeepCopyInto = plainCopy,
      listMeta_DeepCopyInto = plainCopy,
      quantityView = (\<lambda>c x. case x of SampleQuantity s \<Rightarrow> Some s | _ \<Rightarrow> None),
      metaView = sampleMetaView,
      conditionView = (\<lambda>c x. case x of SampleCondition y \<Rightarrow> Some y | _ \<Rightarrow> None),
      listMetaView = (\<lambda>c x. case x of SampleQuantity s \<Rightarrow> Some s | _ \<Rightarrow> None),
      zeroStruct = SampleQuantity []\<rparr>"

lemma sampleMachinery_law: "libraryLaw sampleMachinery"
proof -
  have fs: "copier (sliceView stringsKind plainView) (copySlice stringsKind [] plainCopy)"
    by (intro copiers)
  have "copier sampleMetaView sampleMetaCopy"
  proof
    show "sampleMetaView d x = Some v" if "c \<subseteq>\<^sub>m d" "sampleMetaView c x = Some v" for c d x v
      using that copier.view_mono [OF fs] by (fastforce simp: sampleMetaView_def split: sampleStruct.splits)
    show "grows m m' \<and> sampleMetaView (above (limit m) (cells m')) y = Some v"
      if "wfMem m" "sampleMetaView (cells m) x = Some v" "sampleMetaCopy x m = (y, m')" for m x v y m'
      using that copier.copies [OF fs]
      by (fastforce simp: sampleMetaView_def sampleMetaCopy_def split: sampleStruct.splits prod.splits)
  qed
  then show ?thesis by (simp add: libraryLaw_def sampleMachinery_def copier_plain)
qed

text \<open>An instance with one database, its alias and the finalizer.\<close>

definition sampleMemory :: "sampleStruct memory" where
  "sampleMemory =
     \<lparr>cells = [0 \<mapsto> StringCell ''sales'',
               1 \<mapsto> DatabaseArray [\<lparr>ma_name = ''a.fdb'', ma_alias = Some 0, ma_shadow = False, ma_pageSize = 8192,
                      ma_charset = ''UTF8'', ma_collation = ''UTF8''\<rparr>],
               2 \<mapsto> StringArray [''kubebird''],
               3 \<mapsto> InstanceCell ((zeroInstance sampleMachinery)
                     \<lparr>mi_meta := SampleMeta ''db'' ''ns'' (Slice 2 0 1),
                      mi_spec := (mi_spec (zeroInstance sampleMachinery))\<lparr>mp_databases := Slice 1 0 1\<rparr>\<rparr>)],
      limit = 4\<rparr>"

definition databaseAliases :: "((string \<times> string) \<times> Instance) option option \<Rightarrow> string option list" where
  "databaseAliases v = (case v of Some (Some (_, i)) \<Rightarrow> map db_alias (sp_databases (in_spec i)) | _ \<Rightarrow> [])"

theorem deep_copies_are_apart_witness:
  "\<exists>q m'. Instance_DeepCopyObject sampleMachinery (Some 3) sampleMemory = (InstanceObject q, m')
     \<and> databaseAliases (pointerView instanceKind (instanceView sampleMachinery)
          ((cells m')(0 \<mapsto> StringCell ''changed'', 1 \<mapsto> DatabaseArray [])) q) = [Some ''sales'']"
proof -
  let ?read = "pointerView instanceKind (instanceView sampleMachinery)"
  have wf: "wfMem sampleMemory" by (simp add: wfMem_def sampleMemory_def)
  have "\<exists>v. ?read (cells sampleMemory) (Some 3) = Some v \<and> databaseAliases (Some v) = [Some ''sales'']"
    by (simp add: sampleMemory_def sampleMachinery_def pointerView_def instanceView_def pairView_def load_def
        sampleMetaView_def sliceView_def plainView_def specView_def statusView_def storageView_def backupView_def
        databaseView_def storageVolumeView_def zeroInstance_def zeroStorageVolume_def databaseAliases_def
        instanceKind_def stringsKind_def databasesKind_def stringKind_def)
  then obtain v where v: "?read (cells sampleMemory) (Some 3) = Some v" "databaseAliases (Some v) = [Some ''sales'']" by blast
  obtain out m' where run: "Instance_DeepCopyObject sampleMachinery (Some 3) sampleMemory = (out, m')" by fastforce
  obtain q where out: "out = InstanceObject q" and copy: "apartCopy ?read sampleMemory (Some 3) m' q v"
    using deep_copies_are_apart [OF sampleMachinery_law wf, of "Some 3" v out m'] v(1) run by auto
  have "?read ((cells m')(0 \<mapsto> StringCell ''changed'', 1 \<mapsto> DatabaseArray [])) q = Some v"
    using copy by (auto simp: apartCopy_def sampleMemory_def)
  with v(2) run out show ?thesis by auto
qed

end
