(* ===== verification/Success.thy ===== *)
theory Success
  imports Effects
begin

text \<open>
  Steps that cannot fail: under answers that go along, a step that starts in an invariant ends without
  an error, with a value of a kind, and in the invariant again. The rules follow the way the code is put
  together, so that each method is settled by those it calls.
\<close>

definition succeeds :: "(event list \<Rightarrow> request \<Rightarrow> answer \<Rightarrow> bool) \<Rightarrow> (event list \<Rightarrow> request \<Rightarrow> bool)
    \<Rightarrow> (Instance \<Rightarrow> event list \<Rightarrow> bool) \<Rightarrow> ('a \<Rightarrow> bool) \<Rightarrow> 'a act \<Rightarrow> bool" where
  "succeeds A G I V m =
     (\<forall>i h. I i h \<longrightarrow> wpa A G (\<lambda>r j h'. (\<exists>x. r = Inr x \<and> V x) \<and> I j h') m i h)"

lemma succeedsI:
  "(\<And>i h. I i h \<Longrightarrow> wpa A G (\<lambda>r j h'. (\<exists>x. r = Inr x \<and> V x) \<and> I j h') m i h) \<Longrightarrow> succeeds A G I V m"
  by (simp add: succeeds_def)

lemma succeedsD:
  assumes "succeeds A G I V m" and "I i h" and "\<And>x j h'. V x \<Longrightarrow> I j h' \<Longrightarrow> Q (Inr x) j h'"
  shows "wpa A G Q m i h"
  by (rule wpa_mono [OF assms(1) [unfolded succeeds_def, rule_format, OF assms(2)]]) (use assms(3) in auto)

lemma succeeds_before:
  assumes "succeeds A G I V m" and "I i h" and "\<And>x j h'. V x \<Longrightarrow> I j h' \<Longrightarrow> wpa A G Q (f x) j h'"
  shows "wpa A G Q (bindA m f) i h"
  unfolding wpa_bindA by (rule succeedsD [OF assms(1,2)]) (simp add: assms(3))

lemma succeeds_weaken:
  assumes "succeeds A G I V m" and "\<And>x. V x \<Longrightarrow> W x"
  shows "succeeds A G I W m"
  by (rule succeedsI, rule succeedsD [OF assms(1)]) (use assms(2) in auto)

lemma succeeds_ok: "V x \<Longrightarrow> succeeds A G I V (ok x)"
  by (simp add: succeeds_def wprule)

lemma succeeds_withI:
  assumes "\<And>i h. I i h \<Longrightarrow> succeeds A G I V (f i)"
  shows "succeeds A G I V (withI f)"
proof (rule succeedsI)
  fix i h assume I: "I i h"
  show "wpa A G (\<lambda>r j h'. (\<exists>x. r = Inr x \<and> V x) \<and> I j h') (withI f) i h"
    using assms [OF I] I by (simp add: wprule succeeds_def)
qed

lemma succeeds_bindA:
  assumes "succeeds A G I V m" and "\<And>x. V x \<Longrightarrow> succeeds A G I W (f x)"
  shows "succeeds A G I W (bindA m f)"
  by (rule succeedsI) (auto simp: wpa_bindA intro!: succeedsD [OF assms(1)] succeedsD [OF assms(2)])

lemma succeeds_thenA:
  "succeeds A G I (\<lambda>_. True) m \<Longrightarrow> succeeds A G I V n \<Longrightarrow> succeeds A G I V (thenA m n)"
  unfolding thenA_def by (rule succeeds_bindA)

lemma succeeds_wrapA: "succeeds A G I V m \<Longrightarrow> succeeds A G I V (wrapA pre m)"
  by (rule succeedsI) (auto simp: wpa_wrapA elim!: succeedsD)

lemma succeeds_whenA: "(b \<Longrightarrow> succeeds A G I (\<lambda>_. True) m) \<Longrightarrow> succeeds A G I (\<lambda>_. True) (whenA b m)"
  by (simp add: whenA_def succeeds_ok)

lemma succeeds_forA:
  "(\<And>x. x \<in> set xs \<Longrightarrow> succeeds A G I (\<lambda>_. True) (f x)) \<Longrightarrow> succeeds A G I (\<lambda>_. True) (forA xs f)"
  by (induction xs) (auto intro: succeeds_ok succeeds_thenA)

text \<open>A call whose answer is of the right kind.\<close>

lemma succeeds_callA:
  assumes "\<And>i h. I i h \<Longrightarrow> G h q"
    and "\<And>i h r. I i h \<Longrightarrow> A h q r \<Longrightarrow> (\<exists>x. proj r = Inr x \<and> V x) \<and> I i ((q, r) # h)"
  shows "succeeds A G I V (callA q proj)"
  by (rule succeedsI) (use assms in \<open>simp add: wprule\<close>)

lemma succeeds_tryA:
  assumes "\<And>i h. I i h \<Longrightarrow> wpa A G (\<lambda>r j h'. P r \<and> I j h') m i h" and "\<And>r. P r \<Longrightarrow> succeeds A G I V (f r)"
  shows "succeeds A G I V (tryA m f)"
proof (rule succeedsI)
  fix i h assume I: "I i h"
  show "wpa A G (\<lambda>r j h'. (\<exists>x. r = Inr x \<and> V x) \<and> I j h') (tryA m f) i h"
    unfolding wpa_tryA
    by (rule wpa_mono [OF assms(1) [OF I]]) (auto intro: succeedsD [OF assms(2)])
qed

lemmas succeeds_rules =
  succeeds_ok succeeds_bindA succeeds_thenA succeeds_wrapA succeeds_whenA succeeds_forA

section \<open>A run that is there\<close>

text \<open>A program that stays within its guard runs to its end in an environment whose answers go along.\<close>

lemma wp_run:
  assumes "wp A (\<lambda>_. G) Q p h" and "I h"
    and "\<And>h q. I h \<Longrightarrow> G q \<Longrightarrow> A h q (env h q) \<and> B h q (env h q) \<and> I ((q, env h q) # h)"
  shows "\<exists>tr a. steps p tr (Ret a) \<and> answered B h tr \<and> I (rev tr @ h)"
  using assms(1,2)
proof (induction p arbitrary: h)
  case (Ret a)
  then show ?case using steps.stop by fastforce
next
  case (Call q k)
  let ?ev = "(q, env h q)"
  have step: "A h q (env h q) \<and> B h q (env h q) \<and> I (?ev # h)" using assms(3) Call.prems by simp
  then obtain tr a where "steps (k (env h q)) tr (Ret a)" "answered B (?ev # h) tr" "I (rev tr @ ?ev # h)"
    using Call.IH [OF rangeI, of "env h q" "?ev # h"] Call.prems(1) by auto
  with step have "steps (Call q k) (?ev # tr) (Ret a) \<and> answered B h (?ev # tr) \<and> I (rev (?ev # tr) @ h)"
    by (auto intro: steps.call)
  then show ?case by blast
qed

end
