(* ===== verification/Ready.thy ===== *)
theory Ready
  imports Desired Success
begin

text \<open>
  Where reconciling leads: with a cluster that goes along, one reconcile of a live instance provisions
  its databases, reports it ready and clears its error.
\<close>

section \<open>A cluster that goes along\<close>

text \<open>Nothing else owns the object, so that SetControllerReference accepts it under any labels.\<close>

definition ownable :: "lib \<Rightarrow> ObjectMeta \<Rightarrow> bool" where
  "ownable L m = (\<forall>i labels. \<exists>m'. lib_setControllerReference L i (relabel labels m) = Inr m')"

definition absent :: "answer \<Rightarrow> bool" where
  "absent r = (\<exists>e. r = RErr e \<and> isNotFound e)"

definition exitsNonZero :: "answer \<Rightarrow> bool" where
  "exitsNonZero r = (\<exists>out err e. r = RExec out err (Some e) \<and> isCodeExit e)"

text \<open>The Secret is there, as far as a run knows: it was found, or created in the run itself.\<close>

fun showsSecret :: "nsname \<Rightarrow> request \<Rightarrow> answer \<Rightarrow> bool" where
  "showsSecret k (QGetSecret k') r = (k' = k \<and> (\<exists>sec. r = RSecret sec))"
| "showsSecret k (QCreateSecret sec) r =
     ((om_namespace (sec_meta sec), om_name (sec_meta sec)) = k \<and> asUnit r = Inr ())"
| "showsSecret k q r = False"

definition secretThere :: "event list \<Rightarrow> nsname \<Rightarrow> bool" where
  "secretThere h k = (\<exists>(q, r)\<in>set h. showsSecret k q r)"

text \<open>How many passwords have been drawn.\<close>

fun draws :: "event list \<Rightarrow> nat" where
  "draws [] = 0"
| "draws ((q, r) # h) = (case q of QRand n \<Rightarrow> Suc (draws h) | _ \<Rightarrow> draws h)"

text \<open>
  Writes of the instance are taken over as they are, other objects can be stored, objects are there or can
  be made, the server is up once it has been stored, and every command works; the StatefulSet found
  before it is stored satisfies \<open>F\<close>, \<open>test\<close> may also answer no, and \<open>fbsvcmgr\<close> names a version. The Secret
  may be missing until it is made, if there are draws \<open>n\<close> of a password to be had, of which one is fit.
\<close>

fun obliging :: "lib \<Rightarrow> (StatefulSet \<Rightarrow> bool) \<Rightarrow> nat \<Rightarrow> event list \<Rightarrow> request \<Rightarrow> answer \<Rightarrow> bool" where
  "obliging L F n h (QUpdateInstance j) r = (r = RInstance j)"
| "obliging L F n h (QUpdateStatus j) r = (r = RInstance j)"
| "obliging L F n h (QGetSecret k) r = ((\<exists>sec. r = RSecret sec) \<or> n \<noteq> 0 \<and> absent r \<and> \<not> secretThere h k)"
| "obliging L F n h (QRand l) r = (n \<noteq> 0 \<longrightarrow> isDraw r \<and> (dashed r \<longrightarrow> Suc (draws h) < n))"
| "obliging L F n h (QGetPvc k) r = ((\<exists>p. r = RPvc p) \<or> absent r)"
| "obliging L F n h (QGetSts k) r = (absent r \<or> (\<exists>sts. r = RSts sts \<and> F sts))"
| "obliging L F n h (QFetchConfigMap k) r = (\<exists>cm. r = RConfigMap cm \<and> ownable L (cm_meta cm))"
| "obliging L F n h (QStoreConfigMap cm) r = (\<exists>cm'. r = RConfigMap cm')"
| "obliging L F n h (QFetchService k) r = (\<exists>svc. r = RService svc \<and> ownable L (svc_meta svc))"
| "obliging L F n h (QStoreService svc) r = (\<exists>svc'. r = RService svc')"
| "obliging L F n h (QFetchSts k) r = (\<exists>sts. r = RSts sts \<and> ownable L (sts_meta sts))"
| "obliging L F n h (QStoreSts sts) r = (\<exists>sts'. r = RSts sts' \<and> stsReady sts')"
| "obliging L F n h (QUpdateSts sts) r = (r = RSts sts)"
| "obliging L F n h (QGetInstance k) r = (\<exists>j. r = RInstance j)"
| "obliging L F n h (QGetPod k) r = (\<exists>pod. r = RPod pod)"
| "obliging L F n h (QGetCronJob k) r = ((\<exists>cj. r = RCronJob cj) \<or> absent r)"
| "obliging L F n h (QFetchCronJob k) r = (\<exists>cj. r = RCronJob cj \<and> ownable L (cj_meta cj))"
| "obliging L F n h (QStoreCronJob cj) r = (\<exists>cj'. r = RCronJob cj')"
| "obliging L F n h (QDeleteCronJob k) r = (r = RUnit \<or> absent r)"
| "obliging L F n h (QDeletePvc k) r = (r = RUnit \<or> absent r)"
| "obliging L F n h (QDeletePod k) r = (r = RUnit \<or> absent r)"
| "obliging L F n h (QExec ns p cmd s) r =
     ((\<exists>out err. r = RExec out err None \<and> (hd cmd = ''fbsvcmgr'' \<longrightarrow> findVersion out \<noteq> None))
      \<or> hd cmd = ''test'' \<and> exitsNonZero r)"
| "obliging L F n h q r = (r = RUnit)"

text \<open>The object has the spec and the upgrade of \<open>i\<close> and satisfies \<open>D\<close>. Without an upgrade it is the one the
  server has, \<open>s\<close> being what it had at first; with one, it will be when the end of the upgrade is written.
  After the first step the Secret is there, too.\<close>

definition sameAs :: "Instance \<Rightarrow> Instance \<Rightarrow> (Instance \<Rightarrow> bool) \<Rightarrow> Instance \<Rightarrow> event list \<Rightarrow> bool" where
  "sameAs s i D j h =
     ((upgrade_of i = None \<longrightarrow> stored s h = j) \<and> in_key j = in_key i \<and> in_spec j = in_spec i
      \<and> upgrade_of j = upgrade_of i \<and> D j)"

definition stays :: "Instance \<Rightarrow> Instance \<Rightarrow> (Instance \<Rightarrow> bool) \<Rightarrow> Instance \<Rightarrow> event list \<Rightarrow> bool" where
  "stays s i D j h = (sameAs s i D j h \<and> secretThere h (secretKey i))"

lemma secretThere_later [simp]: "secretThere h k \<Longrightarrow> secretThere ((q, r) # h) k"
  by (simp add: secretThere_def)

lemma secretThere_mono: "secretThere h k \<Longrightarrow> set h \<subseteq> set h' \<Longrightarrow> secretThere h' k"
  unfolding secretThere_def by blast

lemma secretThere_event: "showsSecret k q r \<Longrightarrow> secretThere ((q, r) # h) k"
  by (simp add: secretThere_def)

lemma secretKey_same:
  "in_key j = in_key i \<Longrightarrow> in_spec j = in_spec i \<Longrightarrow> (in_namespace j, sysdbaSecretRefName j) = secretKey i"
  by (auto simp: secretKey_def sysdbaSecretRefName_def Let_def)

abbreviation goes :: "lib \<Rightarrow> (StatefulSet \<Rightarrow> bool) \<Rightarrow> nat \<Rightarrow> Instance \<Rightarrow> Instance \<Rightarrow> (Instance \<Rightarrow> bool) \<Rightarrow> ('a \<Rightarrow> bool) \<Rightarrow> 'a act \<Rightarrow> bool" where
  "goes L F n s i D \<equiv> succeeds (obliging L F n) (\<lambda>_ _. True) (stays s i D)"

lemmas stays_defs = stays_def sameAs_def

lemma stored_idle: "\<not> writes_object q \<Longrightarrow> stored s ((q, r) # h) = stored s h"
  by (cases q; cases r) auto

lemma goes_call:
  "\<not> writes_object q \<Longrightarrow> (\<And>h r. obliging L F n h q r \<Longrightarrow> \<exists>x. proj r = Inr x \<and> V x) \<Longrightarrow> goes L F n s i D V (callA q proj)"
  by (rule succeeds_callA) (simp_all add: stays_defs stored_idle)

text \<open>A call that may also say that the thing is not there.\<close>

lemma goes_try_call:
  assumes "\<not> writes_object q"
    and "\<And>h r. obliging L F n h q r \<Longrightarrow> goes L F n s i D V (f (proj r))"
  shows "goes L F n s i D V (tryA (callA q proj) f)"
  by (rule succeeds_tryA [of "stays s i D" _ _ "\<lambda>x. \<exists>h r. obliging L F n h q r \<and> x = proj r"])
    (use assms in \<open>auto simp: wprule stays_defs stored_idle\<close>)

section \<open>Every step goes through\<close>

lemma sync_goes: "(\<And>m. \<not> writes_object (patch m)) \<Longrightarrow> (\<And>m h r. obliging L F n h (patch m) r \<Longrightarrow> r = RUnit)
    \<Longrightarrow> goes L F n s i D (\<lambda>_. True) (syncFirebirdVersionLabel m patch)"
  unfolding syncFirebirdVersionLabel_def Let_def
  by (auto intro!: succeeds_withI succeeds_ok goes_call) (metis asUnit.simps(2))

lemma sysdbaPassword_goes: "goes L F n s i D (\<lambda>_. True) sysdbaPassword"
proof (rule succeedsI)
  fix j h assume I: "stays s i D j h"
  then have k: "(in_namespace j, sysdbaSecretRefName j) = secretKey i" and there: "secretThere h (secretKey i)"
    using secretKey_same [of j i] by (simp_all add: stays_defs)
  show "wpa (obliging L F n) (\<lambda>_ _. True) (\<lambda>r k h'. (\<exists>x. r = Inr x \<and> True) \<and> stays s i D k h') sysdbaPassword j h"
    unfolding sysdbaPassword_def Let_def wpa_withI k
    using I there by (auto simp: wprule stays_def sameAs_def)
qed

text \<open>The password is drawn within the draws there are.\<close>

lemma generate_goes:
  assumes "k \<noteq> 0" and "n \<noteq> 0" and "n \<le> draws h + k" and "sameAs s i D j h"
  shows "wpa (obliging L F n) (\<lambda>_ _. True) (\<lambda>r j' h'. (\<exists>pw. r = Inr pw) \<and> sameAs s i D j' h') (generateRandomPassword k) j h"
  using assms
proof (induction k arbitrary: h)
  case (Suc k)
  have drawn: "(\<nexists>e. asBytes r = Inl e) \<and> (\<forall>buf. asBytes r = Inr buf \<longrightarrow>
      wpa (obliging L F n) (\<lambda>_ _. True) (\<lambda>r j' h'. (\<exists>pw. r = Inr pw) \<and> sameAs s i D j' h')
      (case b64RawURL buf of [] \<Rightarrow> failA (Panicked ''index out of range'')
       | c # cs \<Rightarrow> if c \<noteq> CHR ''-'' then ok (c # cs) else generateRandomPassword k) j ((QRand generatedPasswordLength, r) # h))"
    if r: "obliging L F n h (QRand generatedPasswordLength) r" for r
  proof -
    let ?h = "(QRand generatedPasswordLength, r) # h"
    have draw: "isDraw r" "dashed r \<longrightarrow> Suc (draws h) < n" using r Suc.prems(2) by simp_all
    obtain buf c cs where pw: "r = RBytes buf" "b64RawURL buf = c # cs" "c = CHR ''-'' \<longleftrightarrow> dashed r"
      using draw_password [OF draw(1)] by blast
    have same: "sameAs s i D j ?h" using Suc.prems(4) by (simp add: sameAs_def)
    have "wpa (obliging L F n) (\<lambda>_ _. True) (\<lambda>r j' h'. (\<exists>pw. r = Inr pw) \<and> sameAs s i D j' h')
        (generateRandomPassword k) j ?h" if "dashed r"
      using that draw(2) Suc.prems(2,3) same by (intro Suc.IH) auto
    then show ?thesis using pw same by (simp add: wprule)
  qed
  show ?case
    unfolding generateRandomPassword.simps wpa_bindA wpa_callA using drawn by blast
qed simp

text \<open>The Secret may be missing when its name is the operator's own, which then makes it.\<close>

definition mayMake :: "nat \<Rightarrow> nat \<Rightarrow> Instance \<Rightarrow> event list \<Rightarrow> bool" where
  "mayMake n fuel i h =
     (n = 0 \<or> n = fuel \<and> sy_secretRef (au_sysdba (sp_authentication (in_spec i))) = [] \<and> draws h = 0)"

lemma secret_goes:
  assumes "mayMake n fuel i h" and "sameAs s i D j h"
  shows "wpa (obliging L F n) (\<lambda>_ _. True) (\<lambda>r j h. r = Inr () \<and> stays s i D j h) (reconcileSysdbaSecret fuel) j h"
proof -
  have k: "(in_namespace j, sysdbaSecretRefName j) = secretKey i"
    using assms(2) secretKey_same [of j i] by (simp add: sameAs_def)
  have spec: "in_spec j = in_spec i" using assms(2) by (simp add: sameAs_def)
  have same: "sameAs s i D j ((QGetSecret l, r) # h)" for l r using assms(2) by (simp add: sameAs_def)
  let ?Q = "\<lambda>r j h. r = Inr () \<and> stays s i D j h"
  have found: "wpa (obliging L F n) (\<lambda>_ _. True) ?Q
      (wrapA pre (syncFirebirdVersionLabel m (\<lambda>m. QPatchSecret sec (sec\<lparr>sec_meta := m\<rparr>)))) j ((QGetSecret (secretKey i), RSecret sec) # h)"
    for pre m sec
    by (rule succeedsD [OF succeeds_wrapA [OF sync_goes]]) (simp_all add: stays_def same secretThere_event)
  have made: "stays s i D l ((QCreateSecret (newSysdbaSecret j (sysdbaSecretRefName j) pw), RUnit) # h')"
    if "sameAs s i D l h'" for l h' pw
    using that k by (auto simp: stays_def sameAs_def newSysdbaSecret_def freshMeta_def intro!: secretThere_event)
  have make: "wpa (obliging L F n) (\<lambda>_ _. True) ?Q
      (bindA (wrapA pre (generateRandomPassword fuel)) (\<lambda>password.
         wrapA pre' (callA (QCreateSecret (newSysdbaSecret j (sysdbaSecretRefName j) password)) asUnit))) j ((QGetSecret l, r) # h)"
    if "n \<noteq> 0" for pre pre' l r
    unfolding wpa_bindA wpa_wrapA wpa_callA
    by (rule wpa_mono [OF generate_goes [OF _ that _ same]])
      (use assms(1) that in \<open>auto simp: mayMake_def made\<close>)
  have unnamed: "sy_secretRef (au_sysdba (sp_authentication (in_spec j))) = []" if "n \<noteq> 0"
    using assms(1) that spec by (simp add: mayMake_def)
  show ?thesis
    unfolding reconcileSysdbaSecret_def Let_def wpa_withI wpa_tryA wpa_callA k
    by (auto simp: absent_def wpa_case_sum unnamed intro!: found make)
qed

lemma pvc_goes: "goes L F n s i D (\<lambda>_. True) (reconcilePVC name vol)"
  unfolding reconcilePVC_def absent_def
  by (auto intro!: succeeds_withI goes_try_call succeeds_wrapA sync_goes goes_call simp: absent_def)

lemma pvcs_go: "goes L F n s i D (\<lambda>_. True) reconcilePVCs"
  unfolding reconcilePVCs_def
  by (auto intro!: succeeds_withI succeeds_rules pvc_goes split: option.split)

text \<open>No upgrade, or one with only the restore left, of which the major version has not been changed again.\<close>

definition nearlyThere :: "Instance \<Rightarrow> bool" where
  "nearlyThere i =
     (case upgrade_of i of None \<Rightarrow> True | Some u \<Rightarrow> up_stage u = Restoring \<and> up_toVersion u = version_of i)"

text \<open>A StatefulSet that makes no upgrade necessary where none is recorded.\<close>

definition current :: "Instance \<Rightarrow> StatefulSet \<Rightarrow> bool" where
  "current i sts =
     (upgrade_of i = None \<longrightarrow>
        decideUpgrade (statefulSetFirebirdVersion sts) (version_of i) (backupVolumeSpec i \<noteq> None) = NoUpgrade)"

lemma upgrade_goes:
  assumes "nearlyThere i"
  shows "goes L (current i) n s i D (\<lambda>handled. \<not> handled) (reconcileMajorUpgrade L)"
proof -
  have restoring: "goes L (current i) n s i D (\<lambda>handled. \<not> handled) (continueUpgrade L sts)" if "upgrade_of i = Some u" for u sts
    by (rule succeedsI) (use that assms in \<open>auto simp: nearlyThere_def continueUpgrade_def withUpgrade_def
      upgradeBackup_def upgradeRelease_def wprule stays_defs\<close>)
  have start: "goes L (current i) n s i D (\<lambda>started. \<not> started) (startMajorUpgrade sts)"
    if "decideUpgrade (statefulSetFirebirdVersion sts) (version_of i) (backupVolumeSpec i \<noteq> None) = NoUpgrade" for sts
    unfolding startMajorUpgrade_def Let_def
  proof (rule succeeds_withI)
    fix j h assume "stays s i D j h"
    then have "backupVolumeSpec j = backupVolumeSpec i" and "version_of j = version_of i"
      by (simp_all add: stays_defs backupVolumeSpec_def)
    with that show "goes L (current i) n s i D (\<lambda>started. \<not> started)
        (case decideUpgrade (statefulSetFirebirdVersion sts) (version_of j) (backupVolumeSpec j \<noteq> None) of
           NoUpgrade \<Rightarrow> ok False | Refused e \<Rightarrow> failA e
         | StartUpgrade \<Rightarrow> thenA (modifyI (beginUpgrade (statefulSetFirebirdVersion sts)))
             (thenA (wrapA ''failed to record the Firebird upgrade: '' updateStatus) (ok True)))"
      by (simp add: succeeds_ok del: not_None_eq)
  qed
  have started: "goes L (current i) n s i D (\<lambda>handled. \<not> handled) (bindA (startMajorUpgrade sts) (\<lambda>started. if \<not> started then ok False else continueUpgrade L sts))"
    if "decideUpgrade (statefulSetFirebirdVersion sts) (version_of i) (backupVolumeSpec i \<noteq> None) = NoUpgrade" for sts
    by (rule succeeds_bindA [OF start [OF that]]) (simp add: succeeds_ok)
  show ?thesis
    unfolding reconcileMajorUpgrade_def
    by (rule succeeds_withI, rule goes_try_call)
      (auto simp: absent_def stays_defs current_def intro: succeeds_ok started restoring simp del: not_None_eq split: option.split)
qed

text \<open>Bringing an owned object up to date: it can be owned, and what is stored comes back good.\<close>

lemma createOrUpdate_goes:
  assumes "\<not> writes_object fetch" and "\<And>obj. \<not> writes_object (store obj)"
    and "\<And>h r. obliging L F n h fetch r \<Longrightarrow> \<exists>obj. proj r = Inr obj \<and> goes L F n s i D (\<lambda>_. True) (mutate obj)"
    and "\<And>obj h r. obliging L F n h (store obj) r \<Longrightarrow> \<exists>x. proj r = Inr x \<and> V x"
  shows "goes L F n s i D V (createOrUpdate fetch proj store mutate)"
  unfolding createOrUpdate_def
  by (rule succeeds_bindA [where V = "\<lambda>obj. goes L F n s i D (\<lambda>_. True) (mutate obj)"], rule goes_call [OF assms(1,3)],
      assumption, rule succeeds_bindA, assumption, rule goes_call [OF assms(2,4)])

lemma setOwner_goes:
  "ownable L m \<Longrightarrow> getM obj = relabel labels m \<Longrightarrow> goes L F n s i D (\<lambda>_. True) (liftA (setOwner L j getM putM obj))"
  by (rule succeedsI) (auto simp: wprule setOwner_def ownable_def split: sum.splits, metis sum.distinct(1))

lemma cm_goes: "ownable L (cm_meta cm) \<Longrightarrow> goes L F n s i D (\<lambda>_. True) (liftA (mutateAliasesConfigMap L j cm))"
  unfolding mutateAliasesConfigMap_def by (rule setOwner_goes) (auto simp: desiredAliasesConfigMap_def)

lemma service_goes: "ownable L (svc_meta svc) \<Longrightarrow> goes L F n s i D (\<lambda>_. True) (liftA (mutateService L j svc))"
  unfolding mutateService_def by (rule setOwner_goes) (auto simp: desiredService_def Let_def)

lemma sts_goes: "ownable L (sts_meta sts) \<Longrightarrow> goes L F n s i D (\<lambda>_. True) (mutateStatefulSet L sts)"
  unfolding mutateStatefulSet_def
  by (rule succeeds_withI, rule succeeds_bindA [OF sysdbaPassword_goes], rule setOwner_goes)
    (auto simp: desiredStatefulSet_def)

lemma cronJob_goes:
  "ownable L (cj_meta cj) \<Longrightarrow> goes L F n s i D (\<lambda>_. True) (liftA (mutateScheduledBackupCronJob L j freq cj))"
  unfolding mutateScheduledBackupCronJob_def by (rule setOwner_goes) (auto simp: desiredCronJob_def Let_def)

lemma owned_goes: "goes L F n s i D stsReady (reconcileOwned L)"
  unfolding reconcileOwned_def
  by (intro succeeds_withI succeeds_bindA [OF succeeds_wrapA [OF createOrUpdate_goes [where V = "\<lambda>_. True"]]]
      succeeds_thenA [OF pvcs_go] succeeds_wrapA [OF createOrUpdate_goes])
    (auto intro: cm_goes service_goes sts_goes)

lemma exec_goes:
  "hd cmd \<noteq> ''test'' \<Longrightarrow> goes L F n s i D (\<lambda>_. True) (execInPod ns p cmd input)"
  unfolding execInPod_def
  by (rule succeeds_bindA [where V = "\<lambda>_. True"], rule goes_call) (auto intro: succeeds_ok)

lemma output_goes:
  "hd cmd \<noteq> ''test'' \<Longrightarrow> goes L F n s i D (\<lambda>out. hd cmd = ''fbsvcmgr'' \<longrightarrow> findVersion out \<noteq> None) (execInPodOutput ns p cmd)"
  unfolding execInPodOutput_def by (rule goes_call) auto

lemma exists_goes: "goes L F n s i D (\<lambda>_. True) (databaseFileExists ns p f)"
  unfolding databaseFileExists_def execInPod_def bindA_def
  by (rule succeeds_tryA [where P = "\<lambda>r. \<forall>e. r = Inl e \<longrightarrow> isCodeExit e"])
    (auto simp: wprule stays_defs exitsNonZero_def split: sum.split intro: succeeds_ok)


lemma commands [simp]:
  "hd (sysdbaCommand pw) = binIsql" "hd (restoreCommand pw db) = binGbak" "binIsql \<noteq> ''test''" "binGbak \<noteq> ''test''"
  by (simp_all add: sysdbaCommand_def restoreCommand_def binIsql_def binGbak_def)

lemma drop_goes: "goes L F n s i D (\<lambda>_. True) (dropDatabase p pw name)"
  unfolding dropDatabase_def
  by (rule succeeds_withI, rule succeeds_wrapA, rule exec_goes) (simp add: sysdbaCommand_def layout)

lemma provision_goes: "goes L F n s i D (\<lambda>_. True) (provisionDatabase p pw db)"
  unfolding provisionDatabase_def restoreDatabaseIfBackedUp_def createDatabase_def runRestore_def recreateShadow_def
  by (intro succeeds_withI succeeds_bindA [where V = "\<lambda>_. True"] succeeds_wrapA exists_goes)
    (auto intro!: succeeds_withI succeeds_ok succeeds_thenA succeeds_bindA [where V = "\<lambda>_. True"] succeeds_wrapA
       succeeds_whenA exists_goes exec_goes simp: sysdbaCommand_def restoreCommand_def layout)

lemma orphan_goes: "goes L F n s i D (\<lambda>_. True) (orphanWarning p dbs)"
  unfolding orphanWarning_def orphanedBackups_def
  by (intro succeeds_withI)
    (auto intro!: succeeds_withI succeeds_ok succeeds_bindA [where V = "\<lambda>_. True"] succeeds_wrapA
       succeeds_weaken [OF output_goes] simp: listBackupsCommand_def)

text \<open>The databases as declared, each of them once at least.\<close>

definition declared :: "Instance \<Rightarrow> bool" where
  "declared i =
     (set (status_databases i) = set (map db_name (spec_databases i))
      \<and> length (spec_databases i) \<le> length (status_databases i))"

lemma all_declared:
  assumes "distinct (map db_name (spec_databases i))" and "pendingDatabases i = []" and "removedDatabases i = []"
  shows "declared i"
proof -
  have same: "set (status_databases i) = set (map db_name (spec_databases i))"
    using assms(2,3) by (auto simp: pendingDatabases_def removedDatabases_def filter_empty_conv)
  have "length (spec_databases i) = card (set (map db_name (spec_databases i)))"
    using distinct_card [OF assms(1)] by simp
  also have "\<dots> \<le> length (status_databases i)"
    unfolding same [symmetric] by (rule card_length)
  finally show ?thesis using same by (simp add: declared_def)
qed

lemma recorded_declared:
  assumes "distinct (map db_name (spec_databases i))"
  shows "declared (upd_status (recordDatabases (removedDatabases i) (pendingDatabases i) w) i)"
  using assms
  by (intro all_declared)
    (auto simp: pendingDatabases_def removedDatabases_def recordDatabases_def Let_def filter_empty_conv)

lemma databases_go:
  assumes "distinct (map db_name (spec_databases i))" and "ready \<noteq> 0" and "stays s i D j h"
  shows "wpa (obliging L F n) (\<lambda>_ _. True) (\<lambda>r j h. r = Inr () \<and> stays s i declared j h) (reconcileDatabases ready) j h"
proof (cases "pendingDatabases j = [] \<and> removedDatabases j = []")
  case True
  then show ?thesis
    using assms all_declared [of j] by (simp add: reconcileDatabases_def wprule Let_def stays_defs)
next
  case False
  let ?entry = "\<lambda>w. thenA (modifyI (upd_status (recordDatabases (removedDatabases j) (pendingDatabases j) w))) updateStatus"
  let ?I = "\<lambda>k. k = j"
  have recording: "wpa (obliging L F n) (\<lambda>_ _. True) (\<lambda>r j h. r = Inr () \<and> stays s i declared j h) (?entry w) k h'"
    if "stays s i ?I k h'" for w k h'
    using that assms(1) recorded_declared [of j w] by (auto simp: wprule stays_defs recordDatabases_def Let_def)
  have "stays s i ?I j h" using assms(3) by (simp add: stays_defs)
  with False assms(2) show ?thesis
    by (simp add: reconcileDatabases_def wpa_withI Let_def)
      (auto simp: wpa_bindA wpa_thenA intro!: succeedsD [OF sysdbaPassword_goes] succeedsD [OF orphan_goes]
        succeedsD [OF succeeds_forA [OF drop_goes]] succeedsD [OF succeeds_forA [OF provision_goes]] recording [simplified wpa_thenA, simplified])
qed


section \<open>The rest of a reconcile\<close>

lemma frequency_goes: "goes L F n s i D (\<lambda>_. True) (reconcileFrequency L freq)"
  unfolding reconcileFrequency_def reconcileScheduledBackupCronJob_def deleteCronJob_def Let_def
  by (intro succeeds_withI)
    (auto intro!: succeeds_withI succeeds_ok succeeds_wrapA goes_try_call succeeds_bindA [where V = "\<lambda>_. True"]
       succeeds_thenA succeeds_whenA exec_goes createOrUpdate_goes cronJob_goes simp: absent_def)

lemma detect_goes: "goes L F n s i D (\<lambda>_. True) (detectFirebirdVersion pod)"
  unfolding detectFirebirdVersion_def
  by (rule succeeds_withI, rule succeeds_bindA [OF sysdbaPassword_goes],
      rule succeeds_bindA [OF succeeds_wrapA [OF output_goes]])
    (auto simp: versionCommand_def parseServerVersion_def split: sum.split option.split
       intro!: succeeds_thenA succeeds_wrapA goes_call succeeds_ok)

lemma version_goes:
  assumes "\<And>j v. D j \<Longrightarrow> D (upd_status (\<lambda>s. s\<lparr>st_firebirdVersion := v\<rparr>) j)"
  shows "goes L F n s i D (\<lambda>_. True) reconcileFirebirdVersion"
proof -
  have version: "goes L F n s i D (\<lambda>_. True) (withI (\<lambda>j. if st_firebirdVersion (in_status j) = v then ok ()
       else thenA (modifyI (upd_status (\<lambda>s. s\<lparr>st_firebirdVersion := v\<rparr>))) updateStatus))" for v
    by (rule succeedsI) (auto simp: wprule stays_defs assms)
  show ?thesis
    unfolding reconcileFirebirdVersion_def Let_def
    by (intro succeeds_withI succeeds_bindA [where V = "\<lambda>_. True"] succeeds_wrapA version)
      (auto intro!: goes_call succeeds_ok detect_goes)
qed

text \<open>SetStatusCondition leaves the conditions alone when it says that nothing changed.\<close>

definition conditionLaw :: "lib \<Rightarrow> bool" where
  "conditionLaw L = (\<forall>cs c cs'. lib_setStatusCondition L cs c = (cs', False) \<longrightarrow> cs' = cs)"

definition served :: "Instance \<Rightarrow> Instance \<Rightarrow> bool" where
  "served i j = (in_spec j = in_spec i \<and> upgrade_of j = None \<and> declared j)"

definition reportedReady :: "Instance \<Rightarrow> Instance \<Rightarrow> Instance \<Rightarrow> event list \<Rightarrow> bool" where
  "reportedReady s i j h = (stored s h = j \<and> served i j \<and> st_phase (in_status j) = phaseReady)"

lemma finish_goes:
  assumes "stays s i declared j h"
  shows "wpa (obliging L F n) (\<lambda>_ _. True) (\<lambda>r j h. r = Inr () \<and> stored s h = j \<and> served i j) finishMajorUpgrade j h"
  using assms by (auto simp: finishMajorUpgrade_def wprule stays_defs served_def declared_def)

lemma phase_goes:
  assumes "stored s h = j" and "served i j"
  shows "wpa (obliging L F n) (\<lambda>_ _. True) (\<lambda>r j h. r = Inr () \<and> reportedReady s i j h) (setPhase phaseReady) j h"
  using assms phase.settled_edit [of j phaseReady]
  by (auto simp: phase.wpa_writer served_def reportedReady_def declared_def)

lemma available_goes:
  assumes "conditionLaw L" and "reportedReady s i j h"
  shows "wpa (obliging L F n) (\<lambda>_ _. True) (\<lambda>r j h. r = Inr () \<and> reportedReady s i j h) (setAvailable L st rs msg) j h"
proof -
  have "availableEdit L st rs msg j = j" if "availableSettled L st rs msg j"
    using that assms(1)
    by (cases "lib_setStatusCondition L (st_conditions (in_status j)) (availableCondition st rs msg j)")
      (auto simp: availableSettled_def availableEdit_def conditionLaw_def)
  then show ?thesis
    using assms(2)
    by (auto simp: available.wpa_writer served_def reportedReady_def declared_def availableEdit_def)
qed

lemma reportReady_goes:
  assumes "conditionLaw L" and "stays s i declared j h"
  shows "wpa (obliging L F n) (\<lambda>_ _. True) (\<lambda>r j h. r = Inr () \<and> reportedReady s i j h) (reportReady L) j h"
  unfolding reportReady_def wpa_thenA
  by (rule wpa_mono [OF finish_goes [OF assms(2)]])
    (auto intro!: wpa_mono [OF phase_goes] wpa_mono [OF available_goes [OF assms(1)]])

text \<open>After the Secret, the upgrade and the owned objects.\<close>

lemma server_goes:
  assumes "distinct (map db_name (spec_databases i))" and "conditionLaw L" and "stsReady sts" and "stays s i D j h"
  shows "wpa (obliging L F n) (\<lambda>_ _. True) (\<lambda>r j h. r = Inr () \<and> reportedReady s i j h) (reconcileServer L sts) j h"
proof -
  have schedules: "goes L F n s i declared (\<lambda>_. True) (reconcileScheduledBackups L)"
    unfolding reconcileScheduledBackups_def by (intro succeeds_forA frequency_goes)
  have version: "goes L F n s i declared (\<lambda>_. True) reconcileFirebirdVersion"
    by (rule version_goes) (simp add: declared_def)
  have "sts_readyReplicas sts \<noteq> 0" using assms(3) by (auto simp: stsReady_def)
  note databases = databases_go [OF assms(1) this assms(4)]
  have report: "wpa (obliging L F n) (\<lambda>_ _. True) (\<lambda>r j h. r = Inr () \<and> reportedReady s i j h)
      (if stsReady sts \<and> length (spec_databases k) \<le> length (status_databases k) then reportReady L else reportNotReady L) k h'"
    if "stays s i declared k h'" for k h'
  proof -
    have "length (spec_databases k) \<le> length (status_databases k)" using that by (auto simp: stays_defs declared_def)
    then show ?thesis using reportReady_goes [OF assms(2) that] assms(3) by simp
  qed
  show ?thesis
    unfolding reconcileServer_def wpa_thenA wpa_whenA wpa_withI if_P [OF assms(3)]
    by (rule wpa_mono [OF databases]) (auto intro!: succeedsD [OF schedules] succeedsD [OF version] report)
qed

lemma instance_goes:
  assumes "distinct (map db_name (spec_databases i))" and "conditionLaw L" and "nearlyThere i"
    and "mayMake n fuel i h" and "sameAs s i D j h"
  shows "wpa (obliging L (current i) n) (\<lambda>_ _. True) (\<lambda>r j h. r = Inr () \<and> reportedReady s i j h) (reconcileInstance L fuel) j h"
  unfolding reconcileInstance_def wpa_thenA wpa_bindA
  by (rule wpa_mono [OF secret_goes [OF assms(4,5)]])
    (auto simp: wprule intro!: succeedsD [OF upgrade_goes [OF assms(3)]] succeedsD [OF owned_goes] server_goes [OF assms(1,2)])

text \<open>What the whole reconcile leaves with the server.\<close>

definition becameReady :: "Instance \<Rightarrow> Instance \<Rightarrow> bool" where
  "becameReady i j =
     (in_spec j = in_spec i \<and> upgrade_of j = None \<and> st_phase (in_status j) = phaseReady
      \<and> set (status_databases j) = set (map db_name (spec_databases i)) \<and> st_error (in_status j) = [])"

lemma conclude_goes:
  assumes "reportedReady s i j h"
  shows "wpa (obliging L F n) (\<lambda>_ _. True) (\<lambda>r j h. r = Inr reconciled \<and> becameReady i (stored s h)) (conclude L (Inr ())) j h"
proof -
  have "errorEdit L None j = j" if "errorSettled L None j" using that by (rule reconcile_error.settled_edit)
  then show ?thesis
    using assms
    by (auto simp: conclude_def errorOf_def wprule reconcile_error.wpa_writer served_def reportedReady_def declared_def
        becameReady_def errorSettled_def errorEdit_def errorText_def)
qed

lemma mayMake_0: "mayMake 0 fuel i h"
  by (simp add: mayMake_def)

lemma found_goes:
  assumes "\<not> in_deleting i" and "nearlyThere i"
    and "distinct (map db_name (spec_databases i))" and "conditionLaw L" and "mayMake n fuel i []"
  shows "wpa (obliging L (current i) n) (\<lambda>_ _. True) (\<lambda>r j h. r = Inr reconciled \<and> becameReady i (stored i h)) (reconcileFound L fuel) i []"
proof -
  let ?A = "obliging L (current i) n" and ?T = "\<lambda>_ _. True"
  have finalizer: "wpa ?A ?T (\<lambda>r j h. r = Inr () \<and> sameAs i i (\<lambda>_. True) j h \<and> mayMake n fuel i h) (ensureFinalizer L) i []"
    using assms(5) by (simp add: ensureFinalizer_def wprule sameAs_def mayMake_def)
  have rest: "wpa ?A ?T (\<lambda>r j h. r = Inr reconciled \<and> becameReady i (stored i h))
      (tryA (reconcileInstance L fuel) (conclude L)) j h" if "sameAs i i (\<lambda>_. True) j h" "mayMake n fuel i h" for j h
    unfolding wpa_tryA
    by (rule wpa_mono [OF instance_goes [OF assms(3,4,2) that(2,1)]]) (auto intro: conclude_goes)
  show ?thesis
    using assms(1) unfolding reconcileFound_def
    by (simp add: wpa_withI wpa_thenA) (rule wpa_mono [OF finalizer], use rest in auto)
qed

text \<open>The draws that a missing Secret is worth: those within the fuel, when the operator may make it.\<close>

definition drawsFor :: "nat \<Rightarrow> Instance \<Rightarrow> nat" where
  "drawsFor fuel i = (if sy_secretRef (au_sysdba (sp_authentication (in_spec i))) = [] then fuel else 0)"

lemma mayMake_start: "mayMake (drawsFor fuel i) fuel i []"
  by (simp add: mayMake_def drawsFor_def)

text \<open>C12: A live instance becomes ready: when the cluster goes along, one reconcile of an instance whose
  database names are distinct, and that has no upgrade recorded or only its restore left, returns without
  an error and without asking for another run, and the instance the server then holds is \<open>Ready\<close>, has
  exactly the declared databases on record, and reports no error and no upgrade. The cluster goes along
  when it takes writes over; other objects are there or can be made, and owned; the SYSDBA Secret is
  there, or, when the spec names none, can be made from a password drawn within the fuel, and once it was
  found or made is found again; the server comes up and its pod is there; every command works; and a
  StatefulSet it has already calls for no upgrade that is not recorded.\<close>

theorem instance_becomes_ready:
  assumes "steps (Reconcile L fuel req) ((QGetInstance req, RInstance i) # tr) (Ret res)"
    and "\<not> in_deleting i" and "nearlyThere i" and "distinct (map db_name (spec_databases i))"
    and "conditionLaw L" and "answered (obliging L (current i) (drawsFor fuel i)) [] tr"
  shows "res = (None, None) \<and> becameReady i (stored i (rev tr))"
proof -
  let ?A = "obliging L (current i) (drawsFor fuel i)"
  have "wpa ?A (\<lambda>_ _. True) (\<lambda>r j h. resultOf r = (None, None) \<and> becameReady i (stored i h)) (reconcileFound L fuel) i []"
    by (rule wpa_mono [OF found_goes [OF assms(2-5) mayMake_start]]) (auto simp: resultOf_def reconciled_def)
  from Reconcile_result [OF assms(1), where Q = "\<lambda>res h. res = (None, None) \<and> becameReady i (stored i h)", OF this assms(6)]
  show ?thesis by simp
qed

text \<open>A new instance, whose database has neither a file nor a backup yet.\<close>

definition newInstance :: Instance where
  "newInstance = (sampleInstance ''5.0'')\<lparr>in_finalizers := [],
     in_status := sampleStatus\<lparr>st_databases := [], st_databaseCount := 0, st_phase := []\<rparr>\<rparr>"

definition plainCronJob :: CronJob where
  "plainCronJob = \<lparr>cj_meta = noMeta, cj_spec = \<lparr>cj_schedule = [], cj_concurrencyPolicy = [],
     cj_successfulJobsHistoryLimit = None, cj_failedJobsHistoryLimit = None, cj_jobLabels = Map.empty,
     cj_backoffLimit = None, cj_activeDeadlineSeconds = None,
     cj_template = \<lparr>pt_labels = Map.empty, pt_annotations = Map.empty, pt_spec = emptyPodSpec\<rparr>\<rparr>\<rparr>"

text \<open>Its Secret is missing until the operator makes it.\<close>

definition madeSecret :: "nsname \<Rightarrow> Secret" where
  "madeSecret k = \<lparr>sec_meta = noMeta\<lparr>om_namespace := fst k, om_name := snd k\<rparr>,
     sec_data = [sysdbaSecretPasswordKey \<mapsto> ''masterkey''], sec_stringData = Map.empty\<rparr>"

fun obligingCluster :: "event list \<Rightarrow> request \<Rightarrow> answer" where
  "obligingCluster h (QGetInstance k) = RInstance newInstance"
| "obligingCluster h (QGetSecret k) = (if secretThere h k then RSecret (madeSecret k) else RErr (ApiNotFound ''not found''))"
| "obligingCluster h (QRand n) = zeroDraw"
| "obligingCluster h (QStoreSts sts) = RSts (sts\<lparr>sts_readyReplicas := 1\<rparr>)"
| "obligingCluster h (QGetPod k) = RPod (finishedPod ''Running'')"
| "obligingCluster h (QGetCronJob k) = RErr (ApiNotFound ''not found'')"
| "obligingCluster h (QFetchCronJob k) = RCronJob plainCronJob"
| "obligingCluster h (QStoreCronJob cj) = RCronJob cj"
| "obligingCluster h (QExec ns p cmd s) =
     (if hd cmd = ''test'' then RExec [] [] (Some (CodeExit 1 []))
      else RExec ''Server version: LI-V5.0.2.1613 Firebird 5.0'' [] None)"
| "obligingCluster h q = cluster newInstance None None h q"

lemma version_named: "findVersion ''Server version: LI-V5.0.2.1613 Firebird 5.0'' \<noteq> None"
  by code_simp

lemma sample_ownable: "ownable sampleLib m"
  by (simp add: ownable_def sampleLib_def)

lemma putCondition_law: "putCondition cs c = (cs', False) \<Longrightarrow> cs' = cs"
proof (induction cs arbitrary: cs')
  case (Cons d ds)
  then show ?case by (cases "putCondition ds c") (auto split: if_splits)
qed simp

lemma sample_conditionLaw: "conditionLaw sampleLib"
  using putCondition_law by (auto simp: conditionLaw_def sampleLib_def)

lemma zeroDraw_fit: "isDraw zeroDraw" "\<not> dashed zeroDraw"
proof -
  show "isDraw zeroDraw" by (simp add: isDraw_def zeroDraw_def generatedPasswordLength_def)
  show "\<not> dashed zeroDraw" by code_simp
qed

lemma obligingCluster_obliges: "n \<noteq> 0 \<Longrightarrow> obliging sampleLib (current newInstance) n h q (obligingCluster h q)"
  by (cases q) (auto simp: absent_def exitsNonZero_def sample_ownable stsReady_def version_named zeroDraw_fit
    simp del: findVersion.simps not_None_eq)

text \<open>The run that an environment answering by the history gives, from what a wpa says of the program.\<close>

lemma reconcile_run:
  assumes "wpa A (\<lambda>_ _. True) Q (reconcileFound L fuel) i []" and "\<And>h q. A h q (env h q)"
  shows "\<exists>tr res. steps (Reconcile L fuel req) ((QGetInstance req, RInstance i) # tr) (Ret res) \<and> answered A [] tr"
proof -
  let ?p = "bindIO (reconcileFound L fuel i) (\<lambda>(res, j). Ret (resultOf res))"
  have "wp A (\<lambda>_ _. True) (\<lambda>_ _. True) ?p []"
    unfolding wp_bindIO by (rule wp_mono [OF assms(1) [unfolded wpa_def]]) auto
  from wp_run [OF this, where I = "\<lambda>_. True" and env = env and B = A] assms(2)
  obtain tr res where "steps ?p tr (Ret res)" "answered A [] tr" by auto
  moreover from this(1) have "steps (Reconcile L fuel req) ((QGetInstance req, RInstance i) # tr) (Ret res)"
    unfolding Reconcile_def by (intro steps.call) simp
  ultimately show ?thesis by blast
qed

lemma newInstance_simps:
  "\<not> in_deleting newInstance" "nearlyThere newInstance" "distinct (map db_name (spec_databases newInstance))"
  "drawsFor 1 newInstance = 1"
  by (simp_all add: newInstance_def nearlyThere_def sample_defs drawsFor_def)

lemma instance_becomes_ready_witness:
  "\<exists>tr. steps sampleReconcile ((QGetInstance (''ns'', ''db''), RInstance newInstance) # tr) (Ret (None, None))
     \<and> becameReady newInstance (stored newInstance (rev tr))"
proof -
  let ?A = "obliging sampleLib (current newInstance) (drawsFor 1 newInstance)"
  have "?A h q (obligingCluster h q)" for h q
    unfolding newInstance_simps by (rule obligingCluster_obliges) simp
  from reconcile_run [OF found_goes [OF newInstance_simps(1-3) sample_conditionLaw mayMake_start [of 1]] this]
  obtain tr res where run: "steps sampleReconcile ((QGetInstance (''ns'', ''db''), RInstance newInstance) # tr) (Ret res)"
    and tr: "answered ?A [] tr" by blast
  from instance_becomes_ready [OF run newInstance_simps(1-3) sample_conditionLaw tr] run show ?thesis by blast
qed

end
