(* ===== verification/Upgraded.thy ===== *)
theory Upgraded
  imports Ready Progress
begin

text \<open>
  An upgrade gets done, from its beginning to its end: what Progress shows of the stages and Ready of the
  rest of a reconcile, put together.
\<close>

text \<open>A cluster that goes along with an upgrade and with what follows it: the old server stands still and its
  backup pod has succeeded, what is deleted goes, and the new server comes up once it is stored.\<close>

definition willing :: "lib \<Rightarrow> Instance \<Rightarrow> StatefulSet \<Rightarrow> nat \<Rightarrow> event list \<Rightarrow> request \<Rightarrow> answer \<Rightarrow> bool" where
  "willing L i sts n h q r = (yielding (backupPodOf i) sts h q r \<and> obliging L (\<lambda>_. True) n h q r)"

lemma wp_answers:
  "wp A G Q p h \<Longrightarrow> (\<And>h q r. A' h q r \<Longrightarrow> A h q r) \<Longrightarrow> wp A' G Q p h"
  by (induction p arbitrary: h) auto

lemma wpa_willing:
  "wpa (yielding (backupPodOf i) sts) G Q m j h \<Longrightarrow> wpa (willing L i sts n) G Q m j h"
  "wpa (obliging L (\<lambda>_. True) n) G Q m j h \<Longrightarrow> wpa (willing L i sts n) G Q m j h"
  unfolding wpa_def willing_def by (erule wp_answers; simp)+

text \<open>A reconcile of an instance whose upgrade is due.\<close>

lemma upgrade_instance_goes:
  assumes "standsStill sts" and "dueUpgrade sts j u" and "distinct (map db_name (spec_databases j))"
    and "conditionLaw L" and "stored s h = j" and "mayMake n fuel j h" and pod: "in_key i = in_key j"
  shows "wpa (willing L i sts n) (\<lambda>_ _. True)
    (\<lambda>r k h. r = Inr () \<and> (\<exists>j'. in_spec j' = in_spec j \<and> reportedReady s j' k h)) (reconcileInstance L fuel) j h"
proof -
  let ?A = "willing L i sts n" and ?T = "\<lambda>_ _. True"
  let ?Q = "\<lambda>r k h. r = Inr () \<and> (\<exists>j'. in_spec j' = in_spec j \<and> reportedReady s j' k h)"
  have same: "sameAs s j (\<lambda>k. k = j) j h" using assms(5) by (simp add: sameAs_def)
  have secret: "wpa ?A ?T (\<lambda>r k h. r = Inr () \<and> k = j \<and> secretThere h (secretKey j)) (reconcileSysdbaSecret fuel) j h"
    by (rule wpa_willing(2), rule wpa_mono [OF secret_goes [OF assms(6) same]]) (simp_all add: stays_defs)
  have upgrade: "wpa ?A ?T (\<lambda>r k h. becomes_restoring j (up_fromVersion u) (afterwards j u) False r k h \<and> secretThere h (secretKey j))
      (reconcileMajorUpgrade L) j h'" if "secretThere h' (secretKey j)" for h'
  proof -
    have "backupPodOf i = backupPodOf j" using pod by (simp add: databaseBackupPodName_def)
    from wpa_willing(1) [OF reconcileMajorUpgrade_yields [OF assms(1,2) this]]
    show ?thesis
      by (rule wpa_mono [OF wpa_extends]) (use that in \<open>auto intro: secretThere_mono\<close>)
  qed
  have serve: "wpa ?A ?T ?Q (bindA (reconcileOwned L) (reconcileServer L)) k h'"
    if "restoring j (up_fromVersion u) (afterwards j u) k" "secretThere h' (secretKey j)" for k h'
  proof -
    have "in_spec k = in_spec j" "in_key k = in_key j" using that by (simp_all add: restoring_def)
    then have k: "in_spec k = in_spec j" "stays s k (\<lambda>_. True) k h'"
      using that secretKey_same [of k j] by (simp_all add: restoring_def stays_defs secretKey_def)
    have d: "distinct (map db_name (spec_databases k))" using assms(3) k(1) by simp
    have server: "wpa (obliging L (\<lambda>_. True) n) ?T (\<lambda>r l h. r = Inr () \<and> reportedReady s k l h) (reconcileServer L sts') l h"
      if "stsReady sts'" and "stays s k (\<lambda>_. True) l h" for sts' l h
      by (rule server_goes [OF d assms(4) that])
    have serving: "wpa (obliging L (\<lambda>_. True) n) ?T (\<lambda>r l h. r = Inr () \<and> reportedReady s k l h)
        (bindA (reconcileOwned L) (reconcileServer L)) k h'"
      by (rule succeeds_before [OF owned_goes k(2)]) (rule server)
    show ?thesis
      by (rule wpa_mono [OF wpa_willing(2) [OF serving]]) (use k(1) in auto)
  qed
  show ?thesis
    unfolding reconcileInstance_def wpa_thenA wpa_bindA [where m = "reconcileMajorUpgrade L"]
    by (rule wpa_mono [OF secret]) (auto intro!: wpa_mono [OF upgrade] serve)
qed

lemma upgrade_found_goes:
  assumes "\<not> in_deleting i" and "standsStill sts" and "dueUpgrade sts i u"
    and "distinct (map db_name (spec_databases i))" and "conditionLaw L" and "mayMake n fuel i []"
  shows "wpa (willing L i sts n) (\<lambda>_ _. True) (\<lambda>r j h. r = Inr reconciled \<and> becameReady i (stored i h))
    (reconcileFound L fuel) i []"
proof -
  let ?A = "willing L i sts n" and ?T = "\<lambda>_ _. True"
  let ?Q = "\<lambda>r j h. r = Inr reconciled \<and> becameReady i (stored i h)"
  let ?begun = "\<lambda>j h. stored i h = j \<and> in_spec j = in_spec i \<and> upgrade_of j = upgrade_of i \<and> in_key i = in_key j
    \<and> mayMake n fuel i h"
  have finalizer: "wpa ?A ?T (\<lambda>r j h. r = Inr () \<and> ?begun j h) (ensureFinalizer L) i []"
    by (rule wpa_willing(2)) (use assms(6) in \<open>simp add: ensureFinalizer_def wprule mayMake_def\<close>)
  have conclude: "wpa ?A ?T ?Q (conclude L (Inr ())) k h" if "in_spec j' = in_spec i" "reportedReady i j' k h" for j' k h
    by (rule wpa_willing(2), rule wpa_mono [OF conclude_goes [OF that(2)]]) (use that(1) in \<open>auto simp: becameReady_def\<close>)
  have rest: "wpa ?A ?T ?Q (tryA (reconcileInstance L fuel) (conclude L)) j h" if begun: "?begun j h" for j h
  proof -
    have j: "stored i h = j" "in_spec j = in_spec i" "in_key i = in_key j" using begun by simp_all
    have "backupVolumeSpec j = backupVolumeSpec i" using begun by (simp add: backupVolumeSpec_def)
    with begun assms(3) have due: "dueUpgrade sts j u"
      by (cases "upgrade_of i") (simp_all add: dueUpgrade_def)
    have d: "distinct (map db_name (spec_databases j))" using begun assms(4) by simp
    have make: "mayMake n fuel j h" using begun by (simp add: mayMake_def)
    show ?thesis
      unfolding wpa_tryA
      by (rule wpa_mono [OF upgrade_instance_goes [OF assms(2) due d assms(5) j(1) make j(3)]])
        (auto simp: j(2) intro!: conclude)
  qed
  show ?thesis
    using assms(1) unfolding reconcileFound_def
    by (simp add: wpa_withI wpa_thenA) (rule wpa_mono [OF finalizer], use rest in auto)
qed

text \<open>C14: An upgrade gets done: when it is due, recorded in whatever stage or only asked for by the spec, and the
  cluster goes along, one reconcile takes the instance from there to the end: it returns without an error
  and without asking for another run, and the instance the server then holds is \<open>Ready\<close>, with exactly the
  declared databases on record, no upgrade and no error. The cluster goes along as for an instance that
  becomes ready (C12); besides, the old server stands still, its backup pod, whenever it is looked for, has
  succeeded, and a volume that this run has deleted, and not made again, is gone when it is looked for,
  while all others, the backup volume among them, may be found.\<close>

theorem upgrade_completes:
  assumes "steps (Reconcile L fuel req) ((QGetInstance req, RInstance i) # tr) (Ret res)"
    and "\<not> in_deleting i" and "dueUpgrade sts i u"
    and "sts_replicas sts = Some 0" and "sts_statusReplicas sts = 0"
    and "distinct (map db_name (spec_databases i))" and "conditionLaw L"
    and "answered (willing L i sts (drawsFor fuel i)) [] tr"
  shows "res = (None, None) \<and> becameReady i (stored i (rev tr))"
proof -
  let ?A = "willing L i sts (drawsFor fuel i)"
  have "wpa ?A (\<lambda>_ _. True) (\<lambda>r j h. resultOf r = (None, None) \<and> becameReady i (stored i h)) (reconcileFound L fuel) i []"
    by (rule wpa_mono [OF upgrade_found_goes [OF assms(2) _ assms(3,6,7) mayMake_start]])
      (use assms(4,5) in \<open>auto simp: resultOf_def reconciled_def\<close>)
  from Reconcile_result [OF assms(1), where Q = "\<lambda>res h. res = (None, None) \<and> becameReady i (stored i h)", OF this assms(8)]
  show ?thesis by simp
qed


text \<open>The stopped server of version 4 with its finished backup pod and all its volumes, and an instance that asks
  for version 5, whose pod then runs.\<close>

definition foundPvc :: "nsname \<Rightarrow> PVC" where
  "foundPvc k = \<lparr>pvc_meta = noMeta\<lparr>om_namespace := fst k, om_name := snd k\<rparr>, pvc_accessModes = [''ReadWriteOnce''],
     pvc_size = ''1Gi'', pvc_class = None\<rparr>"

fun upgradingCluster :: "event list \<Rightarrow> request \<Rightarrow> answer" where
  "upgradingCluster h (QGetPvc k) = (if goneSince h k then RErr (ApiNotFound ''not found'') else RPvc (foundPvc k))"
| "upgradingCluster h (QGetPod k) =
     RPod (finishedPod (if k = backupPodOf asksForFive then PodSucceeded else ''Running''))"
| "upgradingCluster h (QRand n) = zeroDraw"
| "upgradingCluster h (QStoreSts sts) = RSts (sts\<lparr>sts_readyReplicas := 1\<rparr>)"
| "upgradingCluster h (QGetCronJob k) = RErr (ApiNotFound ''not found'')"
| "upgradingCluster h (QFetchCronJob k) = RCronJob plainCronJob"
| "upgradingCluster h (QStoreCronJob cj) = RCronJob cj"
| "upgradingCluster h (QExec ns p cmd s) =
     (if hd cmd = ''test'' then RExec [] [] (Some (CodeExit 1 []))
      else RExec ''Server version: LI-V5.0.2.1613 Firebird 5.0'' [] None)"
| "upgradingCluster h q = cluster asksForFive (Some stoppedFour) None h q"

lemma upgradingCluster_willing: "willing sampleLib asksForFive stoppedFour n h q (upgradingCluster h q)"
  by (cases q) (auto simp: willing_def absent_def exitsNonZero_def gone_def sample_ownable stsReady_def version_named
    stoppedFour_def zeroDraw_fit simp del: findVersion.simps not_None_eq)

lemma upgrade_completes_witness:
  "\<exists>tr. steps sampleReconcile ((QGetInstance (''ns'', ''db''), RInstance asksForFive) # tr) (Ret (None, None))
     \<and> becameReady asksForFive (stored asksForFive (rev tr))"
proof -
  let ?A = "willing sampleLib asksForFive stoppedFour (drawsFor 1 asksForFive)"
  let ?u = "\<lparr>up_fromVersion = ''4.0.3'', up_toVersion = ''5.0.1'', up_stage = BackingUp\<rparr>"
  have due: "dueUpgrade stoppedFour asksForFive ?u" by code_simp
  have still: "sts_replicas stoppedFour = Some 0" "sts_statusReplicas stoppedFour = 0"
    and five: "\<not> in_deleting asksForFive" "distinct (map db_name (spec_databases asksForFive))"
    by (simp_all add: asksForFive_def stoppedFour_def sample_defs)
  from reconcile_run [OF upgrade_found_goes [OF five(1) conjI [OF still] due five(2) sample_conditionLaw mayMake_start [of 1]]
      upgradingCluster_willing]
  obtain tr res where run: "steps sampleReconcile ((QGetInstance (''ns'', ''db''), RInstance asksForFive) # tr) (Ret res)"
    and tr: "answered ?A [] tr" by blast
  from upgrade_completes [OF run five(1) due still five(2) sample_conditionLaw tr] run show ?thesis by blast
qed

end
