(* ===== verification/WellFormed.thy ===== *)
theory WellFormed
  imports Samples
begin

text \<open>
  What every status the operator writes satisfies, whatever the cluster answers: the recorded databases
  are listed once each and counted, the phase is one the API documents, and an instance is not called
  ready while an upgrade is recorded.
\<close>

definition wellFormed :: "Instance \<Rightarrow> bool" where
  "wellFormed i =
     (distinct (map db_name (spec_databases i)) \<and> distinct (status_databases i)
      \<and> st_databaseCount (in_status i) = word_of_nat (length (status_databases i))
      \<and> st_phase (in_status i) \<in> {[], phaseProvisioning, phaseReady, phaseUpgrading, phaseDeleting}
      \<and> (st_phase (in_status i) = phaseReady \<longrightarrow> upgrade_of i = None))"

section \<open>Keeping an invariant of the object\<close>

text \<open>\<open>m\<close> keeps \<open>W\<close>: started with an object in \<open>W\<close> it only writes objects in \<open>W\<close> and leaves one.\<close>

definition keeps :: "(Instance \<Rightarrow> bool) \<Rightarrow> 'a act \<Rightarrow> bool" where
  "keeps W m = (\<forall>i h. W i \<longrightarrow> wpa echoes (\<lambda>_. sameIn W True) (\<lambda>r j h'. W j) m i h)"

lemma keepsI: "(\<And>i h. W i \<Longrightarrow> wpa echoes (\<lambda>_. sameIn W True) (\<lambda>r j h'. W j) m i h) \<Longrightarrow> keeps W m"
  by (simp add: keeps_def)

lemma keepsD:
  assumes "keeps W m" and "W i" and "\<And>r j h'. W j \<Longrightarrow> Q r j h'"
  shows "wpa echoes (\<lambda>_. sameIn W True) Q m i h"
  by (rule wpa_mono [OF assms(1) [unfolded keeps_def, rule_format, OF assms(2)]]) (use assms(3) in auto)

lemma keeps_strongerD:
  assumes "keeps V m" and "V i" and "\<And>j. V j \<Longrightarrow> W j" and "\<And>r j h'. V j \<Longrightarrow> Q r j h'"
  shows "wpa echoes (\<lambda>_. sameIn W True) Q m i h"
proof (rule wpa_mono [OF assms(1) [unfolded keeps_def, rule_format, OF assms(2)]])
  show "sameIn W True q" if "sameIn V True q" for q
    using that assms(3) by (cases q) auto
qed (use assms(4) in auto)

named_theorems kept \<open>introduction rules for what keeps an invariant of the object\<close>

lemma keeps_steady: "steady W m \<Longrightarrow> keeps W m"
proof (rule keepsI)
  fix i h assume "steady W m" and "W i"
  then show "wpa echoes (\<lambda>_. sameIn W True) (\<lambda>r j h'. W j) m i h"
    using spec [OF spec [OF \<open>steady W m\<close> [unfolded steady_def], of i], of h] by simp
qed

lemma keeps_withI [kept]: "(\<And>i. W i \<Longrightarrow> keeps W (f i)) \<Longrightarrow> keeps W (withI f)"
  by (simp add: keeps_def wpa_withI)

lemma keeps_ok [kept]: "keeps W (ok x)"
  by (simp add: keeps_def wpa_ok)

lemma keeps_failA [kept]: "keeps W (failA e)"
  by (simp add: keeps_def wpa_failA)

lemma keeps_modifyI [kept]: "(\<And>i. W i \<Longrightarrow> W (g i)) \<Longrightarrow> keeps W (modifyI g)"
  by (simp add: keeps_def wpa_modifyI)

lemma keeps_callA [kept]: "\<not> writes_object q \<Longrightarrow> keeps W (callA q proj)"
  by (rule keeps_steady) (rule steady_callA)

lemma keeps_tryA [kept]: "keeps W m \<Longrightarrow> (\<And>r. keeps W (f r)) \<Longrightarrow> keeps W (tryA m f)"
  by (rule keepsI, unfold wpa_tryA, rule keepsD, assumption+) (simp add: keeps_def)

lemma keeps_bindA [kept]: "keeps W m \<Longrightarrow> (\<And>x. keeps W (f x)) \<Longrightarrow> keeps W (bindA m f)"
  unfolding bindA_def by (rule keeps_tryA) (auto intro: kept split: sum.split)

lemma keeps_thenA [kept]: "keeps W m \<Longrightarrow> keeps W n \<Longrightarrow> keeps W (thenA m n)"
  unfolding thenA_def by (rule keeps_bindA)

lemma keeps_wrapA [kept]: "keeps W m \<Longrightarrow> keeps W (wrapA pre m)"
  unfolding wrapA_def by (rule keeps_tryA) (auto intro: kept split: sum.split)

lemma keeps_whenA [kept]: "(b \<Longrightarrow> keeps W m) \<Longrightarrow> keeps W (whenA b m)"
  by (simp add: whenA_def keeps_ok)

lemma keeps_if [kept]: "(b \<Longrightarrow> keeps W m) \<Longrightarrow> (\<not> b \<Longrightarrow> keeps W n) \<Longrightarrow> keeps W (if b then m else n)"
  by simp

lemma keeps_option [kept]:
  "(r = None \<Longrightarrow> keeps W m) \<Longrightarrow> (\<And>x. r = Some x \<Longrightarrow> keeps W (g x)) \<Longrightarrow> keeps W (case r of None \<Rightarrow> m | Some x \<Rightarrow> g x)"
  by (cases r) auto

lemma keeps_sum [kept]:
  "(\<And>e. r = Inl e \<Longrightarrow> keeps W (f e)) \<Longrightarrow> (\<And>x. r = Inr x \<Longrightarrow> keeps W (g x))
   \<Longrightarrow> keeps W (case r of Inl e \<Rightarrow> f e | Inr x \<Rightarrow> g x)"
  by (cases r) auto

lemma keeps_updateStatus [kept]: "keeps W updateStatus"
  by (rule keepsI) (auto simp: wpa_updateStatus asInstance_Inr)

lemma keeps_updateInstance [kept]: "keeps W updateInstance"
  by (rule keepsI) (auto simp: wpa_updateInstance asInstance_Inr)

section \<open>The writers\<close>

lemma wellFormed_edits [simp]:
  "wellFormed (upd_status (\<lambda>s. s\<lparr>st_message := m\<rparr>) i) = wellFormed i"
  "wellFormed (upd_status (\<lambda>s. s\<lparr>st_message := m, st_error := e\<rparr>) i) = wellFormed i"
  "wellFormed (upd_status (\<lambda>s. s\<lparr>st_error := e, st_message := summary s\<rparr>) i) = wellFormed i"
  "wellFormed (upd_status (\<lambda>s. s\<lparr>st_firebirdVersion := v\<rparr>) i) = wellFormed i"
  "wellFormed (availableEdit L st rs msg i) = wellFormed i"
  "wellFormed (errorEdit L err i) = wellFormed i"
  "wellFormed (i\<lparr>in_finalizers := fs\<rparr>) = wellFormed i"
  by (simp_all add: wellFormed_def availableEdit_def errorEdit_def)

lemma keeps_steady_steps [kept]:
  "keeps wellFormed (setProgress m)" "keeps wellFormed (setDeletionMessage m)"
  "keeps wellFormed (setError L err)" "keeps wellFormed (setAvailable L st rs msg)"
  "keeps wellFormed (backupDatabases L v)" "keeps wellFormed releasePrimaryAndShadowStorage"
  "keeps wellFormed (reconcileSysdbaSecret fuel)" "keeps wellFormed reconcilePVCs"
  "keeps wellFormed (createOrUpdate (QFetchConfigMap k) asConfigMap QStoreConfigMap (\<lambda>cm. liftA (fcm cm)))"
  "keeps wellFormed (reconcileScheduledBackups L)" "keeps wellFormed reconcileFirebirdVersion"
  by (auto intro!: keeps_steady keep)


lemma keeps_setPhase:
  assumes "p \<in> {phaseProvisioning, phaseUpgrading, phaseDeleting}"
  shows "keeps wellFormed (setPhase p)"
proof -
  have "wellFormed (upd_status (\<lambda>s. s\<lparr>st_phase := p\<rparr>) i)" if "wellFormed i" for i
    using that assms by (auto simp: wellFormed_def phaseReady_def phaseProvisioning_def phaseUpgrading_def phaseDeleting_def)
  then show ?thesis
    by (intro keepsI) (auto simp: phase.wpa_writer asInstance_Inr)
qed

lemma keeps_setUpgradeStage [kept]: "keeps wellFormed (setUpgradeStage stage)"
  unfolding setUpgradeStage_def withUpgrade_def
  by (rule keepsI) (auto simp: wprule asInstance_Inr wellFormed_def)

lemma keeps_awaitPvcsGone [kept]: "keeps wellFormed (awaitPvcsGone names)"
  by (induction names) (auto intro!: kept simp: withUpgrade_def)

lemma keeps_continueUpgrade [kept]: "keeps wellFormed (continueUpgrade L sts)"
proof -
  have "wellFormed (upd_status clearDatabases i)" if "wellFormed i" for i
    using that by (auto simp: wellFormed_def clearDatabases_def)
  then show ?thesis
    unfolding continueUpgrade_def upgradeBackup_def upgradeRelease_def releaseStorageForUpgrade_def withUpgrade_def
    by (intro kept)
qed

lemma keeps_startMajorUpgrade [kept]: "keeps wellFormed (startMajorUpgrade sts)"
proof -
  have "wellFormed (beginUpgrade v i)" if "wellFormed i" for v i
    using that by (auto simp: wellFormed_def beginUpgrade_def phaseReady_def phaseUpgrading_def)
  then show ?thesis
    unfolding startMajorUpgrade_def Let_def by (auto intro!: kept split: upgradeDecision.split)
qed

lemma keeps_reconcileMajorUpgrade [kept]: "keeps wellFormed (reconcileMajorUpgrade L)"
  unfolding reconcileMajorUpgrade_def by (intro kept) auto

lemma keeps_reconcileOwned [kept]: "keeps wellFormed (reconcileOwned L)"
  unfolding reconcileOwned_def by (auto intro!: keeps_steady keep)

text \<open>Recording the databases: what is pending is not on record, so nothing gets listed twice.\<close>

lemma recorded_wellFormed:
  assumes "wellFormed i"
  shows "wellFormed (upd_status (recordDatabases (removedDatabases i) (pendingDatabases i) w) i)"
proof -
  have "distinct (map db_name (pendingDatabases i))"
    using assms by (auto simp: wellFormed_def pendingDatabases_def distinct_map_filter)
  then show ?thesis
    using assms by (auto simp: wellFormed_def recordDatabases_def Let_def pendingDatabases_def)
qed

lemma keeps_reconcileDatabases [kept]: "keeps wellFormed (reconcileDatabases ready)"
proof (rule keepsI)
  fix i h assume i: "wellFormed i"
  let ?same = "\<lambda>j. j = i"
  have same: "keeps ?same sysdbaPassword" "keeps ?same (orphanWarning p dbs)"
      "keeps ?same (forA names (dropDatabase p pw))" "keeps ?same (forA dbs (provisionDatabase p pw))" for p pw names dbs
    by (auto intro!: keeps_steady keep)
  have recording: "wpa echoes (\<lambda>_. sameIn wellFormed True) (\<lambda>r j h'. wellFormed j)
      (thenA (modifyI (upd_status (recordDatabases (removedDatabases i) (pendingDatabases i) w))) updateStatus) i h'" for w h'
    using recorded_wellFormed [OF i, of w] by (auto simp: wprule asInstance_Inr)
  note step = same [THEN keeps_strongerD, where W = wellFormed]
  show "wpa echoes (\<lambda>_. sameIn wellFormed True) (\<lambda>r j h'. wellFormed j) (reconcileDatabases ready) i h"
    unfolding reconcileDatabases_def
    by (auto simp: wpa_ok wpa_withI wpa_bindA wpa_thenA Let_def i
        intro!: step recording [simplified wpa_thenA, simplified])
qed

section \<open>The whole reconcile\<close>

text \<open>Ready is only said once the upgrade has been taken off the record.\<close>

lemma keeps_reportReady [kept]: "keeps wellFormed (reportReady L)"
proof -
  let ?done = "\<lambda>i. wellFormed i \<and> upgrade_of i = None"
  have finish: "wpa echoes (\<lambda>_. sameIn wellFormed True) (\<lambda>r j h'. wellFormed j \<and> (r = Inr () \<longrightarrow> ?done j)) finishMajorUpgrade i h"
    if "wellFormed i" for i h
    using that by (auto simp: finishMajorUpgrade_def wprule asInstance_Inr wellFormed_def)
  have phase: "wpa echoes (\<lambda>_. sameIn wellFormed True) (\<lambda>r j h'. wellFormed j) (setPhase phaseReady) i h" if "?done i" for i h
  proof -
    have "wellFormed (upd_status (\<lambda>s. s\<lparr>st_phase := phaseReady\<rparr>) i)" using that by (simp add: wellFormed_def)
    then show ?thesis by (auto simp: phase.wpa_writer asInstance_Inr)
  qed
  show ?thesis
    unfolding reportReady_def
    by (rule keepsI, unfold wpa_thenA, rule wpa_mono [OF finish])
      (auto intro!: wpa_mono [OF phase] keepsD [OF keeps_steady_steps(4)])
qed

lemma keeps_reconcileServer [kept]: "keeps wellFormed (reconcileServer L sts)"
  unfolding reconcileServer_def reportNotReady_def
  by (intro kept keeps_setPhase) auto

lemma keeps_conclude [kept]: "keeps wellFormed (conclude L r)"
  unfolding conclude_def by (intro kept)

lemma keeps_finalBackup [kept]: "keeps wellFormed (finalBackup L)"
  unfolding finalBackup_def by (intro kept)

lemma keeps_reconcileDeletion [kept]: "keeps wellFormed (reconcileDeletion L)"
  unfolding reconcileDeletion_def deletionSteps_def removeFinalizer_def dropFinalizer_def
  by (intro kept keeps_setPhase) auto

lemma keeps_reconcileFound: "keeps wellFormed (reconcileFound L fuel)"
  unfolding reconcileFound_def ensureFinalizer_def reconcileInstance_def
  by (intro kept) auto

text \<open>C10: Every instance the operator writes is well formed when the one it read was, in whatever state the
  cluster is and wherever the reconcile fails or is cut off: the databases on record are listed once
  each and their count is their number, the phase is none or one of \<open>Provisioning\<close>, \<open>Ready\<close>,
  \<open>Upgrading\<close> and \<open>Deleting\<close>, and it is \<open>Ready\<close> only when no upgrade is recorded. It takes that the
  declared names are distinct (the CRD's list map key) and that accepted writes are echoed.\<close>

theorem status_stays_well_formed:
  assumes "steps (Reconcile L fuel req) ((QGetInstance req, RInstance i) # tr) p"
    and "wellFormed i" and "honest tr"
    and "(QUpdateStatus j, a) \<in> set tr \<or> (QUpdateInstance j, a) \<in> set tr"
  shows "wellFormed j"
proof -
  have written: "wpa echoes (\<lambda>_. sameIn wellFormed True) (\<lambda>_ _ _. True) (reconcileFound L fuel) i []"
    by (rule keepsD [OF keeps_reconcileFound assms(2)]) simp
  have "sameIn wellFormed True q" if "(q, a) \<in> set tr" for q
  proof -
    from that obtain pre post where tr: "tr = pre @ (q, a) # post" by (meson split_list)
    show ?thesis
      by (rule Reconcile_guard [OF assms(1) [unfolded tr] written])
        (use assms(3) in \<open>simp add: answered_echoes tr\<close>)
  qed
  with assms(4) show ?thesis by fastforce
qed


text \<open>A new instance: the first write puts the finalizer on.\<close>

definition unfinalized :: Instance where
  "unfinalized = (sampleInstance ''5.0'')\<lparr>in_finalizers := []\<rparr>"

lemma status_stays_well_formed_witness:
  "\<exists>p. steps sampleReconcile ((QGetInstance (''ns'', ''db''), RInstance unfinalized)
      # [(QUpdateInstance (sampleInstance ''5.0''), RInstance (sampleInstance ''5.0''))]) p
    \<and> wellFormed (sampleInstance ''5.0'')"
proof -
  have "\<exists>p. steps sampleReconcile ((QGetInstance (''ns'', ''db''), RInstance unfinalized)
      # [(QUpdateInstance (sampleInstance ''5.0''), RInstance (sampleInstance ''5.0''))]) p"
    unfolding Reconcile_def
    by (rule exI, rule steps.call, simp add: reconcileFound_def ensureFinalizer_def act_defs unfinalized_def sample_defs)
      (rule steps.call, rule steps.stop)
  then obtain p where run: "steps sampleReconcile ((QGetInstance (''ns'', ''db''), RInstance unfinalized)
      # [(QUpdateInstance (sampleInstance ''5.0''), RInstance (sampleInstance ''5.0''))]) p" ..
  have "wellFormed unfinalized" by (simp add: wellFormed_def unfinalized_def sample_defs)
  from status_stays_well_formed [OF run this] run show ?thesis by auto
qed

end
