(* ===== verification/Budget.thy ===== *)
theory Budget
  imports Samples
begin

text \<open>
  A reconcile ends: however the cluster answers, the number of requests it makes is bounded by the fuel
  of the password loop, the databases to drop and the databases declared.
\<close>

section \<open>Counting requests\<close>

text \<open>\<open>m\<close> makes at most \<open>n\<close> requests from any object in \<open>W\<close>, and leaves one in \<open>W\<close>.\<close>

definition costs :: "(Instance \<Rightarrow> bool) \<Rightarrow> nat \<Rightarrow> 'a act \<Rightarrow> bool" where
  "costs W n m = (\<forall>i h. W i \<longrightarrow>
     wpa echoes (\<lambda>h' q. length h' < length h + n) (\<lambda>r j h'. W j \<and> length h' \<le> length h + n) m i h)"

named_theorems budget \<open>introduction rules for the number of requests of an action\<close>

lemma costsI:
  "(\<And>i h. W i \<Longrightarrow> wpa echoes (\<lambda>h' q. length h' < length h + n) (\<lambda>r j h'. W j \<and> length h' \<le> length h + n) m i h)
   \<Longrightarrow> costs W n m"
  by (simp add: costs_def)

lemma costsD:
  assumes "costs W n m" and "W i"
    and "\<And>h' q. length h' < length h + n \<Longrightarrow> G h' q"
    and "\<And>r j h'. W j \<Longrightarrow> length h' \<le> length h + n \<Longrightarrow> Q r j h'"
  shows "wpa echoes G Q m i h"
  by (rule wpa_mono [OF assms(1) [unfolded costs_def, rule_format, OF assms(2)]]) (use assms(3,4) in auto)

lemma costs_mono: "costs W n m \<Longrightarrow> n \<le> k \<Longrightarrow> costs W k m"
  by (rule costsI, erule costsD) auto

lemma costs_ok [budget]: "costs W 0 (ok x)"
  by (simp add: costs_def wpa_ok)

lemma costs_failA [budget]: "costs W 0 (failA e)"
  by (simp add: costs_def wpa_failA)

lemma costs_modifyI [budget]: "(\<And>i. W i \<Longrightarrow> W (f i)) \<Longrightarrow> costs W 0 (modifyI f)"
  by (simp add: costs_def wpa_modifyI)

lemma costs_callA [budget]: "costs W 1 (callA q proj)"
  by (simp add: costs_def wpa_callA)

lemma costs_updateStatus [budget]: "costs W 1 updateStatus"
  by (rule costsI) (auto simp: wpa_updateStatus asInstance_Inr)

lemma costs_updateInstance [budget]: "costs W 1 updateInstance"
  by (rule costsI) (auto simp: wpa_updateInstance asInstance_Inr)

lemma costs_withI [budget]: "(\<And>i. W i \<Longrightarrow> costs W n (f i)) \<Longrightarrow> costs W n (withI f)"
  by (simp add: costs_def wpa_withI)

lemma costs_tryA [budget]:
  assumes "costs W n m" and "\<And>r. costs W k (f r)"
  shows "costs W (n + k) (tryA m f)"
proof (rule costsI)
  fix i h assume "W i"
  show "wpa echoes (\<lambda>h' q. length h' < length h + (n + k)) (\<lambda>r j h'. W j \<and> length h' \<le> length h + (n + k)) (tryA m f) i h"
    unfolding wpa_tryA
  proof (rule costsD [OF assms(1) \<open>W i\<close>])
    fix r j and h' :: "event list" assume "W j" and h': "length h' \<le> length h + n"
    show "wpa echoes (\<lambda>h'' q. length h'' < length h + (n + k)) (\<lambda>r j h''. W j \<and> length h'' \<le> length h + (n + k)) (f r) j h'"
      by (rule costsD [OF assms(2) \<open>W j\<close>]) (use h' in auto)
  qed auto
qed

lemma costs_bindA [budget]:
  assumes "costs W n m" and "\<And>x. costs W k (f x)"
  shows "costs W (n + k) (bindA m f)"
  unfolding bindA_def
  by (rule costs_tryA [OF assms(1)]) (auto intro: assms(2) costs_mono [OF costs_failA] split: sum.split)

lemma costs_thenA [budget]: "costs W n m \<Longrightarrow> costs W k l \<Longrightarrow> costs W (n + k) (thenA m l)"
  unfolding thenA_def by (rule costs_bindA)

lemma costs_wrapA [budget]: "costs W n m \<Longrightarrow> costs W n (wrapA pre m)"
proof -
  assume "costs W n m"
  moreover have "costs W 0 (case r of Inl e \<Rightarrow> failA (Wrapf pre e []) | Inr x \<Rightarrow> ok x)" for r
    by (cases r) (simp_all add: costs_ok costs_failA)
  ultimately show "costs W n (wrapA pre m)"
    unfolding wrapA_def using costs_tryA [of W n m 0] by (metis add_0_right)
qed

lemma costs_whenA [budget]: "costs W n m \<Longrightarrow> costs W n (whenA b m)"
  by (auto simp: whenA_def intro: costs_mono [OF costs_ok])

lemma costs_if [budget]: "costs W n m \<Longrightarrow> costs W k l \<Longrightarrow> costs W (max n k) (if b then m else l)"
  by (auto intro: costs_mono)

lemma costs_sum [budget]:
  "(\<And>e. costs W n (f e)) \<Longrightarrow> (\<And>x. costs W k (g x)) \<Longrightarrow> costs W (max n k) (case r of Inl e \<Rightarrow> f e | Inr x \<Rightarrow> g x)"
  by (cases r) (auto intro: costs_mono max.cobounded1 max.cobounded2)

lemma costs_option [budget]:
  "costs W n m \<Longrightarrow> (\<And>x. costs W k (g x)) \<Longrightarrow> costs W (max n k) (case r of None \<Rightarrow> m | Some x \<Rightarrow> g x)"
  by (cases r) (auto intro: costs_mono max.cobounded1 max.cobounded2)

lemma costs_list [budget]:
  "costs W n m \<Longrightarrow> (\<And>x xs. costs W k (g x xs)) \<Longrightarrow> costs W (max n k) (case r of [] \<Rightarrow> m | x # xs \<Rightarrow> g x xs)"
  by (cases r) (auto intro: costs_mono max.cobounded1 max.cobounded2)

lemma costs_forA [budget]: "(\<And>x. costs W n (f x)) \<Longrightarrow> costs W (length xs * n) (forA xs f)"
  by (induction xs) (auto intro: costs_ok costs_thenA)

section \<open>The object\<close>

text \<open>The spec stays, and so many databases at most are on record without being declared.\<close>

definition within :: "InstanceSpec \<Rightarrow> nat \<Rightarrow> Instance \<Rightarrow> bool" where
  "within S d i = (in_spec i = S \<and> length (removedDatabases i) \<le> d)"

lemma within_status:
  "status_databases j = status_databases i \<Longrightarrow> in_spec j = in_spec i \<Longrightarrow> within S d j = within S d i"
  by (simp add: within_def removedDatabases_def)

lemma within_edits [simp]:
  "within S d (upd_status (\<lambda>s. s\<lparr>st_message := m\<rparr>) i) = within S d i"
  "within S d (upd_status (\<lambda>s. s\<lparr>st_message := m, st_error := e\<rparr>) i) = within S d i"
  "within S d (upd_status (\<lambda>s. s\<lparr>st_firebirdVersion := v\<rparr>) i) = within S d i"
  "within S d (upd_status (\<lambda>s. s\<lparr>st_upgrade := u\<rparr>) i) = within S d i"
  "within S d (upd_status (\<lambda>s. s\<lparr>st_phase := p\<rparr>) i) = within S d i"
  "within S d (availableEdit L st rs msg i) = within S d i"
  "within S d (errorEdit L err i) = within S d i"
  "within S d (beginUpgrade v i) = within S d i"
  "within S d (i\<lparr>in_finalizers := fs\<rparr>) = within S d i"
  by (simp_all add: within_def removedDatabases_def availableEdit_def errorEdit_def beginUpgrade_def)

lemma within_cleared: "within S d i \<Longrightarrow> within S d (upd_status clearDatabases i)"
  by (simp add: within_def removedDatabases_def clearDatabases_def)

lemma within_recorded:
  "within S d i \<Longrightarrow> within S d (upd_status (recordDatabases (removedDatabases i) (pendingDatabases i) w) i)"
  by (auto simp: within_def removedDatabases_def pendingDatabases_def recordDatabases_def Let_def filter_empty_conv)

abbreviation spends :: "InstanceSpec \<Rightarrow> nat \<Rightarrow> nat \<Rightarrow> 'a act \<Rightarrow> bool" where
  "spends S d \<equiv> costs (within S d)"

lemma writers_spend [budget]:
  "spends S d 1 (setProgress m)" "spends S d 1 (setDeletionMessage m)" "spends S d 1 (setError L err)"
  "spends S d 1 (setPhase p)" "spends S d 1 (setAvailable L st rs msg)"
  by (rule costsI, auto simp: wpa_writers asInstance_Inr)+

section \<open>The components\<close>

lemma exec_spends [budget]: "costs W 1 (execInPod ns p c input)"
  unfolding execInPod_def by (rule costs_mono, (rule budget)+, simp)

lemma output_spends [budget]: "costs W 1 (execInPodOutput ns p c)"
  unfolding execInPodOutput_def by (intro budget)

lemma exists_spends [budget]: "costs W 1 (databaseFileExists ns p f)"
  unfolding databaseFileExists_def by (rule costs_mono, (rule budget)+, simp)

lemma sysdbaPassword_spends [budget]: "costs W 1 sysdbaPassword"
  unfolding sysdbaPassword_def Let_def by (rule costs_mono, (rule budget)+, simp)

lemma password_spends [budget]: "spends S d fuel (generateRandomPassword fuel)"
proof (induction fuel)
  case (Suc n)
  show ?case
    unfolding generateRandomPassword.simps by (rule costs_mono, (rule budget Suc)+, simp)
qed (simp add: costs_failA)

lemma sync_spends [budget]: "spends S d 1 (syncFirebirdVersionLabel m patch)"
  unfolding syncFirebirdVersionLabel_def Let_def by (rule costs_mono, (rule budget)+, simp)

lemma secret_spends [budget]: "spends S d (fuel + 2) (reconcileSysdbaSecret fuel)"
  unfolding reconcileSysdbaSecret_def Let_def by (rule costs_mono, (rule budget)+, simp)

lemma pvc_spends [budget]: "spends S d 2 (reconcilePVC name vol)"
  unfolding reconcilePVC_def by (rule costs_mono, (rule budget)+, simp)

lemma pvcs_spend [budget]: "spends S d 6 reconcilePVCs"
  unfolding reconcilePVCs_def by (rule costs_mono, (rule budget)+, simp)

lemma liftA_spends [budget]: "costs W 0 (liftA r)"
  unfolding liftA_def by (rule costs_mono, (rule budget)+, simp)

lemma createOrUpdate_spends [budget]:
  "(\<And>obj. costs W n (mutate obj)) \<Longrightarrow> costs W (n + 2) (createOrUpdate fetch proj store mutate)"
  unfolding createOrUpdate_def by (rule costs_mono, (rule budget | assumption)+, simp)

lemma owned_spends [budget]: "spends S d 13 (reconcileOwned L)"
  unfolding reconcileOwned_def mutateStatefulSet_def by (rule costs_mono, (rule budget)+, simp)

lemma deletePod_spends [budget]: "spends S d 1 (deletePod failure pod)"
  unfolding deletePod_def by (rule costs_mono, (rule budget)+, simp)

lemma deletePVC_spends [budget]: "spends S d 1 (deletePVC name)"
  unfolding deletePVC_def by (rule costs_mono, (rule budget)+, simp)

lemma release_spends [budget]: "spends S d 3 releasePrimaryAndShadowStorage"
  unfolding releasePrimaryAndShadowStorage_def by (rule costs_mono, (rule budget)+, simp)

lemma backup_spends [budget]: "spends S d 4 (backupDatabases L v)"
  unfolding backupDatabases_def backupDatabasesOffline_def createDatabaseBackupPod_def Let_def
  by (rule costs_mono, (rule budget)+, simp)

lemma await_spends: "spends S d (length names) (awaitPvcsGone names)"
proof (induction names)
  case (Cons name names)
  show ?case
    unfolding awaitPvcsGone.simps withUpgrade_def by (rule costs_mono, (rule budget Cons)+, simp)
qed (simp add: costs_ok)

lemma releaseForUpgrade_spends [budget]: "spends S d 5 releaseStorageForUpgrade"
proof -
  have await: "spends S d 2 (awaitPvcsGone (p # (if b then [q] else [])))" for p q b
    by (rule costs_mono [OF await_spends]) simp
  show ?thesis
    unfolding releaseStorageForUpgrade_def by (rule costs_mono, (rule budget await)+, simp)
qed

lemma decision_spends [budget]:
  "costs W n m \<Longrightarrow> (\<And>e. costs W k (f e)) \<Longrightarrow> costs W l g
   \<Longrightarrow> costs W (max n (max k l)) (case r of NoUpgrade \<Rightarrow> m | Refused e \<Rightarrow> f e | StartUpgrade \<Rightarrow> g)"
proof (cases r)
  case (Refused e)
  assume "\<And>e. costs W k (f e)"
  from costs_mono [OF this, of "max n (max k l)" e] Refused show ?thesis by simp
qed (auto intro: costs_mono)

lemma setUpgradeStage_spends [budget]: "spends S d 1 (setUpgradeStage stage)"
  unfolding setUpgradeStage_def withUpgrade_def by (rule costs_mono, (rule budget | (simp; fail))+)

lemma continueUpgrade_spends [budget]: "spends S d 11 (continueUpgrade L sts)"
  unfolding continueUpgrade_def upgradeBackup_def upgradeRelease_def withUpgrade_def
  by (rule costs_mono, (rule budget within_cleared | (simp; fail))+)

lemma majorUpgrade_spends [budget]: "spends S d 13 (reconcileMajorUpgrade L)"
  unfolding reconcileMajorUpgrade_def startMajorUpgrade_def Let_def
  by (rule costs_mono, (rule budget | (simp; fail))+)

lemma schedules_spend [budget]: "spends S d 20 (reconcileScheduledBackups L)"
proof -
  have "spends S d 4 (reconcileFrequency L freq)" for freq
    unfolding reconcileFrequency_def reconcileScheduledBackupCronJob_def deleteCronJob_def Let_def
    by (rule costs_mono, (rule budget | (simp; fail))+)
  then have "spends S d (length backupFrequencies * 4) (reconcileScheduledBackups L)"
    unfolding reconcileScheduledBackups_def by (rule costs_forA)
  then show ?thesis by (simp add: backupFrequencies_def)
qed

lemma version_spends [budget]: "spends S d 5 reconcileFirebirdVersion"
  unfolding reconcileFirebirdVersion_def detectFirebirdVersion_def Let_def
  by (rule costs_mono, (rule budget | (simp; fail))+)

lemma provision_spends [budget]: "costs W 5 (provisionDatabase p pw db)"
  unfolding provisionDatabase_def restoreDatabaseIfBackedUp_def createDatabase_def runRestore_def recreateShadow_def
  by (rule costs_mono, (rule budget | (simp; fail))+)

lemma drop_spends [budget]: "costs W 1 (dropDatabase p pw name)"
  unfolding dropDatabase_def by (rule costs_mono, (rule budget)+, simp)

lemma orphan_spends [budget]: "costs W 1 (orphanWarning p dbs)"
  unfolding orphanWarning_def orphanedBackups_def by (rule costs_mono, (rule budget)+, simp)

text \<open>A step that is counted for another invariant, in the middle of a method.\<close>

lemma costs_before:
  assumes "costs V n m" and "V i" and "length h + n \<le> N"
    and "\<And>x j h'. V j \<Longrightarrow> length h' \<le> length h + n \<Longrightarrow> wpa echoes (\<lambda>h' q. length h' < N) Q (f x) j h'"
    and "\<And>e j h'. V j \<Longrightarrow> length h' \<le> N \<Longrightarrow> Q (Inl e) j h'"
  shows "wpa echoes (\<lambda>h' q. length h' < N) Q (bindA m f) i h"
  unfolding wpa_bindA by (rule costsD [OF assms(1,2)]) (use assms(3-5) in auto)

lemma databases_spend [budget]:
  "spends S d (3 + d + 5 * length (sp_databases S)) (reconcileDatabases ready)"
proof (rule costsI)
  fix i and h :: "event list" assume W: "within S d i"
  let ?N = "length h + (3 + d + 5 * length (sp_databases S))"
  let ?G = "\<lambda>h' q. length h' < ?N"
  let ?Q = "\<lambda>r j h'. within S d j \<and> length h' \<le> ?N"
  let ?same = "\<lambda>j. j = i"
  have sizes: "length (removedDatabases i) \<le> d" "length (pendingDatabases i) \<le> length (sp_databases S)"
    using W by (auto simp: within_def pendingDatabases_def)
  have recording: "wpa echoes ?G ?Q (thenA (modifyI (upd_status (recordDatabases (removedDatabases i) (pendingDatabases i) w)))
      updateStatus) j h'" if "j = i" "length h' + 1 \<le> ?N" for w j h'
    using within_recorded [OF W, of w] that by (auto simp: wprule asInstance_Inr)
  have work: "wpa echoes ?G ?Q (bindA sysdbaPassword (\<lambda>password.
       bindA (orphanWarning (firebirdPodName i) (pendingDatabases i)) (\<lambda>warning.
       thenA (forA (removedDatabases i) (dropDatabase (firebirdPodName i) password))
      (thenA (forA (pendingDatabases i) (provisionDatabase (firebirdPodName i) password))
      (thenA (modifyI (upd_status (recordDatabases (removedDatabases i) (pendingDatabases i) warning)))
         updateStatus))))) i h"
    unfolding thenA_def [where m = "forA _ _"]
    by (rule costs_before [OF sysdbaPassword_spends refl], simp,
        rule costs_before [OF orphan_spends [where W = ?same]], assumption, simp,
        rule costs_before [OF costs_forA [OF drop_spends [where W = ?same]]], assumption, use sizes in simp,
        rule costs_before [OF costs_forA [OF provision_spends [where W = ?same]]], assumption, use sizes in simp,
        rule recording, assumption)
      (use W sizes in auto)
  then show "wpa echoes ?G ?Q (reconcileDatabases ready) i h"
    using W by (simp add: reconcileDatabases_def wprule Let_def)
qed

section \<open>The whole reconcile\<close>

lemma finish_spends [budget]: "spends S d 1 finishMajorUpgrade"
  unfolding finishMajorUpgrade_def by (rule costs_mono, (rule budget | (simp; fail))+)

lemma server_spends [budget]: "spends S d (31 + d + 5 * length (sp_databases S)) (reconcileServer L sts)"
  unfolding reconcileServer_def reportReady_def reportNotReady_def
  by (rule costs_mono, (rule budget | (simp; fail))+)

lemma deletion_spends [budget]: "spends S d 11 (reconcileDeletion L)"
  unfolding reconcileDeletion_def deletionSteps_def finalBackup_def removeFinalizer_def dropFinalizer_def
  by (rule costs_mono, (rule budget | (simp; fail))+)

lemma conclude_spends [budget]: "spends S d 1 (conclude L r)"
  unfolding conclude_def by (rule costs_mono, (rule budget)+, simp)

lemma found_spends: "spends S d (61 + fuel + d + 5 * length (sp_databases S)) (reconcileFound L fuel)"
  unfolding reconcileFound_def ensureFinalizer_def reconcileInstance_def
  by (rule costs_mono, (rule budget | (simp; fail))+)

text \<open>C20: A reconcile ends: whatever the cluster answers, in success or failure, one call of Reconcile makes at
  most 62 requests besides one for each draw of a password (as many as the fuel allows), one for each
  database on record that is no longer declared, and five for each declared one. It takes that accepted
  writes are echoed, so that nobody else lengthens the lists meanwhile.\<close>

theorem reconcile_ends:
  assumes "steps (Reconcile L fuel req) ((QGetInstance req, RInstance i) # tr) p" and "honest tr"
  shows "1 + length tr \<le> 62 + fuel + length (removedDatabases i) + 5 * length (spec_databases i)"
proof (cases "tr = []")
  case False
  then obtain pre q a where tr: "tr = pre @ [(q, a)]" by (metis rev_exhaust surj_pair)
  have "wpa echoes (\<lambda>h q. length h < 61 + fuel + length (removedDatabases i) + 5 * length (spec_databases i)) (\<lambda>_ _ _. True)
      (reconcileFound L fuel) i []"
    by (rule costsD [OF found_spends [where S = "in_spec i" and d = "length (removedDatabases i)"]])
      (simp_all add: within_def)
  from Reconcile_guard [OF _ this, of req pre q a "[]"] have "length (rev pre) < 61 + fuel + length (removedDatabases i) + 5 * length (spec_databases i)"
    using assms by (simp add: tr answered_echoes)
  then show ?thesis by (simp add: tr)
qed simp


lemma reconcile_ends_witness:
  "1 + length (runOf (cluster (sampleInstance ''5.0'') None None) sampleReconcile) \<le> 68"
proof -
  let ?env = "cluster (sampleInstance ''5.0'') None None"
  have "steps sampleReconcile ((QGetInstance (''ns'', ''db''), RInstance (sampleInstance ''5.0'')) # runOf ?env sampleReconcile)
      (Ret (fst (runWith ?env sampleReconcile [])))"
    by (rule runOf_steps) simp_all
  from reconcile_ends [OF this runOf_honest] show ?thesis
    by (simp add: removedDatabases_def sample_defs)
qed

end
