(* ===== verification/Own.thy ===== *)
theory Own
  imports Samples
begin

text \<open>
  Instances and the objects that are theirs: whatever a reconcile asks the cluster for concerns an object
  of its own instance, and two instances have no object in common, but a Secret that the spec of one may
  name although it is the other's.
\<close>

section \<open>What a request is about\<close>

datatype objectKind = KInstance | KStatefulSet | KService | KConfigMap | KVolumeClaim | KSecret | KPod | KCronJob

abbreviation keyOf :: "ObjectMeta \<Rightarrow> nsname" where
  "keyOf m \<equiv> (om_namespace m, om_name m)"

fun target :: "request \<Rightarrow> (objectKind \<times> nsname) option" where
  "target (QGetInstance k) = Some (KInstance, k)"
| "target (QUpdateInstance i) = Some (KInstance, in_key i)"
| "target (QUpdateStatus i) = Some (KInstance, in_key i)"
| "target (QListInstances ns f v) = None"
| "target (QGetSts k) = Some (KStatefulSet, k)"
| "target (QUpdateSts s) = Some (KStatefulSet, keyOf (sts_meta s))"
| "target (QFetchSts k) = Some (KStatefulSet, k)"
| "target (QStoreSts s) = Some (KStatefulSet, keyOf (sts_meta s))"
| "target (QGetPvc k) = Some (KVolumeClaim, k)"
| "target (QCreatePvc p) = Some (KVolumeClaim, keyOf (pvc_meta p))"
| "target (QDeletePvc k) = Some (KVolumeClaim, k)"
| "target (QPatchPvc p p') = Some (KVolumeClaim, keyOf (pvc_meta p'))"
| "target (QGetSecret k) = Some (KSecret, k)"
| "target (QCreateSecret s) = Some (KSecret, keyOf (sec_meta s))"
| "target (QPatchSecret s s') = Some (KSecret, keyOf (sec_meta s'))"
| "target (QGetPod k) = Some (KPod, k)"
| "target (QCreatePod p) = Some (KPod, keyOf (pod_meta p))"
| "target (QDeletePod k) = Some (KPod, k)"
| "target (QPatchPod p p') = Some (KPod, keyOf (pod_meta p'))"
| "target (QGetCronJob k) = Some (KCronJob, k)"
| "target (QDeleteCronJob k) = Some (KCronJob, k)"
| "target (QFetchCronJob k) = Some (KCronJob, k)"
| "target (QStoreCronJob c) = Some (KCronJob, keyOf (cj_meta c))"
| "target (QFetchConfigMap k) = Some (KConfigMap, k)"
| "target (QStoreConfigMap c) = Some (KConfigMap, keyOf (cm_meta c))"
| "target (QFetchService k) = Some (KService, k)"
| "target (QStoreService s) = Some (KService, keyOf (svc_meta s))"
| "target (QExec ns pod c s) = Some (KPod, (ns, pod))"
| "target (QRand n) = None"

text \<open>The objects of an instance.\<close>

definition ownNames :: "Instance \<Rightarrow> (objectKind \<times> string) list" where
  "ownNames i =
     [(KInstance, in_name i), (KStatefulSet, in_name i), (KService, in_name i),
      (KConfigMap, aliasesConfigMapName i), (KVolumeClaim, primaryPVCName i), (KVolumeClaim, backupPVCName i),
      (KVolumeClaim, shadowPVCName i), (KSecret, sysdbaSecretRefName i), (KPod, firebirdPodName i),
      (KPod, databaseBackupPodName i)]
     @ map (\<lambda>freq. (KCronJob, scheduledBackupCronJobName i (bf_name freq))) backupFrequencies"

definition own :: "Instance \<Rightarrow> (objectKind \<times> nsname) set" where
  "own i = {(kind, (in_namespace i, name)) | kind name. (kind, name) \<in> set (ownNames i)}"

lemma in_own: "(kind, (ns, name)) \<in> own i \<longleftrightarrow> ns = in_namespace i \<and> (kind, name) \<in> set (ownNames i)"
  by (auto simp: own_def)

text \<open>Names made by appending different words are different.\<close>

lemma ends_apart: "x @ s = y @ t \<longleftrightarrow> rev s @ rev x = rev t @ rev y"
  by (metis rev_append rev_rev_ident)

lemma own_apart:
  assumes "(kind, k) \<in> own i" and "(kind, k) \<in> own j" and "kind \<noteq> KSecret"
  shows "in_key i = in_key j"
proof -
  obtain name where k: "k = (in_namespace i, name)" "in_namespace i = in_namespace j"
    and names: "(kind, name) \<in> set (ownNames i)" "(kind, name) \<in> set (ownNames j)"
    using assms(1,2) by (auto simp: own_def)
  then show ?thesis
    using assms(3)
    by (auto simp: ownNames_def backupFrequencies_def aliasesConfigMapName_def primaryPVCName_def backupPVCName_def
        shadowPVCName_def firebirdPodName_def databaseBackupPodName_def scheduledBackupCronJobName_def
        primaryVolumeName_def backupVolumeName_def shadowVolumeName_def ends_apart)
qed

section \<open>The contract\<close>

text \<open>What the API server promises: accepted writes are echoed, and an object it returns bears the key it was
  asked for.\<close>

fun askedFor :: "request \<Rightarrow> nsname option" where
  "askedFor (QGetInstance k) = Some k"
| "askedFor (QGetSts k) = Some k"
| "askedFor (QFetchSts k) = Some k"
| "askedFor (QGetPvc k) = Some k"
| "askedFor (QGetSecret k) = Some k"
| "askedFor (QGetPod k) = Some k"
| "askedFor (QGetCronJob k) = Some k"
| "askedFor (QFetchCronJob k) = Some k"
| "askedFor (QFetchConfigMap k) = Some k"
| "askedFor (QFetchService k) = Some k"
| "askedFor _ = None"

fun bears :: "answer \<Rightarrow> nsname option" where
  "bears (RInstance i) = Some (in_key i)"
| "bears (RSts s) = Some (keyOf (sts_meta s))"
| "bears (RPvc p) = Some (keyOf (pvc_meta p))"
| "bears (RSecret s) = Some (keyOf (sec_meta s))"
| "bears (RPod p) = Some (keyOf (pod_meta p))"
| "bears (RCronJob c) = Some (keyOf (cj_meta c))"
| "bears (RConfigMap c) = Some (keyOf (cm_meta c))"
| "bears (RService s) = Some (keyOf (svc_meta s))"
| "bears _ = None"

definition keyed :: "request \<Rightarrow> answer \<Rightarrow> bool" where
  "keyed q r \<longleftrightarrow> echo q r \<and> (\<forall>k k'. askedFor q = Some k \<and> bears r = Some k' \<longrightarrow> k' = k)"

text \<open>A Secret that is there gets the version label and nothing else, and one is made only when the spec
  names none.\<close>

definition relabelled :: "string \<Rightarrow> Secret \<Rightarrow> Secret" where
  "relabelled v s = s\<lparr>sec_meta := (sec_meta s)\<lparr>om_labels := (om_labels (sec_meta s))(firebirdVersionLabelKey \<mapsto> v)\<rparr>\<rparr>"

definition proper :: "Instance \<Rightarrow> request \<Rightarrow> bool" where
  "proper z q \<longleftrightarrow> (\<forall>t. target q = Some t \<longrightarrow> t \<in> own z)
     \<and> (\<forall>s s'. q = QPatchSecret s s' \<longrightarrow> (\<exists>v. s' = relabelled v s))
     \<and> (\<forall>s. q = QCreateSecret s \<longrightarrow> sy_secretRef (au_sysdba (sp_authentication (in_spec z))) = [])"

text \<open>Setting the owner leaves the key as it is.\<close>

definition ownerKeepsKey :: "lib \<Rightarrow> bool" where
  "ownerKeepsKey L = (\<forall>i m m'. lib_setControllerReference L i m = Inr m' \<longrightarrow> keyOf m' = keyOf m)"

definition same :: "Instance \<Rightarrow> Instance \<Rightarrow> bool" where
  "same z i = (in_key i = in_key z \<and> in_spec i = in_spec z)"

text \<open>\<open>m\<close>, on an object of this key and spec, makes proper requests only, leaves such an object, and a value
  it returns is in \<open>P\<close>.\<close>

definition keepsTo :: "Instance \<Rightarrow> ('a \<Rightarrow> bool) \<Rightarrow> 'a act \<Rightarrow> bool" where
  "keepsTo z P m = (\<forall>i h. same z i \<longrightarrow>
     wpa (\<lambda>_. keyed) (\<lambda>_. proper z) (\<lambda>r j h'. same z j \<and> (\<forall>x. r = Inr x \<longrightarrow> P x)) m i h)"

named_theorems stay \<open>introduction rules for actions that stay with their instance\<close>

lemma keepsTo_ok [stay]: "P x \<Longrightarrow> keepsTo z P (ok x)"
  by (simp add: keepsTo_def wpa_ok)

lemma keepsTo_failA [stay]: "keepsTo z P (failA e)"
  by (simp add: keepsTo_def wpa_failA)

lemma keepsTo_modifyI [stay]: "(\<And>i. same z (f i) = same z i) \<Longrightarrow> keepsTo z (\<lambda>_. True) (modifyI f)"
  by (simp add: keepsTo_def wpa_modifyI)

lemma keepsTo_callA:
  "proper z q \<Longrightarrow> (\<And>r x. keyed q r \<Longrightarrow> proj r = Inr x \<Longrightarrow> P x) \<Longrightarrow> keepsTo z P (callA q proj)"
  by (simp add: keepsTo_def wpa_callA)

lemma keepsTo_call [stay]: "proper z q \<Longrightarrow> keepsTo z (\<lambda>_. True) (callA q proj)"
  by (simp add: keepsTo_callA)

lemma keepsTo_withI [stay]: "(\<And>i. same z i \<Longrightarrow> keepsTo z P (f i)) \<Longrightarrow> keepsTo z P (withI f)"
  by (simp add: keepsTo_def wpa_withI)

lemma keepsTo_tryA:
  fixes m :: "'a act"
  assumes "keepsTo z P' m" and "\<And>e. keepsTo z P (f (Inl e))" and "\<And>x. P' x \<Longrightarrow> keepsTo z P (f (Inr x))"
  shows "keepsTo z P (tryA m f)"
  unfolding keepsTo_def wpa_tryA
proof (intro allI impI)
  fix i h assume "same z i"
  with assms(1) have "wpa (\<lambda>_. keyed) (\<lambda>_. proper z) (\<lambda>r j h'. same z j \<and> (\<forall>x. r = Inr x \<longrightarrow> P' x)) m i h"
    by (simp add: keepsTo_def)
  then show "wpa (\<lambda>_. keyed) (\<lambda>_. proper z) (\<lambda>r j h'. wpa (\<lambda>_. keyed) (\<lambda>_. proper z)
      (\<lambda>r j h'. same z j \<and> (\<forall>x. r = Inr x \<longrightarrow> P x)) (f r) j h') m i h"
  proof (rule wpa_mono)
    fix r :: "error + 'a" and j and h' :: "event list" assume "same z j \<and> (\<forall>x. r = Inr x \<longrightarrow> P' x)"
    then show "wpa (\<lambda>_. keyed) (\<lambda>_. proper z) (\<lambda>r j h'. same z j \<and> (\<forall>x. r = Inr x \<longrightarrow> P x)) (f r) j h'"
      using assms(2,3) by (cases r) (auto simp: keepsTo_def)
  qed
qed

lemma keepsTo_bindA:
  "keepsTo z P' m \<Longrightarrow> (\<And>x. P' x \<Longrightarrow> keepsTo z P (f x)) \<Longrightarrow> keepsTo z P (bindA m f)"
  unfolding bindA_def by (rule keepsTo_tryA [where P' = P']) (auto intro: keepsTo_failA)

lemmas keepsTo_try_any [stay] = keepsTo_tryA [where P' = "\<lambda>_. True"]
lemmas keepsTo_bind_any [stay] = keepsTo_bindA [where P' = "\<lambda>_. True"]

lemma keepsTo_thenA [stay]: "keepsTo z (\<lambda>_. True) m \<Longrightarrow> keepsTo z P n \<Longrightarrow> keepsTo z P (thenA m n)"
  unfolding thenA_def by (rule keepsTo_bind_any) auto

lemma keepsTo_wrapA [stay]: "keepsTo z P m \<Longrightarrow> keepsTo z P (wrapA pre m)"
  unfolding wrapA_def by (rule keepsTo_tryA [where P' = P]) (auto intro: keepsTo_failA keepsTo_ok)

lemma keepsTo_whenA [stay]: "(b \<Longrightarrow> keepsTo z (\<lambda>_. True) m) \<Longrightarrow> keepsTo z (\<lambda>_. True) (whenA b m)"
  by (simp add: whenA_def keepsTo_ok)

lemma keepsTo_forA [stay]:
  "(\<And>x. x \<in> set xs \<Longrightarrow> keepsTo z (\<lambda>_. True) (f x)) \<Longrightarrow> keepsTo z (\<lambda>_. True) (forA xs f)"
  by (induction xs) (auto intro: stay)

lemma keepsTo_if [stay]: "(b \<Longrightarrow> keepsTo z P m) \<Longrightarrow> (\<not> b \<Longrightarrow> keepsTo z P n) \<Longrightarrow> keepsTo z P (if b then m else n)"
  by simp

lemma keepsTo_sum [stay]:
  "(\<And>e. r = Inl e \<Longrightarrow> keepsTo z P (f e)) \<Longrightarrow> (\<And>x. r = Inr x \<Longrightarrow> keepsTo z P (g x))
   \<Longrightarrow> keepsTo z P (case r of Inl e \<Rightarrow> f e | Inr x \<Rightarrow> g x)"
  by (cases r) auto

lemma keepsTo_option [stay]:
  "(r = None \<Longrightarrow> keepsTo z P m) \<Longrightarrow> (\<And>x. r = Some x \<Longrightarrow> keepsTo z P (g x))
   \<Longrightarrow> keepsTo z P (case r of None \<Rightarrow> m | Some x \<Rightarrow> g x)"
  by (cases r) auto

lemma proper_writes [simp]:
  "proper z (QUpdateStatus i) \<longleftrightarrow> in_key i = in_key z" "proper z (QUpdateInstance i) \<longleftrightarrow> in_key i = in_key z"
  by (auto simp: proper_def in_own ownNames_def)

lemma keepsTo_updateStatus [stay]: "keepsTo z (\<lambda>_. True) updateStatus"
  by (auto simp: keepsTo_def wpa_updateStatus asInstance_Inr keyed_def same_def)

lemma keepsTo_updateInstance [stay]: "keepsTo z (\<lambda>_. True) updateInstance"
  by (auto simp: keepsTo_def wpa_updateInstance asInstance_Inr keyed_def same_def)

section \<open>The components\<close>

lemmas own_names =
  aliasesConfigMapName_def primaryPVCName_def backupPVCName_def shadowPVCName_def firebirdPodName_def
  databaseBackupPodName_def scheduledBackupCronJobName_def sysdbaSecretRefName_def Let_def

lemmas own_defs = proper_def in_own same_def ownNames_def own_names

text \<open>The requests by key, from an object of this key and spec.\<close>

lemma proper_keys [stay]:
  assumes "same z i"
  shows "proper z (QGetSts (in_key i))" "proper z (QFetchSts (in_key i))" "proper z (QFetchService (in_key i))"
    "proper z (QFetchConfigMap (in_namespace i, aliasesConfigMapName i))"
    "proper z (QGetSecret (in_namespace i, sysdbaSecretRefName i))"
    "proper z (QGetPod (in_namespace i, firebirdPodName i))"
    "proper z (QGetPod (in_namespace i, databaseBackupPodName i))"
    "proper z (QExec (in_namespace i) (firebirdPodName i) c input)"
  using assms by (auto simp: own_defs)

lemma proper_claims [stay]:
  assumes "same z i" and "(KVolumeClaim, name) \<in> set (ownNames z)"
  shows "proper z (QGetPvc (in_namespace i, name))" "proper z (QDeletePvc (in_namespace i, name))"
  using assms by (auto simp: proper_def in_own same_def)

lemma own_claims [stay]:
  assumes "same z i"
  shows "(KVolumeClaim, primaryPVCName i) \<in> set (ownNames z)" "(KVolumeClaim, backupPVCName i) \<in> set (ownNames z)"
    "(KVolumeClaim, shadowPVCName i) \<in> set (ownNames z)"
  using assms by (auto simp: own_defs)

lemma proper_cronJobs [stay]:
  assumes "same z i" and "freq \<in> set backupFrequencies"
  shows "proper z (QGetCronJob (in_namespace i, scheduledBackupCronJobName i (bf_name freq)))"
    "proper z (QFetchCronJob (in_namespace i, scheduledBackupCronJobName i (bf_name freq)))"
    "same z j \<Longrightarrow> proper z (QDeleteCronJob (in_namespace j, scheduledBackupCronJobName i (bf_name freq)))"
  using assms by (auto simp: own_defs)

lemma proper_rand [stay]: "proper z (QRand n)"
  by (simp add: proper_def)

text \<open>The writers of the status.\<close>

lemma same_edits [simp]:
  "same z (upd_status g i) = same z i" "same z (availableEdit L st rs msg i) = same z i"
  "same z (errorEdit L err i) = same z i" "same z (beginUpgrade v i) = same z i"
  "same z (i\<lparr>in_finalizers := fs\<rparr>) = same z i"
  by (simp_all add: same_def availableEdit_def errorEdit_def beginUpgrade_def)

lemma writers_stay [stay]:
  "keepsTo z (\<lambda>_. True) (setProgress m)" "keepsTo z (\<lambda>_. True) (setDeletionMessage m)"
  "keepsTo z (\<lambda>_. True) (setError L err)" "keepsTo z (\<lambda>_. True) (setPhase p)"
  "keepsTo z (\<lambda>_. True) (setAvailable L st rs msg)"
  by (auto simp: keepsTo_def wpa_writers asInstance_Inr keyed_def) (auto simp: same_def errorEdit_def availableEdit_def)

text \<open>The commands in the pod, the password and the version label.\<close>

lemma exec_stays [stay]:
  assumes "proper z (QExec ns p c (Some input))"
  shows "keepsTo z (\<lambda>_. True) (execInPod ns p c input)"
  unfolding execInPod_def by (intro stay assms TrueI)

lemma output_stays [stay]:
  assumes "proper z (QExec ns p c None)"
  shows "keepsTo z (\<lambda>_. True) (execInPodOutput ns p c)"
  unfolding execInPodOutput_def by (intro stay assms)

lemma exists_stays [stay]:
  assumes "proper z (QExec ns p [''test'', ''-f'', f] (Some []))"
  shows "keepsTo z (\<lambda>_. True) (databaseFileExists ns p f)"
  unfolding databaseFileExists_def by (intro stay assms TrueI)

lemma password_stays [stay]: "keepsTo z (\<lambda>_. True) sysdbaPassword"
  unfolding sysdbaPassword_def Let_def by (intro stay TrueI)

lemma draw_stays [stay]: "keepsTo z (\<lambda>_. True) (generateRandomPassword fuel)"
proof (induction fuel)
  case (Suc n)
  have "keepsTo z (\<lambda>_. True) (case b64RawURL buf of [] \<Rightarrow> failA (Panicked ''index out of range'')
      | c # cs \<Rightarrow> if c \<noteq> CHR ''-'' then ok (c # cs) else generateRandomPassword n)" for buf
    by (cases "b64RawURL buf") (use Suc in \<open>auto intro: stay\<close>)
  then show ?case unfolding generateRandomPassword.simps by (intro stay)
qed (simp add: keepsTo_failA)

lemma sync_stays [stay]:
  assumes "\<And>v. proper z (patch (m\<lparr>om_labels := (om_labels m)(firebirdVersionLabelKey \<mapsto> v)\<rparr>))"
  shows "keepsTo z (\<lambda>_. True) (syncFirebirdVersionLabel m patch)"
  unfolding syncFirebirdVersionLabel_def Let_def by (intro stay assms TrueI)

text \<open>What was fetched bears the key it was asked for, so that what is written has it too.\<close>

lemma keepsTo_get:
  assumes "proper z q" and "\<And>r x. keyed q r \<Longrightarrow> proj r = Inr x \<Longrightarrow> P x"
    and "\<And>e. keepsTo z Q (f (Inl e))" and "\<And>x. P x \<Longrightarrow> keepsTo z Q (f (Inr x))"
  shows "keepsTo z Q (tryA (callA q proj) f)"
  by (rule keepsTo_tryA [where P' = P, OF keepsTo_callA]) (use assms in auto)

lemma version_stays [stay]: "keepsTo z (\<lambda>_. True) reconcileFirebirdVersion"
proof -
  let ?P = "\<lambda>pod. keyOf (pod_meta pod) = (in_namespace z, firebirdPodName z)"
  have detect: "keepsTo z (\<lambda>_. True) (detectFirebirdVersion pod)" if "?P pod" for pod
    unfolding detectFirebirdVersion_def
    by (intro stay TrueI) (use that in \<open>auto simp: own_defs\<close>)
  have get: "keepsTo z ?P (wrapA pre (callA (QGetPod (in_namespace i, firebirdPodName i)) asPod))" if "same z i" for i pre
    by (intro keepsTo_wrapA keepsTo_callA proper_keys that)
      (use that in \<open>auto simp: keyed_def asPod_Inr same_def firebirdPodName_def\<close>)
  show ?thesis
    unfolding reconcileFirebirdVersion_def Let_def
    by (intro keepsTo_withI keepsTo_bindA [OF get] stay detect TrueI) auto
qed

lemma same_names:
  "same z i \<Longrightarrow> in_namespace i = in_namespace z \<and> in_name i = in_name z \<and> in_spec i = in_spec z
     \<and> sysdbaSecretRefName i = sysdbaSecretRefName z \<and> databaseBackupPodName i = databaseBackupPodName z"
  by (simp add: same_def sysdbaSecretRefName_def databaseBackupPodName_def Let_def)

lemma get_claim:
  assumes "same z i" and "(KVolumeClaim, name) \<in> set (ownNames z)" and "\<And>e. keepsTo z Q (f (Inl e))"
    and "\<And>p. keyOf (pvc_meta p) = (in_namespace z, name) \<Longrightarrow> keepsTo z Q (f (Inr p))"
  shows "keepsTo z Q (tryA (callA (QGetPvc (in_namespace i, name)) asPvc) f)"
  by (rule keepsTo_get [where P = "\<lambda>p. keyOf (pvc_meta p) = (in_namespace z, name)", OF proper_claims(1)])
    (use assms same_names [OF assms(1)] in \<open>auto simp: keyed_def asPvc_Inr\<close>)

lemma get_secret:
  assumes "same z i" and "\<And>e. keepsTo z Q (f (Inl e))"
    and "\<And>s. keyOf (sec_meta s) = (in_namespace z, sysdbaSecretRefName z) \<Longrightarrow> keepsTo z Q (f (Inr s))"
  shows "keepsTo z Q (tryA (callA (QGetSecret (in_namespace i, sysdbaSecretRefName i)) asSecret) f)"
  by (rule keepsTo_get [where P = "\<lambda>s. keyOf (sec_meta s) = (in_namespace z, sysdbaSecretRefName z)", OF proper_keys(5)])
    (use assms same_names [OF assms(1)] in \<open>auto simp: keyed_def asSecret_Inr\<close>)

lemma get_server:
  assumes "same z i" and "\<And>e. keepsTo z Q (f (Inl e))"
    and "\<And>s. keyOf (sts_meta s) = in_key z \<Longrightarrow> keepsTo z Q (f (Inr s))"
  shows "keepsTo z Q (tryA (callA (QGetSts (in_key i)) asSts) f)"
  by (rule keepsTo_get [where P = "\<lambda>s. keyOf (sts_meta s) = in_key z", OF proper_keys(1)])
    (use assms same_names [OF assms(1)] in \<open>auto simp: keyed_def asSts_Inr\<close>)

lemma get_backupPod:
  assumes "same z i" and "\<And>e. keepsTo z Q (f (Inl e))"
    and "\<And>p. keyOf (pod_meta p) = (in_namespace z, databaseBackupPodName z) \<Longrightarrow> keepsTo z Q (f (Inr p))"
  shows "keepsTo z Q (tryA (callA (QGetPod (in_namespace i, databaseBackupPodName i)) asPod) f)"
  by (rule keepsTo_get [where P = "\<lambda>p. keyOf (pod_meta p) = (in_namespace z, databaseBackupPodName z)", OF proper_keys(7)])
    (use assms same_names [OF assms(1)] in \<open>auto simp: keyed_def asPod_Inr\<close>)

lemma claim_stays [stay]:
  assumes own: "(KVolumeClaim, name) \<in> set (ownNames z)"
  shows "keepsTo z (\<lambda>_. True) (reconcilePVC name vol)"
proof -
  have create: "proper z (QCreatePvc (newPVC i name vol))" if "same z i" for i
    using own same_names [OF that] by (simp add: proper_def in_own newPVC_def freshMeta_def)
  show ?thesis
    unfolding reconcilePVC_def
    by (rule keepsTo_withI, rule get_claim) (use own in \<open>auto intro!: stay create simp: proper_def in_own\<close>)
qed

lemma claims_stay [stay]: "keepsTo z (\<lambda>_. True) reconcilePVCs"
  unfolding reconcilePVCs_def by (intro stay TrueI)

lemma secret_stays [stay]: "keepsTo z (\<lambda>_. True) (reconcileSysdbaSecret fuel)"
proof -
  have patch: "proper z (QPatchSecret s (s\<lparr>sec_meta := (sec_meta s)\<lparr>om_labels := (om_labels (sec_meta s))(firebirdVersionLabelKey \<mapsto> v)\<rparr>\<rparr>))"
    if "keyOf (sec_meta s) = (in_namespace z, sysdbaSecretRefName z)" for s v
    using that by (auto simp: proper_def in_own ownNames_def relabelled_def)
  have create: "proper z (QCreateSecret (newSysdbaSecret i (sysdbaSecretRefName i) pw))"
    if "same z i" "sy_secretRef (au_sysdba (sp_authentication (in_spec i))) = []" for i pw
    using that same_names [OF that(1)] by (simp add: proper_def in_own ownNames_def newSysdbaSecret_def freshMeta_def)
  show ?thesis
    unfolding reconcileSysdbaSecret_def Let_def
    by (rule keepsTo_withI, rule get_secret) (auto intro!: stay patch create)
qed

text \<open>The owned objects: what is stored is what was fetched, changed but for its key.\<close>

lemma keepsTo_liftA: "(\<And>x. r = Inr x \<Longrightarrow> P x) \<Longrightarrow> keepsTo z P (liftA r)"
  by (cases r) (auto simp: liftA_def intro: stay)

lemma keepsTo_createOrUpdate:
  assumes "proper z fetch" and "\<And>r x. keyed fetch r \<Longrightarrow> proj r = Inr x \<Longrightarrow> P x"
    and "\<And>x. P x \<Longrightarrow> keepsTo z P (mutate x)" and "\<And>x. P x \<Longrightarrow> proper z (store x)"
  shows "keepsTo z (\<lambda>_. True) (createOrUpdate fetch proj store mutate)"
  unfolding createOrUpdate_def
proof (rule keepsTo_bindA [where P' = P])
  show "keepsTo z P (callA fetch proj)" by (rule keepsTo_callA) (use assms in auto)
  show "keepsTo z (\<lambda>_. True) (bindA (mutate x) (\<lambda>obj'. callA (store obj') proj))" if "P x" for x
    by (rule keepsTo_bindA [where P' = P]) (use assms that in \<open>auto intro: keepsTo_call\<close>)
qed

lemma mutates_keep_key:
  assumes "ownerKeepsKey L"
  shows "mutateAliasesConfigMap L i cm = Inr cm' \<Longrightarrow> keyOf (cm_meta cm') = keyOf (cm_meta cm)"
    and "mutateService L i svc = Inr svc' \<Longrightarrow> keyOf (svc_meta svc') = keyOf (svc_meta svc)"
    and "mutateScheduledBackupCronJob L i freq cj = Inr cj' \<Longrightarrow> keyOf (cj_meta cj') = keyOf (cj_meta cj)"
    and "setOwner L i sts_meta (\<lambda>m o'. o'\<lparr>sts_meta := m\<rparr>) (desiredStatefulSet i pw sts) = Inr sts'
      \<Longrightarrow> keyOf (sts_meta sts') = keyOf (sts_meta sts)"
  using assms
  by (fastforce simp: mutateAliasesConfigMap_def mutateService_def mutateScheduledBackupCronJob_def setOwner_def
      ownerKeepsKey_def desiredAliasesConfigMap_def desiredService_def desiredCronJob_def desiredStatefulSet_def
      relabel_def Let_def split: sum.splits)+

lemma owned_stays [stay]:
  assumes L: "ownerKeepsKey L"
  shows "keepsTo z (\<lambda>_. True) (reconcileOwned L)"
proof -
  have server: "keepsTo z (\<lambda>s. keyOf (sts_meta s) = in_key z) (mutateStatefulSet L sts)"
    if "keyOf (sts_meta sts) = in_key z" for sts
    unfolding mutateStatefulSet_def
    by (intro keepsTo_withI keepsTo_bind_any password_stays keepsTo_liftA) (simp add: mutates_keep_key(4) [OF L] that)
  have aliases: "keepsTo z (\<lambda>_. True) (createOrUpdate (QFetchConfigMap (in_namespace i, aliasesConfigMapName i)) asConfigMap
      QStoreConfigMap (\<lambda>cm. liftA (mutateAliasesConfigMap L i cm)))" if "same z i" for i
    by (rule keepsTo_createOrUpdate [where P = "\<lambda>cm. keyOf (cm_meta cm) = (in_namespace z, aliasesConfigMapName z)"])
      (use that in \<open>auto intro!: stay keepsTo_liftA dest!: mutates_keep_key(1) [OF L]
         simp: keyed_def asConfigMap_Inr same_def aliasesConfigMapName_def proper_def in_own ownNames_def\<close>)
  have service: "keepsTo z (\<lambda>_. True) (createOrUpdate (QFetchService (in_key i)) asService
      QStoreService (\<lambda>svc. liftA (mutateService L i svc)))" if "same z i" for i
    by (rule keepsTo_createOrUpdate [where P = "\<lambda>svc. keyOf (svc_meta svc) = in_key z"])
      (use that in \<open>auto intro!: stay keepsTo_liftA dest!: mutates_keep_key(2) [OF L]
         simp: keyed_def asService_Inr same_def proper_def in_own ownNames_def\<close>)
  have sts: "keepsTo z (\<lambda>_. True) (createOrUpdate (QFetchSts (in_key i)) asSts QStoreSts (mutateStatefulSet L))"
    if "same z i" for i
    by (rule keepsTo_createOrUpdate [where P = "\<lambda>s. keyOf (sts_meta s) = in_key z", OF _ _ server])
      (use that in \<open>auto intro!: stay simp: keyed_def asSts_Inr same_def proper_def in_own ownNames_def\<close>)
  show ?thesis
    unfolding reconcileOwned_def
    by (intro keepsTo_withI keepsTo_bind_any keepsTo_thenA keepsTo_wrapA aliases service sts claims_stay)
qed

lemma scheduled_stays [stay]:
  assumes L: "ownerKeepsKey L"
  shows "keepsTo z (\<lambda>_. True) (reconcileScheduledBackups L)"
proof -
  have cronJob: "keepsTo z (\<lambda>_. True) (createOrUpdate (QFetchCronJob (in_namespace i, scheduledBackupCronJobName i (bf_name freq)))
      asCronJob QStoreCronJob (\<lambda>cj. withI (\<lambda>j. liftA (mutateScheduledBackupCronJob L j freq cj))))"
    if "same z i" "freq \<in> set backupFrequencies" for i freq
    by (rule keepsTo_createOrUpdate
        [where P = "\<lambda>cj. keyOf (cj_meta cj) = (in_namespace z, scheduledBackupCronJobName z (bf_name freq))"])
      (use that in \<open>auto intro!: stay keepsTo_liftA dest!: mutates_keep_key(3) [OF L]
         simp: keyed_def same_def scheduledBackupCronJobName_def proper_def in_own ownNames_def\<close>)
  show ?thesis
    unfolding reconcileScheduledBackups_def reconcileFrequency_def reconcileScheduledBackupCronJob_def
      deleteCronJob_def Let_def
    by (intro stay cronJob TrueI; assumption)
qed

text \<open>The databases.\<close>

lemma databases_stay [stay]: "keepsTo z (\<lambda>_. True) (reconcileDatabases n)"
proof -
  have own_pod: "proper z (QExec (in_namespace j) (firebirdPodName i) c input)" if "same z i" "same z j" for i j c input
    using that by (auto simp: own_defs)
  show ?thesis
    unfolding reconcileDatabases_def orphanWarning_def orphanedBackups_def dropDatabase_def provisionDatabase_def
      restoreDatabaseIfBackedUp_def runRestore_def recreateShadow_def createDatabase_def Let_def
    by (intro stay own_pod TrueI; (assumption | simp))
qed

text \<open>The backup, the release and the upgrade.\<close>

lemma deletePod_stays [stay]:
  "proper z (QDeletePod (keyOf (pod_meta pod))) \<Longrightarrow> keepsTo z (\<lambda>_. True) (deletePod failure pod)"
  unfolding deletePod_def by (intro stay TrueI)

lemma backup_stays [stay]:
  assumes L: "ownerKeepsKey L"
  shows "keepsTo z (\<lambda>_. True) (backupDatabases L v)"
proof -
  have create: "keepsTo z (\<lambda>_. True) (createDatabaseBackupPod L v)"
  proof -
    have "keepsTo z (\<lambda>p. keyOf (pod_meta p) = (in_namespace z, databaseBackupPodName z))
        (wrapA pre (liftA (setOwner L i pod_meta (\<lambda>m o'. o'\<lparr>pod_meta := m\<rparr>) (databaseBackupPod i v))))"
      if "same z i" for i pre
      by (intro keepsTo_wrapA keepsTo_liftA)
        (use L same_names [OF that] in \<open>auto simp: setOwner_def ownerKeepsKey_def databaseBackupPod_def freshMeta_def
           split: sum.splits\<close>)
    then show ?thesis
      unfolding createDatabaseBackupPod_def
      by (intro keepsTo_withI keepsTo_bindA [where P' = "\<lambda>p. keyOf (pod_meta p) = (in_namespace z, databaseBackupPodName z)"])
        (auto intro!: stay simp: proper_def in_own ownNames_def)
  qed
  have offline: "keepsTo z (\<lambda>_. True) (backupDatabasesOffline L v)"
    unfolding backupDatabasesOffline_def Let_def
    by (rule keepsTo_withI, rule get_backupPod) (auto intro!: stay create simp: proper_def in_own ownNames_def)
  show ?thesis
    unfolding backupDatabases_def
    by (rule keepsTo_withI, rule get_server) (auto intro!: stay offline simp: proper_def in_own ownNames_def)
qed

lemma deletePVC_stays [stay]: "(KVolumeClaim, name) \<in> set (ownNames z) \<Longrightarrow> keepsTo z (\<lambda>_. True) (deletePVC name)"
  unfolding deletePVC_def by (intro stay TrueI)

lemma release_stays [stay]: "keepsTo z (\<lambda>_. True) releasePrimaryAndShadowStorage"
  unfolding releasePrimaryAndShadowStorage_def by (intro stay TrueI)

lemma await_stays [stay]:
  "\<forall>name\<in>set names. (KVolumeClaim, name) \<in> set (ownNames z) \<Longrightarrow> keepsTo z (\<lambda>_. True) (awaitPvcsGone names)"
  by (induction names) (auto simp: withUpgrade_def intro!: stay)

lemma upgrade_stays [stay]:
  assumes L: "ownerKeepsKey L"
  shows "keepsTo z (\<lambda>_. True) (reconcileMajorUpgrade L)"
proof -
  have await: "keepsTo z (\<lambda>_. True) (awaitPvcsGone (primaryPVCName i # (if b then [shadowPVCName i] else [])))"
    if "same z i" for i b
    by (rule await_stays) (use own_claims [OF that] in auto)
  have stage: "keepsTo z (\<lambda>_. True) (setUpgradeStage st)" for st
    unfolding setUpgradeStage_def withUpgrade_def by (intro stay TrueI; simp)
  show ?thesis
    unfolding reconcileMajorUpgrade_def startMajorUpgrade_def continueUpgrade_def upgradeBackup_def
      upgradeRelease_def releaseStorageForUpgrade_def withUpgrade_def Let_def
    by (auto intro!: stay await stage L split: upgradeDecision.splits)
qed

lemma finish_stays [stay]: "keepsTo z (\<lambda>_. True) finishMajorUpgrade"
  unfolding finishMajorUpgrade_def by (intro stay TrueI; simp)

section \<open>A reconcile\<close>

lemma instance_stays [stay]:
  assumes "ownerKeepsKey L"
  shows "keepsTo z (\<lambda>_. True) (reconcileInstance L fuel)"
  unfolding reconcileInstance_def reconcileServer_def reportReady_def reportNotReady_def
  by (intro stay assms TrueI)

lemma found_stays:
  assumes "ownerKeepsKey L"
  shows "keepsTo z (\<lambda>_. True) (reconcileFound L fuel)"
  unfolding reconcileFound_def reconcileDeletion_def deletionSteps_def finalBackup_def removeFinalizer_def
    ensureFinalizer_def conclude_def
  by (intro stay assms TrueI; simp add: dropFinalizer_def)

text \<open>C9: An instance keeps to its own objects. In every run of Reconcile, whatever state the cluster is in and
  wherever the run is cut off, each request is about an object that bears a name made from the instance's
  own, in its own namespace: nothing is read, written, deleted or executed anywhere else. And no object is
  reached from two instances, but a Secret the spec of one names and the other uses too; and a Secret
  that is there gets the version label and nothing else, and one is made only when the spec names none.
  It takes that the API server answers with the object it was asked for, that accepted writes are
  echoed, and that setting the owner leaves the name as it is.\<close>

theorem instances_keep_to_their_own:
  assumes "ownerKeepsKey L"
    and "steps (Reconcile L fuel req) ((QGetInstance req, RInstance i) # tr) p"
    and "\<forall>(q, a)\<in>set ((QGetInstance req, RInstance i) # tr). keyed q a" and "(q, a) \<in> set tr"
  shows "(\<forall>t. target q = Some t \<longrightarrow> t \<in> own i)
    \<and> (\<forall>t j. target q = Some t \<and> t \<in> own j \<and> in_key j \<noteq> req \<longrightarrow>
         t = (KSecret, (in_namespace j, sysdbaSecretRefName j)) \<and> sysdbaSecretRefName i = sysdbaSecretRefName j)
    \<and> (\<forall>s s'. q = QPatchSecret s s' \<longrightarrow> (\<exists>v. s' = relabelled v s))
    \<and> (\<forall>s. q = QCreateSecret s \<longrightarrow> sy_secretRef (au_sysdba (sp_authentication (in_spec i))) = [])"
proof -
  obtain pre post where tr: "tr = pre @ (q, a) # post" using assms(4) by (auto dest: split_list)
  have key: "in_key i = req" using assms(3) by (cases req) (simp add: keyed_def)
  have "wpa (\<lambda>_. keyed) (\<lambda>_. proper i) (\<lambda>_ _ _. True) (reconcileFound L fuel) i []"
    by (rule wpa_mono [OF found_stays [OF assms(1), unfolded keepsTo_def, rule_format]]) (auto simp: same_def)
  moreover have "answered (\<lambda>_. keyed) [] (pre @ (q, a) # post)"
    using assms(3) unfolding tr [symmetric] answered_history_free by simp
  ultimately have own: "proper i q"
    by (rule Reconcile_guard [OF assms(2) [unfolded tr]])
  have apart: "t = (KSecret, (in_namespace j, sysdbaSecretRefName j)) \<and> sysdbaSecretRefName i = sysdbaSecretRefName j"
    if "target q = Some t" "t \<in> own j" "in_key j \<noteq> req" for t j
  proof -
    obtain kind k where t: "t = (kind, k)" by (cases t)
    have "t \<in> own i" using own that(1) by (simp add: proper_def)
    then show ?thesis
      using own_apart [of kind k i j] that key unfolding t
      by (cases "kind = KSecret") (auto simp: own_def ownNames_def)
  qed
  show ?thesis using own apart by (auto simp: proper_def)
qed

theorem instances_keep_to_their_own_witness:
  "target (QGetSecret (''ns'', ''db-sysdba'')) = Some (KSecret, (''ns'', ''db-sysdba''))
   \<and> (KSecret, (''ns'', ''db-sysdba'')) \<in> own (sampleInstance ''5.0.1'')
   \<and> (KSecret, (''ns'', ''db-sysdba'')) \<notin> own ((sampleInstance ''5.0.1'')\<lparr>in_name := ''test''\<rparr>)"
proof -
  let ?i = "sampleInstance ''5.0.1''" and ?k = "(''ns'', ''db-sysdba'')"
  have L: "ownerKeepsKey sampleLib" by (auto simp: ownerKeepsKey_def sampleLib_def)
  have here: "lib_containsFinalizer sampleLib (in_finalizers ?i) finalizerName" "\<not> in_deleting ?i"
      "in_namespace ?i = ''ns''" "sysdbaSecretRefName ?i = ''db-sysdba''"
    by (simp_all add: sample_defs sysdbaSecretRefName_def)
  have "\<exists>k. reconcileFound sampleLib 1 ?i = Call (QGetSecret ?k) k"
    by (simp add: reconcileFound_def ensureFinalizer_def reconcileInstance_def reconcileSysdbaSecret_def Let_def act_defs here)
  then obtain p where run: "steps (Reconcile sampleLib 1 (''ns'', ''db''))
      [(QGetInstance (''ns'', ''db''), RInstance ?i), (QGetSecret ?k, RErr (ApiError []))] p"
    by (fastforce simp: Reconcile_def intro!: steps.intros)
  show ?thesis
    using instances_keep_to_their_own [OF L run, of "QGetSecret ?k" "RErr (ApiError [])"]
    by (auto simp: keyed_def echo_def sample_defs sysdbaSecretRefName_def)
qed

end
