(* ===== verification/Sharing.thy ===== *)
theory Sharing
  imports Own
begin

text \<open>
  Several instances that use one Secret: a reconcile of one may relabel the Secret, and the watch on
  Secrets then asks for a reconcile of each. The steps of this loop, and why it does not come to rest
  while the servers have different versions.
\<close>

section \<open>The loop\<close>

text \<open>What the Secret's label says of an instance's version.\<close>

definition labelFits :: "Secret \<Rightarrow> Instance \<Rightarrow> bool" where
  "labelFits s i \<longleftrightarrow> st_firebirdVersion (in_status i) = []
     \<or> mapGet (om_labels (sec_meta s)) firebirdVersionLabelKey = st_firebirdVersion (in_status i)"

text \<open>The instances that use a Secret.\<close>

definition usesSecret :: "Secret \<Rightarrow> Instance \<Rightarrow> bool" where
  "usesSecret s i = ((in_namespace i, sysdbaSecretRefName i) = keyOf (sec_meta s))"

abbreviation sharers :: "Instance list \<Rightarrow> Secret \<Rightarrow> Instance list" where
  "sharers insts s \<equiv> filter (usesSecret s) insts"

text \<open>The Secret and the keys in the work queue. A reconcile of a queued instance finds the Secret; when it
  patches it, the patch is applied and the watch puts the instances into the queue that
  \<open>findInstancesForSecret\<close> returns, the API server answering with those that use the Secret.\<close>

inductive serves :: "nat \<Rightarrow> Instance list \<Rightarrow> Secret \<times> nsname set \<Rightarrow> Secret \<times> nsname set \<Rightarrow> bool"
  for fuel insts where
  quiet: "i \<in> set insts \<Longrightarrow> in_key i \<in> queue
    \<Longrightarrow> steps (reconcileSysdbaSecret fuel i) [(QGetSecret (keyOf (sec_meta s)), RSecret s)] (Ret r)
    \<Longrightarrow> serves fuel insts (s, queue) (s, queue - {in_key i})"
| patched: "i \<in> set insts \<Longrightarrow> in_key i \<in> queue
    \<Longrightarrow> steps (reconcileSysdbaSecret fuel i)
          [(QGetSecret (keyOf (sec_meta s)), RSecret s), (QPatchSecret s s', RUnit)] (Ret r)
    \<Longrightarrow> steps (findInstancesForSecret (om_namespace (sec_meta s')) (om_name (sec_meta s')))
          [(QListInstances ns field name, RInstances (sharers insts s'))] (Ret requests)
    \<Longrightarrow> serves fuel insts (s, queue) (s', queue - {in_key i} \<union> set requests)"

section \<open>One turn\<close>

text \<open>The run of a reconcile that finds the Secret: it patches the label exactly when it does not fit.\<close>

lemma found_secret_runs:
  assumes "steps (reconcileSysdbaSecret fuel i) ((QGetSecret k, RSecret s) # tr) (Ret r)"
  shows "if labelFits s i then tr = []
    else \<exists>a. tr = [(QPatchSecret s (relabelled (st_firebirdVersion (in_status i)) s), a)]"
  using assms
  by (auto simp: reconcileSysdbaSecret_def syncFirebirdVersionLabel_def Let_def act_defs labelFits_def relabelled_def
      elim!: steps_CallE steps_RetE split: sum.splits)

lemma relabels:
  assumes "\<not> labelFits s i" and "usesSecret s i"
  shows "steps (reconcileSysdbaSecret fuel i)
     [(QGetSecret (keyOf (sec_meta s)), RSecret s),
      (QPatchSecret s (relabelled (st_firebirdVersion (in_status i)) s), RUnit)] (Ret (Inr (), i))"
  unfolding assms(2) [unfolded usesSecret_def, symmetric]
  using assms(1)
  by (auto simp: reconcileSysdbaSecret_def syncFirebirdVersionLabel_def Let_def act_defs labelFits_def relabelled_def
      intro!: steps.intros)

lemma watch_asks_for_users:
  "steps (findInstancesForSecret n m) [(QListInstances ns field name, RInstances us)] (Ret requests)
   \<Longrightarrow> requests = map in_key us"
  by (auto simp: findInstancesForSecret_def elim!: steps_CallE steps_RetE)

lemma usesSecret_relabelled [simp]: "usesSecret (relabelled v s) = usesSecret s"
  by (simp add: fun_eq_iff usesSecret_def relabelled_def)

section \<open>The loop does not rest\<close>

text \<open>The label fits every instance that uses the Secret and is not in the queue.\<close>

definition settledOutside :: "Instance list \<Rightarrow> (Instance \<Rightarrow> bool) \<Rightarrow> Secret \<times> nsname set \<Rightarrow> bool" where
  "settledOutside insts U st \<longleftrightarrow> usesSecret (fst st) = U
     \<and> (\<forall>u\<in>set insts. U u \<and> in_key u \<notin> snd st \<longrightarrow> labelFits (fst st) u)"

lemma serves_settles:
  assumes "serves fuel insts st st'" and "distinct (map in_key insts)" and "settledOutside insts U st"
  shows "settledOutside insts U st'"
  using assms
proof (induction rule: serves.induct)
  case (quiet i queue s r)
  have "labelFits s i" using found_secret_runs [OF quiet(3)] by (auto split: if_splits)
  moreover have "u = i" if "u \<in> set insts" "in_key u = in_key i" for u
    using that quiet(1,4) by (simp add: distinct_map inj_on_def)
  ultimately show ?case using quiet(5) by (auto simp: settledOutside_def)
next
  case (patched i queue s s' r ns field name requests)
  have "usesSecret s' = usesSecret s" using found_secret_runs [OF patched(3)] by (auto split: if_splits)
  then show ?case using patched(6) watch_asks_for_users [OF patched(4)] by (auto simp: settledOutside_def)
qed

text \<open>C31: A Secret that is shared is fought over. When two instances whose servers have different versions use
  the same Secret, the work queue never gets empty: however often instances were reconciled since, there
  is one in the queue whose version the label does not bear; its reconcile relabels the Secret, and the
  watch then asks again for every instance that uses it. A reconcile that finds its own version on a
  Secret, or knows of none, leaves it as it is: reading it is all it does with it.\<close>

theorem shared_secret_never_rests:
  assumes "distinct (map in_key insts)" and "i \<in> set insts" and "j \<in> set insts"
    and "usesSecret s i" and "usesSecret s j"
    and "st_firebirdVersion (in_status i) \<noteq> st_firebirdVersion (in_status j)"
    and "st_firebirdVersion (in_status i) \<noteq> []" and "st_firebirdVersion (in_status j) \<noteq> []"
    and "(serves fuel insts)\<^sup>*\<^sup>* (s, set (map in_key insts)) (s', queue)"
  shows "(\<exists>u\<in>set insts. usesSecret s u \<and> in_key u \<in> queue \<and> \<not> labelFits s' u
    \<and> serves fuel insts (s', queue)
        (relabelled (st_firebirdVersion (in_status u)) s', queue \<union> set (map in_key (sharers insts s))))
    \<and> (\<forall>v t k tr r. labelFits t v
         \<and> steps (reconcileSysdbaSecret fuel v) ((QGetSecret k, RSecret t) # tr) (Ret r) \<longrightarrow> tr = [])"
proof -
  have "settledOutside insts (usesSecret s) (s, set (map in_key insts))" by (simp add: settledOutside_def)
  with assms(9) have inv: "settledOutside insts (usesSecret s) (s', queue)"
    by (induction rule: rtranclp_induct) (use serves_settles [OF _ assms(1)] in blast)+
  then have uses: "usesSecret s' = usesSecret s" by (simp add: settledOutside_def)
  have "\<not> (labelFits s' i \<and> labelFits s' j)" using assms(6-8) by (auto simp: labelFits_def)
  then obtain u where u: "u \<in> set insts" "usesSecret s u" "\<not> labelFits s' u" using assms(2-5) by blast
  then have queued: "in_key u \<in> queue" using inv by (auto simp: settledOutside_def)
  let ?s = "relabelled (st_firebirdVersion (in_status u)) s'"
  have "steps (findInstancesForSecret (om_namespace (sec_meta ?s)) (om_name (sec_meta ?s)))
      [(QListInstances (om_namespace (sec_meta ?s)) secretRefIndexField (om_name (sec_meta ?s)),
        RInstances (sharers insts ?s))] (Ret (map in_key (sharers insts ?s)))"
    by (auto simp: findInstancesForSecret_def intro!: steps.intros)
  from serves.patched [OF u(1) queued relabels this] u uses
  have "serves fuel insts (s', queue) (?s, queue - {in_key u} \<union> set (map in_key (sharers insts s)))" by simp
  moreover have "queue - {in_key u} \<union> set (map in_key (sharers insts s)) = queue \<union> set (map in_key (sharers insts s))"
    using u by auto
  ultimately have turn: "serves fuel insts (s', queue) (?s, queue \<union> set (map in_key (sharers insts s)))" by simp
  show ?thesis
  proof (intro conjI allI impI)
    show "\<exists>u\<in>set insts. usesSecret s u \<and> in_key u \<in> queue \<and> \<not> labelFits s' u
      \<and> serves fuel insts (s', queue)
          (relabelled (st_firebirdVersion (in_status u)) s', queue \<union> set (map in_key (sharers insts s)))"
      using u queued turn by blast
  next
    fix v t k tr r
    assume "labelFits t v \<and> steps (reconcileSysdbaSecret fuel v) ((QGetSecret k, RSecret t) # tr) (Ret r)"
    then show "tr = []" using found_secret_runs [of fuel v k t tr r] by simp
  qed
qed

text \<open>Two instances whose spec names one Secret, which bears the label of the first.\<close>

definition versioned :: "string \<Rightarrow> string \<Rightarrow> Instance" where
  "versioned name v = upd_status (\<lambda>s. s\<lparr>st_firebirdVersion := v\<rparr>)
     ((sampleInstance ''5'')\<lparr>in_name := name, in_spec := (sampleSpec ''5'')\<lparr>sp_authentication :=
        \<lparr>au_sysdba = \<lparr>sy_secretRef = ''shared''\<rparr>\<rparr>\<rparr>\<rparr>)"

definition sharedSecret :: Secret where
  "sharedSecret = \<lparr>sec_meta = noMeta\<lparr>om_name := ''shared'', om_namespace := ''ns'',
     om_labels := [firebirdVersionLabelKey \<mapsto> ''4.0.5'']\<rparr>, sec_data = Map.empty, sec_stringData = Map.empty\<rparr>"

theorem shared_secret_never_rests_witness:
  "serves 1 [versioned ''old'' ''4.0.5'', versioned ''new'' ''5.0.1'']
     (sharedSecret, {(''ns'', ''old''), (''ns'', ''new'')})
     (relabelled ''5.0.1'' sharedSecret, {(''ns'', ''old''), (''ns'', ''new'')})"
proof -
  let ?i = "versioned ''old'' ''4.0.5''" and ?j = "versioned ''new'' ''5.0.1''"
  have keys: "in_key ?i = (''ns'', ''old'')" "in_key ?j = (''ns'', ''new'')"
      "st_firebirdVersion (in_status ?i) = ''4.0.5''" "st_firebirdVersion (in_status ?j) = ''5.0.1''"
      "usesSecret sharedSecret ?i" "usesSecret sharedSecret ?j"
    by (simp_all add: versioned_def sample_defs usesSecret_def sharedSecret_def sysdbaSecretRefName_def)
  have "labelFits sharedSecret ?i" by (simp add: labelFits_def keys sharedSecret_def mapGet_def)
  then show ?thesis
    using shared_secret_never_rests [of "[?i, ?j]" ?i ?j sharedSecret 1 sharedSecret, OF _ _ _ keys(5,6) _ _ _
        rtranclp.rtrancl_refl]
    by (auto simp: keys insert_commute)
qed

end
