(* ===== verification/Rest.thy ===== *)
theory Rest
  imports Desired Success
begin

text \<open>
  Where reconciling ends: an instance that is ready and in order asks for no change at all, so that its
  reconcile causes no further event.
\<close>

section \<open>At rest\<close>

text \<open>An instance with nothing left to do: its databases are made, the version is known, and the status says
  so already. The condition is there with its message and generation, so that SetStatusCondition leaves it
  as it is.\<close>

definition inOrder :: "lib \<Rightarrow> Instance \<Rightarrow> bool" where
  "inOrder L i =
     (\<not> in_deleting i \<and> lib_containsFinalizer L (in_finalizers i) finalizerName
      \<and> upgrade_of i = None \<and> pendingDatabases i = [] \<and> removedDatabases i = []
      \<and> length (spec_databases i) \<le> length (status_databases i)
      \<and> st_firebirdVersion (in_status i) \<noteq> [] \<and> st_phase (in_status i) = phaseReady
      \<and> lib_setStatusCondition L (st_conditions (in_status i))
          (availableCondition ''True'' ''StatefulSetReady'' ''Firebird instance is ready'' i)
          = (st_conditions (in_status i), False)
      \<and> errorSettled L None i)"

definition labelled :: "Instance \<Rightarrow> ObjectMeta \<Rightarrow> bool" where
  "labelled i m = (mapGet (om_labels m) firebirdVersionLabelKey = st_firebirdVersion (in_status i))"

text \<open>A cluster in which everything is there as it should be: what each request about an object of the
  instance is answered with.\<close>

definition claimNames :: "Instance \<Rightarrow> string list" where
  "claimNames i = primaryPVCName i # (if backupVolumeSpec i \<noteq> None then [backupPVCName i] else [])
     @ (if sg_shadow (sp_storage (in_spec i)) \<noteq> None then [shadowPVCName i] else [])"

definition cronJobKey :: "Instance \<Rightarrow> backupFrequency \<Rightarrow> nsname" where
  "cronJobKey i freq = (in_namespace i, scheduledBackupCronJobName i (bf_name freq))"

fun atRest :: "lib \<Rightarrow> Instance \<Rightarrow> Secret \<Rightarrow> request \<Rightarrow> answer \<Rightarrow> bool" where
  "atRest L i sec (QGetSecret k) r \<longleftrightarrow> (k = (in_namespace i, sysdbaSecretRefName i)
     \<longrightarrow> (\<exists>s. r = RSecret s \<and> sec_data s = sec_data sec \<and> labelled i (sec_meta s)))"
| "atRest L i sec (QGetPvc k) r \<longleftrightarrow> (fst k = in_namespace i \<and> snd k \<in> set (claimNames i)
     \<longrightarrow> (\<exists>p. r = RPvc p \<and> labelled i (pvc_meta p)))"
| "atRest L i sec (QGetSts k) r \<longleftrightarrow> (k = in_key i \<longrightarrow>
     (\<exists>sts. r = RSts sts
        \<and> decideUpgrade (statefulSetFirebirdVersion sts) (version_of i) (backupVolumeSpec i \<noteq> None) = NoUpgrade))"
| "atRest L i sec (QFetchConfigMap k) r \<longleftrightarrow> (k = (in_namespace i, aliasesConfigMapName i)
     \<longrightarrow> (\<exists>cm. r = RConfigMap cm \<and> mutateAliasesConfigMap L i cm = Inr cm))"
| "atRest L i sec (QStoreConfigMap cm) r \<longleftrightarrow> r = RConfigMap cm"
| "atRest L i sec (QFetchService k) r \<longleftrightarrow> (k = in_key i
     \<longrightarrow> (\<exists>svc. r = RService svc \<and> mutateService L i svc = Inr svc))"
| "atRest L i sec (QStoreService svc) r \<longleftrightarrow> r = RService svc"
| "atRest L i sec (QFetchSts k) r \<longleftrightarrow> (k = in_key i \<longrightarrow>
     (\<exists>sts. r = RSts sts \<and> stsReady sts
        \<and> setOwner L i sts_meta (\<lambda>m o'. o'\<lparr>sts_meta := m\<rparr>)
            (desiredStatefulSet i (mapGet (sec_data sec) sysdbaSecretPasswordKey) sts) = Inr sts))"
| "atRest L i sec (QStoreSts sts) r \<longleftrightarrow> r = RSts sts"
| "atRest L i sec (QGetPod k) r \<longleftrightarrow> (k = (in_namespace i, firebirdPodName i)
     \<longrightarrow> (\<exists>pod. r = RPod pod \<and> labelled i (pod_meta pod)))"
| "atRest L i sec (QGetCronJob k) r \<longleftrightarrow>
     (\<forall>freq\<in>set backupFrequencies. frequencyWanted i freq \<and> k = cronJobKey i freq \<longrightarrow> (\<exists>cj. r = RCronJob cj))"
| "atRest L i sec (QFetchCronJob k) r \<longleftrightarrow>
     (\<forall>freq\<in>set backupFrequencies. frequencyWanted i freq \<and> k = cronJobKey i freq
        \<longrightarrow> (\<exists>cj. r = RCronJob cj \<and> mutateScheduledBackupCronJob L i freq cj = Inr cj))"
| "atRest L i sec (QStoreCronJob cj) r \<longleftrightarrow> r = RCronJob cj"
| "atRest L i sec (QDeleteCronJob k) r \<longleftrightarrow>
     (\<forall>freq\<in>set backupFrequencies. \<not> frequencyWanted i freq \<and> k = cronJobKey i freq
        \<longrightarrow> (\<exists>e. r = RErr e \<and> isNotFound e))"
| "atRest L i sec q r \<longleftrightarrow> True"

text \<open>Requests that change nothing: reading, fetching the objects of the instance, storing an object as it was fetched (which CreateOrUpdate then
  does not send), and deleting the CronJob of a frequency that is off.\<close>

fun quiet :: "Instance \<Rightarrow> event list \<Rightarrow> request \<Rightarrow> bool" where
  "quiet i h (QStoreConfigMap cm) = (\<exists>k. (QFetchConfigMap k, RConfigMap cm) \<in> set h)"
| "quiet i h (QStoreService svc) = (\<exists>k. (QFetchService k, RService svc) \<in> set h)"
| "quiet i h (QStoreSts sts) = (\<exists>k. (QFetchSts k, RSts sts) \<in> set h)"
| "quiet i h (QStoreCronJob cj) = (\<exists>k. (QFetchCronJob k, RCronJob cj) \<in> set h)"
| "quiet i h (QDeleteCronJob k) =
     (\<exists>freq\<in>set backupFrequencies. k = cronJobKey i freq \<and> \<not> frequencyWanted i freq)"
| "quiet i h (QFetchConfigMap k) = (k = (in_namespace i, aliasesConfigMapName i))"
| "quiet i h (QFetchService k) = (k = in_key i)" | "quiet i h (QFetchSts k) = (k = in_key i)"
| "quiet i h (QFetchCronJob k) = (\<exists>freq\<in>set backupFrequencies. k = cronJobKey i freq \<and> frequencyWanted i freq)"
| "quiet i h (QGetSecret k) = True" | "quiet i h (QGetPvc k) = True" | "quiet i h (QGetSts k) = True"
| "quiet i h (QGetPod k) = True" | "quiet i h (QGetCronJob k) = True"
| "quiet i h (QGetInstance k) = True" | "quiet i h (QListInstances a b c) = True"
| "quiet i h q = False"

text \<open>A step that changes nothing and succeeds.\<close>

abbreviation rests :: "lib \<Rightarrow> Instance \<Rightarrow> Secret \<Rightarrow> ('a \<Rightarrow> bool) \<Rightarrow> 'a act \<Rightarrow> bool" where
  "rests L i sec \<equiv> succeeds (\<lambda>h. atRest L i sec) (quiet i) (\<lambda>j h. j = i)"

lemma restsI:
  "(\<And>h. wpa (\<lambda>h. atRest L i sec) (quiet i) (\<lambda>r j h'. (\<exists>x. r = Inr x \<and> P x) \<and> j = i) m i h) \<Longrightarrow> rests L i sec P m"
  by (rule succeedsI) simp

lemma restsD:
  "rests L i sec P m \<Longrightarrow> (\<And>x h'. P x \<Longrightarrow> Q (Inr x) i h') \<Longrightarrow> wpa (\<lambda>h. atRest L i sec) (quiet i) Q m i h"
  by (erule succeedsD) auto

lemma rests_withI: "rests L i sec P (f i) \<Longrightarrow> rests L i sec P (withI f)"
  by (rule succeeds_withI) simp

section \<open>Every step is at rest\<close>

lemma sync_rests: "labelled i m \<Longrightarrow> rests L i sec (\<lambda>_. True) (syncFirebirdVersionLabel m patch)"
  by (rule restsI) (simp add: syncFirebirdVersionLabel_def wprule Let_def labelled_def)

lemma sysdbaPassword_rests:
  "rests L i sec (\<lambda>pw. pw = mapGet (sec_data sec) sysdbaSecretPasswordKey) sysdbaPassword"
  by (rule restsI) (auto simp: sysdbaPassword_def wprule Let_def asSecret_Inr split: sum.splits)

lemma secret_rests: "rests L i sec (\<lambda>_. True) (reconcileSysdbaSecret fuel)"
  by (rule restsI) (auto simp: reconcileSysdbaSecret_def wprule Let_def intro!: restsD [OF sync_rests])

lemma pvc_rests: "name \<in> set (claimNames i) \<Longrightarrow> rests L i sec (\<lambda>_. True) (reconcilePVC name vol)"
  by (rule restsI) (auto simp: reconcilePVC_def wprule intro!: restsD [OF sync_rests])

lemma pvcs_rest: "rests L i sec (\<lambda>_. True) reconcilePVCs"
  unfolding reconcilePVCs_def
  by (auto intro!: succeeds_rules rests_withI pvc_rests simp: claimNames_def split: option.split)

lemma upgrade_rests: "upgrade_of i = None \<Longrightarrow> rests L i sec (\<lambda>handled. \<not> handled) (reconcileMajorUpgrade L)"
  by (rule restsI) (auto simp: reconcileMajorUpgrade_def startMajorUpgrade_def wprule Let_def)

lemma owned_rests: "rests L i sec stsReady (reconcileOwned L)"
proof -
  have cm: "rests L i sec (\<lambda>_. True) (createOrUpdate (QFetchConfigMap k) asConfigMap QStoreConfigMap
      (\<lambda>cm. liftA (mutateAliasesConfigMap L i cm)))" if "k = (in_namespace i, aliasesConfigMapName i)" for k
    unfolding that by (rule restsI) (auto simp: createOrUpdate_def wprule simp del: split_paired_Ex)
  have svc: "rests L i sec (\<lambda>_. True) (createOrUpdate (QFetchService k) asService QStoreService
      (\<lambda>svc. liftA (mutateService L i svc)))" if "k = in_key i" for k
    unfolding that by (rule restsI) (auto simp: createOrUpdate_def wprule simp del: split_paired_Ex)
  have sts: "rests L i sec stsReady (createOrUpdate (QFetchSts k) asSts QStoreSts (mutateStatefulSet L))" if "k = in_key i" for k
    unfolding that by (rule restsI) (auto simp: createOrUpdate_def mutateStatefulSet_def wprule sysdbaPassword_def Let_def simp del: split_paired_Ex)
  show ?thesis
    unfolding reconcileOwned_def
    by (rule rests_withI, rule succeeds_bindA [OF succeeds_wrapA [OF cm [OF refl]]],
        rule succeeds_bindA [OF succeeds_wrapA [OF svc [OF refl]]], rule succeeds_thenA [OF pvcs_rest],
        rule succeeds_wrapA [OF sts [OF refl]])
qed

lemma frequency_rests:
  assumes "freq \<in> set backupFrequencies"
  shows "rests L i sec (\<lambda>_. True) (reconcileFrequency L freq)"
proof (rule restsI, cases "frequencyWanted i freq")
  fix h
  note defs = reconcileFrequency_def reconcileScheduledBackupCronJob_def deleteCronJob_def createOrUpdate_def
    wprule Let_def cronJobKey_def [symmetric]
  let ?wp = "wpa (\<lambda>h. atRest L i sec) (quiet i) (\<lambda>r j h'. (\<exists>x. r = Inr x \<and> True) \<and> j = i) (reconcileFrequency L freq) i h"
  show ?wp if "frequencyWanted i freq"
    using that assms by (fastforce simp: defs simp del: split_paired_Ex)
  show ?wp if "\<not> frequencyWanted i freq"
    using that assms by (fastforce simp: defs simp del: split_paired_Ex)
qed

lemma version_rests: "st_firebirdVersion (in_status i) \<noteq> [] \<Longrightarrow> rests L i sec (\<lambda>_. True) reconcileFirebirdVersion"
  by (rule restsI) (auto simp: reconcileFirebirdVersion_def wprule Let_def labelled_def)

lemma server_rests:
  assumes "inOrder L i" and "stsReady sts"
  shows "rests L i sec (\<lambda>_. True) (reconcileServer L sts)"
proof -
  have "rests L i sec (\<lambda>_. True) (reconcileDatabases (sts_readyReplicas sts))"
    using assms(1) by (intro restsI) (simp add: reconcileDatabases_def wprule inOrder_def Let_def)
  moreover have "rests L i sec (\<lambda>_. True) (whenA (stsReady sts) (thenA (reconcileScheduledBackups L) reconcileFirebirdVersion))"
    using assms unfolding whenA_def reconcileScheduledBackups_def inOrder_def
    by (auto intro!: succeeds_thenA succeeds_forA frequency_rests version_rests)
  moreover have "availableSettled L ''True'' ''StatefulSetReady'' ''Firebird instance is ready'' i"
    "availableEdit L ''True'' ''StatefulSetReady'' ''Firebird instance is ready'' i = i"
    and phase: "upd_status (\<lambda>s. s\<lparr>st_phase := phaseReady\<rparr>) i = i"
    using assms(1) phase.settled_edit [of i phaseReady]
    by (simp_all add: inOrder_def availableSettled_def availableEdit_def)
  then have "rests L i sec (\<lambda>_. True) (reportReady L)"
    using assms(1)
    by (intro restsI) (simp add: reportReady_def finishMajorUpgrade_def wprule wpa_writers inOrder_def phase)
  ultimately show ?thesis
    using assms unfolding reconcileServer_def
    by (intro succeeds_thenA rests_withI) (auto simp: inOrder_def)
qed

lemma instance_rests:
  assumes "inOrder L i"
  shows "rests L i sec (\<lambda>_. True) (reconcileInstance L fuel)"
proof -
  have "upgrade_of i = None" using assms by (simp add: inOrder_def)
  then show ?thesis
    unfolding reconcileInstance_def
    by (intro succeeds_thenA [OF secret_rests] succeeds_bindA [OF upgrade_rests])
      (auto intro!: succeeds_bindA [OF owned_rests] server_rests [OF assms])
qed

lemma found_rests:
  assumes "inOrder L i"
  shows "rests L i sec (\<lambda>res. res = reconciled) (reconcileFound L fuel)"
proof (rule restsI)
  fix h
  have i: "\<not> in_deleting i" "lib_containsFinalizer L (in_finalizers i) finalizerName" "errorSettled L None i"
    using assms by (simp_all add: inOrder_def)
  have "errorEdit L None i = i" using i(3) by (rule reconcile_error.settled_edit)
  with i have conclude: "wpa (\<lambda>h. atRest L i sec) (quiet i) (\<lambda>r j h'. r = Inr reconciled \<and> j = i)
      (conclude L (Inr ())) i h'" for h'
    by (simp add: conclude_def errorOf_def wprule wpa_writers)
  show "wpa (\<lambda>h. atRest L i sec) (quiet i) (\<lambda>r j h'. (\<exists>x. r = Inr x \<and> x = reconciled) \<and> j = i) (reconcileFound L fuel) i h"
    using i by (simp add: reconcileFound_def ensureFinalizer_def wprule)
      (rule restsD [OF instance_rests [OF assms]], simp, rule wpa_mono [OF conclude], auto simp: reconciled_def)
qed

text \<open>C21: An instance in order is left alone: when it is ready, fully reported and without an upgrade, and the
  cluster has everything the operator keeps for it as it should be, a reconcile makes no request that
  changes anything, however often it runs and wherever it is cut off: it reads, stores objects as it
  fetched them, deletes CronJobs of frequencies that are off, and returns without an error. So it
  causes no event that would start the next one.\<close>

theorem settled_instance_is_left_alone:
  assumes "steps (Reconcile L fuel req) ((QGetInstance req, RInstance i) # tr) p"
    and "inOrder L i" and "list_all (\<lambda>(q, a). atRest L i sec q a) tr"
  shows "(\<forall>pre q a post. tr = pre @ (q, a) # post \<longrightarrow> quiet i (rev pre) q)
    \<and> (\<forall>res. p = Ret res \<longrightarrow> res = (None, None))"
proof -
  let ?A = "\<lambda>h. atRest L i sec"
  have calm: "answered ?A [] tr"
    using assms(3) by (simp add: answered_history_free list_all_iff)
  have found: "wpa ?A (quiet i) (\<lambda>r j h'. (\<exists>x. r = Inr x \<and> x = reconciled) \<and> j = i) (reconcileFound L fuel) i []"
    using found_rests [OF assms(2)] by (simp add: succeeds_def)
  have "wpa ?A (quiet i) (\<lambda>r j h. True) (reconcileFound L fuel) i []"
    by (rule wpa_mono [OF found]) simp
  then have "quiet i (rev pre) q" if "tr = pre @ (q, a) # post" for pre q a post
    using Reconcile_guard [OF assms(1) [unfolded that], of ?A "quiet i"] calm that by simp
  moreover have "wpa ?A (\<lambda>_ _. True) (\<lambda>r j h. resultOf r = (None, None)) (reconcileFound L fuel) i []"
    by (rule wpa_mono [OF found]) (auto simp: resultOf_def reconciled_def)
  then have "res = (None, None)" if "p = Ret res" for res
    using Reconcile_result [OF assms(1) [unfolded that], of ?A "\<lambda>res h. res = (None, None)"] calm by simp
  ultimately show ?thesis by blast
qed


text \<open>An instance in order, and a cluster at rest around it.\<close>

definition restingInstance :: Instance where
  "restingInstance = upd_status (\<lambda>s. s\<lparr>st_firebirdVersion := ''5.0.2'', st_message := ''Firebird instance is ready'',
     st_conditions := [availableCondition ''True'' ''StatefulSetReady'' ''Firebird instance is ready''
       (sampleInstance ''5.0'')]\<rparr>) (sampleInstance ''5.0'')"

definition restingMeta :: ObjectMeta where
  "restingMeta = noMeta\<lparr>om_labels := [firebirdVersionLabelKey \<mapsto> ''5.0.2''], om_owners := [''db'']\<rparr>"

definition restingSecret :: Secret where
  "restingSecret = \<lparr>sec_meta = restingMeta, sec_data = [sysdbaSecretPasswordKey \<mapsto> ''masterkey''],
     sec_stringData = Map.empty\<rparr>"

definition restingCm :: ConfigMap where
  "restingCm = desiredAliasesConfigMap restingInstance \<lparr>cm_meta = restingMeta, cm_data = Map.empty\<rparr>"

definition restingService :: Service where
  "restingService = desiredService restingInstance \<lparr>svc_meta = restingMeta, svc_type = [],
     svc_selector = Map.empty, svc_ports = [], svc_clusterIP = ''10.0.0.1''\<rparr>"

definition restingSts :: StatefulSet where
  "restingSts = desiredStatefulSet restingInstance ''masterkey'' (sampleSts [] 1\<lparr>sts_meta := restingMeta\<rparr>)"

fun restingCluster :: "event list \<Rightarrow> request \<Rightarrow> answer" where
  "restingCluster h (QGetInstance k) = RInstance restingInstance"
| "restingCluster h (QGetSecret k) = RSecret restingSecret"
| "restingCluster h (QGetPvc k) =
     RPvc \<lparr>pvc_meta = restingMeta, pvc_accessModes = [], pvc_size = ''1Gi'', pvc_class = None\<rparr>"
| "restingCluster h (QGetSts k) = RSts (sampleSts ''firebird:5.0'' 1)"
| "restingCluster h (QFetchConfigMap k) = RConfigMap restingCm"
| "restingCluster h (QStoreConfigMap cm) = RConfigMap cm"
| "restingCluster h (QFetchService k) = RService restingService"
| "restingCluster h (QStoreService svc) = RService svc"
| "restingCluster h (QFetchSts k) = RSts restingSts"
| "restingCluster h (QStoreSts sts) = RSts sts"
| "restingCluster h (QGetPod k) = RPod ((finishedPod ''Running'')\<lparr>pod_meta := restingMeta\<rparr>)"
| "restingCluster h (QGetCronJob k) = RErr (ApiNotFound ''not found'')"
| "restingCluster h (QDeleteCronJob k) = RErr (ApiNotFound ''not found'')"
| "restingCluster h (QStoreCronJob cj) = RCronJob cj"
| "restingCluster h q = RUnit"


lemmas resting_defs =
  restingInstance_def restingMeta_def restingSecret_def restingCm_def restingService_def restingSts_def noMeta_def

lemma resting_inOrder: "inOrder sampleLib restingInstance"
  by code_simp

lemma resting_unscheduled: "freq \<in> set backupFrequencies \<Longrightarrow> \<not> frequencyWanted restingInstance freq"
proof -
  assume "freq \<in> set backupFrequencies"
  then have "bf_retention freq (bk_retention (sp_backup (in_spec restingInstance))) = []"
    by (auto simp: backupFrequencies_def restingInstance_def sample_defs)
  moreover have "\<not> (case parseRetention [] of Inl _ \<Rightarrow> False | Inr d \<Rightarrow> retentionEnabled d)"
    by code_simp
  ultimately show ?thesis
    by (simp add: frequencyWanted_def frequencyRetention_def retentionEnabled_def noRetention_def split: sum.splits)
qed

lemma resting_meta: "om_labels restingMeta = [firebirdVersionLabelKey \<mapsto> ''5.0.2'']"
  by (simp add: restingMeta_def)

lemma resting_secret: "sec_meta restingSecret = restingMeta"
  by (simp add: restingSecret_def)

lemma resting_version: "st_firebirdVersion (in_status restingInstance) = ''5.0.2''"
  by (simp add: restingInstance_def)

lemma resting_current:
  "decideUpgrade (statefulSetFirebirdVersion (sampleSts ''firebird:5.0'' 1)) (version_of restingInstance)
     (backupVolumeSpec restingInstance \<noteq> None) = NoUpgrade"
  by code_simp

lemma resting_atRest: "atRest sampleLib restingInstance restingSecret q (restingCluster h q)"
proof (cases q)
  case (QFetchConfigMap k)
  then show ?thesis
    by (simp add: mutateAliasesConfigMap_def setOwner_def restingCm_def desiredAliasesConfigMap_def sampleLib_def
        relabel_def restingMeta_def noMeta_def restingInstance_def sampleInstance_def)
next
  case (QFetchService k)
  then show ?thesis
    by (simp add: mutateService_def setOwner_def restingService_def desiredService_def sampleLib_def Let_def
        relabel_def restingMeta_def noMeta_def restingInstance_def sampleInstance_def)
next
  case (QFetchSts k)
  then show ?thesis
    by (simp add: setOwner_def restingSts_def desiredStatefulSet_def desiredTemplate_def sampleLib_def stsReady_def
        restingSecret_def mapGet_def relabel_def restingMeta_def noMeta_def sampleSts_def
        restingInstance_def sampleInstance_def)
qed (auto simp: labelled_def mapGet_def resting_meta resting_secret resting_version resting_current resting_unscheduled simp del: not_None_eq)

lemma settled_instance_is_left_alone_witness:
  "fst (runWith restingCluster sampleReconcile []) = (None, None)"
proof -
  let ?res = "fst (runWith restingCluster sampleReconcile [])"
  have run: "steps sampleReconcile ((QGetInstance (''ns'', ''db''), RInstance restingInstance)
      # runOf restingCluster sampleReconcile) (Ret ?res)"
    by (rule runOf_steps) simp_all
  have "list_all (\<lambda>(q, a). atRest sampleLib restingInstance restingSecret q a)
      (runOf restingCluster sampleReconcile)"
    by (rule runOf_all) (rule resting_atRest)
  then show ?thesis
    using settled_instance_is_left_alone [OF run resting_inOrder] by simp
qed

end
