(* ===== verification/Known.thy ===== *)
theory Known
  imports Rest Own
begin

text \<open>
  What a history tells about the objects of the cluster, which requests leave that knowledge as it is, and
  what each step of a reconcile adds to it: when the step succeeds, the object it is about is known to be
  as it should be.
\<close>

section \<open>What the cluster holds\<close>

text \<open>What an event tells about the object it is about: the object as it is afterwards, an error when it is
  gone, or nothing. The server merges \<open>stringData\<close> into the data of a Secret.\<close>

definition seen :: "answer \<Rightarrow> answer option \<Rightarrow> answer option" where
  "seen r x = (case r of RErr e \<Rightarrow> x | _ \<Rightarrow> Some r)"

definition written :: "answer \<Rightarrow> answer \<Rightarrow> answer option" where
  "written y r = (case r of RErr e \<Rightarrow> None | _ \<Rightarrow> Some y)"

definition kept :: "Secret \<Rightarrow> Secret" where
  "kept s = s\<lparr>sec_data := sec_data s ++ sec_stringData s, sec_stringData := Map.empty\<rparr>"

fun learn :: "request \<Rightarrow> answer \<Rightarrow> answer option \<Rightarrow> answer option" where
  "learn (QGetSts k) r x = seen r x"
| "learn (QUpdateSts s) r x = None"
| "learn (QStoreSts s) r x = written r r"
| "learn (QGetPvc k) r x = seen r x"
| "learn (QCreatePvc p) r x = written (RPvc p) r"
| "learn (QDeletePvc k) r x = None"
| "learn (QPatchPvc p p') r x = written (RPvc p') r"
| "learn (QGetSecret k) r x = seen r x"
| "learn (QCreateSecret s) r x = written (RSecret (kept s)) r"
| "learn (QPatchSecret s s') r x = written (RSecret s') r"
| "learn (QGetPod k) r x = seen r x"
| "learn (QCreatePod p) r x = None"
| "learn (QDeletePod k) r x = None"
| "learn (QPatchPod p p') r x = written (RPod p') r"
| "learn (QGetCronJob k) r x = seen r x"
| "learn (QDeleteCronJob k) r x = (if gone r then Some (RErr (ApiNotFound [])) else None)"
| "learn (QStoreCronJob c) r x = written r r"
| "learn (QStoreConfigMap c) r x = written r r"
| "learn (QStoreService s) r x = written r r"
| "learn q r x = x"

text \<open>After a history, latest event first.\<close>

fun known :: "event list \<Rightarrow> objectKind \<times> nsname \<Rightarrow> answer option" where
  "known [] t = None"
| "known ((q, r) # h) t = (if target q = Some t then learn q r (known h t) else known h t)"

text \<open>An object read again is the same. Of claims, Secrets and pods only what the operator reads is compared:
  the server and the kubelet write to them too.\<close>

fun alike :: "answer \<Rightarrow> answer \<Rightarrow> bool" where
  "alike (RPvc p) r \<longleftrightarrow> (\<exists>p'. r = RPvc p' \<and> om_labels (pvc_meta p') = om_labels (pvc_meta p))"
| "alike (RSecret s) r \<longleftrightarrow>
     (\<exists>s'. r = RSecret s' \<and> om_labels (sec_meta s') = om_labels (sec_meta s) \<and> sec_data s' = sec_data s)"
| "alike (RPod p) r \<longleftrightarrow> (\<exists>p'. r = RPod p' \<and> om_labels (pod_meta p') = om_labels (pod_meta p))"
| "alike (RErr e) r \<longleftrightarrow> (\<exists>e'. r = RErr e' \<and> (isNotFound e \<longrightarrow> isNotFound e'))"
| "alike x r \<longleftrightarrow> r = x"

fun isError :: "answer \<Rightarrow> bool" where
  "isError (RErr e) = True" | "isError _ = False"

lemma alike_refl: "alike x x"
  by (cases x) auto

lemma alike_trans: "alike x y \<Longrightarrow> alike y z \<Longrightarrow> alike x z"
  by (cases x) auto

lemma alike_error: "alike x y \<Longrightarrow> isError x = isError y"
  by (cases x; cases y) auto

text \<open>Metadata as they were stored: the server may set the creation time.\<close>

definition keptMeta :: "ObjectMeta \<Rightarrow> ObjectMeta \<Rightarrow> bool" where
  "keptMeta m m' \<longleftrightarrow> om_labels m' = om_labels m \<and> om_owners m' = om_owners m \<and> keyOf m' = keyOf m
     \<and> (om_created m \<longrightarrow> om_created m')"

text \<open>An object that is stored is taken over: the server sets what is its own, the address of a Service and the
  status of a StatefulSet.\<close>

fun takesOver :: "request \<Rightarrow> answer \<Rightarrow> bool" where
  "takesOver (QStoreConfigMap c) r \<longleftrightarrow>
     isError r \<or> (\<exists>m. r = RConfigMap (c\<lparr>cm_meta := m\<rparr>) \<and> keptMeta (cm_meta c) m)"
| "takesOver (QStoreService s) r \<longleftrightarrow>
     isError r \<or> (\<exists>m ip. r = RService (s\<lparr>svc_clusterIP := ip, svc_meta := m\<rparr>) \<and> keptMeta (svc_meta s) m)"
| "takesOver (QStoreSts s) r \<longleftrightarrow>
     isError r \<or> (\<exists>m a b. r = RSts (s\<lparr>sts_statusReplicas := a, sts_readyReplicas := b, sts_meta := m\<rparr>)
        \<and> keptMeta (sts_meta s) m)"
| "takesOver (QStoreCronJob c) r \<longleftrightarrow>
     isError r \<or> (\<exists>m. r = RCronJob (c\<lparr>cj_meta := m\<rparr>) \<and> keptMeta (cj_meta c) m)"
| "takesOver q r \<longleftrightarrow> True"

text \<open>What nobody but the operator changes: reading an object that is known gives that object, deleting a
  CronJob that is known to be gone finds none. A fetch makes up an object that is not there.\<close>

fun reads :: "request \<Rightarrow> bool" where
  "reads (QGetSts k) = True" | "reads (QGetPvc k) = True" | "reads (QGetSecret k) = True"
| "reads (QGetPod k) = True" | "reads (QGetCronJob k) = True" | "reads (QDeleteCronJob k) = True"
| "reads q = False"

fun fetches :: "request \<Rightarrow> bool" where
  "fetches (QFetchSts k) = True" | "fetches (QFetchCronJob k) = True" | "fetches (QFetchConfigMap k) = True"
| "fetches (QFetchService k) = True" | "fetches q = False"

fun storing :: "request \<Rightarrow> answer option" where
  "storing (QStoreSts s) = Some (RSts s)" | "storing (QStoreCronJob c) = Some (RCronJob c)"
| "storing (QStoreConfigMap c) = Some (RConfigMap c)" | "storing (QStoreService s) = Some (RService s)"
| "storing q = None"

text \<open>An object that is stored as it is known is not sent at all.\<close>

definition remembers :: "event list \<Rightarrow> request \<Rightarrow> answer \<Rightarrow> bool" where
  "remembers h q r \<longleftrightarrow> keyed q r \<and> takesOver q r
     \<and> (\<forall>t x. target q = Some t \<and> known h t = Some x \<longrightarrow>
          (reads q \<and> ((\<exists>k. q = QDeleteCronJob k) \<longrightarrow> isError x) \<longrightarrow> alike x r)
          \<and> (fetches q \<and> \<not> isError x \<longrightarrow> alike x r)
          \<and> (storing q = Some x \<longrightarrow> r = x))"

section \<open>What is known stays known\<close>

fun changes :: "request \<Rightarrow> bool" where
  "changes (QUpdateSts s) = True" | "changes (QStoreSts s) = True"
| "changes (QCreatePvc p) = True" | "changes (QDeletePvc k) = True" | "changes (QPatchPvc p p') = True"
| "changes (QCreateSecret s) = True" | "changes (QPatchSecret s s') = True"
| "changes (QCreatePod p) = True" | "changes (QDeletePod k) = True" | "changes (QPatchPod p p') = True"
| "changes (QDeleteCronJob k) = True" | "changes (QStoreCronJob c) = True"
| "changes (QStoreConfigMap c) = True" | "changes (QStoreService s) = True"
| "changes q = False"

text \<open>A request that changes no object of these kinds.\<close>

definition spares :: "objectKind set \<Rightarrow> request \<Rightarrow> bool" where
  "spares K q \<longleftrightarrow> (changes q \<longrightarrow> (\<forall>t. target q = Some t \<longrightarrow> fst t \<notin> K))"

definition grown :: "objectKind set \<Rightarrow> event list \<Rightarrow> event list \<Rightarrow> bool" where
  "grown K h h' \<longleftrightarrow> (\<forall>t x. fst t \<in> K \<and> known h t = Some x \<longrightarrow> (\<exists>x'. known h' t = Some x' \<and> alike x x'))"

lemma grown_refl: "grown K h h"
  unfolding grown_def by (blast intro: alike_refl)

lemma grown_trans: "grown K h h' \<Longrightarrow> grown K h' h'' \<Longrightarrow> grown K h h''"
  unfolding grown_def by (blast intro: alike_trans)

lemma grown_mono: "grown K h h' \<Longrightarrow> K' \<subseteq> K \<Longrightarrow> grown K' h h'"
  unfolding grown_def by blast

lemma seen_alike: "alike x r \<Longrightarrow> \<exists>x'. seen r (Some x) = Some x' \<and> alike x x'"
  by (cases r) (auto simp: seen_def intro: alike_refl)

lemma learn_idle: "\<not> changes q \<Longrightarrow> \<not> reads q \<Longrightarrow> learn q r x = x"
  by (cases q) auto

lemma learn_read: "\<not> changes q \<Longrightarrow> reads q \<Longrightarrow> learn q r x = seen r x"
  by (cases q) auto

lemma grown_event:
  assumes "spares K q" and "remembers h q r"
  shows "grown K h ((q, r) # h)"
  unfolding grown_def
proof (intro allI impI)
  fix t x assume t: "fst t \<in> K \<and> known h t = Some x"
  show "\<exists>x'. known ((q, r) # h) t = Some x' \<and> alike x x'"
  proof (cases "target q = Some t")
    case True
    with t assms(1) have idle: "\<not> changes q" by (auto simp: spares_def)
    show ?thesis
    proof (cases "reads q")
      case reads: True
      with idle have "\<nexists>k. q = QDeleteCronJob k" by auto
      with reads True t assms(2) have "alike x r" unfolding remembers_def by blast
      then show ?thesis using True t seen_alike by (simp add: learn_read [OF idle reads])
    qed (use True t in \<open>auto simp: learn_idle [OF idle] intro: alike_refl\<close>)
  qed (use t in \<open>auto intro: alike_refl\<close>)
qed

lemma wp_grown:
  "wp A G Q p h \<Longrightarrow> (\<And>h q r. A h q r \<Longrightarrow> remembers h q r) \<Longrightarrow> (\<And>h q. G h q \<Longrightarrow> spares K q)
   \<Longrightarrow> wp A G (\<lambda>a h'. Q a h' \<and> grown K h h') p h"
proof (induction p arbitrary: h)
  case (Ret a)
  then show ?case by (simp add: grown_refl)
next
  case (Call q k)
  show ?case
  proof (simp, intro conjI allI impI)
    show G: "G h q" using Call.prems(1) by simp
    fix r assume A: "A h q r"
    have rest: "wp A G (\<lambda>a h'. Q a h' \<and> grown K ((q, r) # h) h') (k r) ((q, r) # h)"
      using Call.IH [OF rangeI _ Call.prems(2,3)] Call.prems(1) A by simp
    have "grown K h ((q, r) # h)" by (rule grown_event [OF Call.prems(3) [OF G] Call.prems(2) [OF A]])
    then show "wp A G (\<lambda>a h'. Q a h' \<and> grown K h h') (k r) ((q, r) # h)"
      by (intro wp_mono [OF rest]) (auto intro: grown_trans)
  qed
qed

section \<open>Steps that bring an object in order\<close>

text \<open>The key, the spec and the known version, on which the desired state of all objects depends.\<close>

definition essence :: "Instance \<Rightarrow> nsname \<times> InstanceSpec \<times> string" where
  "essence i = (in_key i, in_spec i, st_firebirdVersion (in_status i))"

definition like :: "Instance \<Rightarrow> Instance \<Rightarrow> bool" where
  "like z i = (essence i = essence z)"

lemma like_fields:
  "like z i \<longleftrightarrow> in_namespace i = in_namespace z \<and> in_name i = in_name z \<and> in_spec i = in_spec z
     \<and> st_firebirdVersion (in_status i) = st_firebirdVersion (in_status z)"
  by (auto simp: like_def essence_def)

text \<open>An action that leaves what is known of the kinds \<open>K\<close>, and brings about \<open>W\<close> when it succeeds.\<close>

definition brings :: "Instance \<Rightarrow> objectKind set \<Rightarrow> ('a \<Rightarrow> event list \<Rightarrow> bool) \<Rightarrow> 'a act \<Rightarrow> bool" where
  "brings z K W m = (\<forall>i h. like z i \<longrightarrow> wpa remembers (\<lambda>_ _. True)
     (\<lambda>r j h'. like z j \<and> grown K h h' \<and> (\<forall>x. r = Inr x \<longrightarrow> W x h')) m i h)"

lemma bringsD:
  fixes m :: "'a act"
  assumes "brings z K W m" and "like z i"
    and "\<And>x j h'. like z j \<Longrightarrow> grown K h h' \<Longrightarrow> W x h' \<Longrightarrow> Q (Inr x) j h'" and "\<And>e j h'. Q (Inl e) j h'"
  shows "wpa remembers (\<lambda>_ _. True) Q m i h"
proof (rule wpa_mono [OF assms(1) [unfolded brings_def, rule_format, OF assms(2)]])
  fix r :: "error + 'a" and j h' assume "like z j \<and> grown K h h' \<and> (\<forall>x. r = Inr x \<longrightarrow> W x h')"
  then show "Q r j h'" using assms(3,4) by (cases r) auto
qed auto

lemma remembers_echo: "remembers h q r \<Longrightarrow> echo q r"
  by (simp add: remembers_def keyed_def)

lemma steady_remembers:
  assumes "steady f m"
  shows "wpa remembers (\<lambda>_ _. True) (\<lambda>r j h'. f j = f i) m i h"
  using steady_wpa [OF assms, of i h] unfolding wpa_def
  by (rule wp_stronger_answers) (rule remembers_echo)

lemma emits_grown:
  assumes "emits (spares K) m"
  shows "wpa remembers (\<lambda>_ _. True) (\<lambda>r j h'. grown K h h') m i h"
proof -
  have "wp remembers (\<lambda>_. spares K) (\<lambda>_ _. True) (m i) h"
    using emits_wpa [OF assms, of remembers i h] by (simp add: wpa_def case_prod_unfold)
  from wp_grown [OF this] show ?thesis unfolding wpa_def by (rule wp_mono) auto
qed

lemma bringsI:
  assumes "steady essence m" and "emits (spares K) m"
    and "\<And>i h. like z i \<Longrightarrow> wpa remembers (\<lambda>_ _. True) (\<lambda>r j h'. \<forall>x. r = Inr x \<longrightarrow> W x h') m i h"
  shows "brings z K W m"
  unfolding brings_def
proof (intro allI impI)
  fix i h assume i: "like z i"
  note parts = wpa_conj [OF wpa_conj [OF steady_remembers [OF assms(1)] emits_grown [OF assms(2)]] assms(3) [OF i]]
  show "wpa remembers (\<lambda>_ _. True) (\<lambda>r j h'. like z j \<and> grown K h h' \<and> (\<forall>x. r = Inr x \<longrightarrow> W x h')) m i h"
    by (rule wpa_mono [OF parts]) (use i in \<open>auto simp: like_def\<close>)
qed

lemma brings_spare: "steady essence m \<Longrightarrow> emits (spares K) m \<Longrightarrow> brings z K (\<lambda>_ _. True) m"
  by (rule bringsI) (auto intro: wpa_trivial)

text \<open>The Secret.\<close>

definition sysdbaKey :: "Instance \<Rightarrow> nsname" where
  "sysdbaKey z = (in_namespace z, sysdbaSecretRefName z)"

definition secretKnown :: "Instance \<Rightarrow> (Secret \<Rightarrow> bool) \<Rightarrow> event list \<Rightarrow> bool" where
  "secretKnown z P h = (\<exists>s. known h (KSecret, sysdbaKey z) = Some (RSecret s) \<and> labelled z (sec_meta s) \<and> P s)"

lemma remembers_get:
  "remembers h q r \<Longrightarrow> askedFor q = Some k \<Longrightarrow> bears r = Some k' \<Longrightarrow> k' = k"
  by (cases k; cases k') (simp add: remembers_def keyed_def)

lemma asUnit_Inr: "asUnit r = Inr u \<longleftrightarrow> \<not> isError r"
  by (cases r) auto

lemma gone_iff: "gone r \<longleftrightarrow> \<not> isError r \<or> (\<exists>e. r = RErr e \<and> isNotFound e)"
  by (cases r) (auto simp: gone_def)

lemma written_ok: "\<not> isError r \<Longrightarrow> written y r = Some y"
  by (cases r) (auto simp: written_def)

lemma labelled_fresh:
  "like z i \<Longrightarrow> st_firebirdVersion (in_status z) \<noteq> [] \<Longrightarrow> labelled z (freshMeta i name)"
  by (simp add: labelled_def freshMeta_def withFirebirdVersionLabel_def like_fields)

lemma secret_brought:
  assumes "st_firebirdVersion (in_status z) \<noteq> []"
  shows "brings z (UNIV - {KSecret}) (\<lambda>_. secretKnown z (\<lambda>_. True)) (reconcileSysdbaSecret fuel)"
proof (rule bringsI)
  show "steady essence (reconcileSysdbaSecret fuel)" by (intro keep)
  show "emits (spares (UNIV - {KSecret})) (reconcileSysdbaSecret fuel)"
    by (intro emit) (auto simp: spares_def)
  fix i h assume i: "like z i"
  have name: "sysdbaSecretRefName i = sysdbaSecretRefName z" using i by (simp add: like_fields sysdbaSecretRefName_def Let_def)
  have new: "labelled z (sec_meta (kept (newSysdbaSecret i n pw)))" for n pw
    using labelled_fresh [OF i assms] by (simp add: kept_def newSysdbaSecret_def)
  show "wpa remembers (\<lambda>_ _. True) (\<lambda>r j h'. \<forall>x. r = Inr x \<longrightarrow> secretKnown z (\<lambda>_. True) h') (reconcileSysdbaSecret fuel) i h"
    using i new assms
    by (auto simp: reconcileSysdbaSecret_def syncFirebirdVersionLabel_def wprule Let_def asSecret_Inr name
        secretKnown_def sysdbaKey_def seen_def written_ok asUnit_Inr labelled_def like_fields
        newSysdbaSecret_def kept_def freshMeta_def dest: remembers_get intro!: wpa_mono [OF wpa_trivial])
qed

text \<open>The owned objects. The owner reference is set once: it is found again on an object that has it.\<close>

definition ownerFound :: "lib \<Rightarrow> bool" where
  "ownerFound L \<longleftrightarrow> (\<forall>i j m m' n. lib_setControllerReference L i m = Inr m' \<and> in_key j = in_key i
     \<and> om_owners n = om_owners m' \<and> keyOf n = keyOf m' \<longrightarrow> lib_setControllerReference L j n = Inr n)"

lemma like_names:
  assumes "like z i"
  shows "sysdbaSecretRefName i = sysdbaSecretRefName z" "aliasesConfigMapName i = aliasesConfigMapName z"
    "primaryPVCName i = primaryPVCName z" "backupPVCName i = backupPVCName z" "shadowPVCName i = shadowPVCName z"
    "firebirdPodName i = firebirdPodName z" "scheduledBackupCronJobName i n = scheduledBackupCronJobName z n"
    "backupVolumeSpec i = backupVolumeSpec z" "instanceImage i = instanceImage z"
    "securityDatabasePath i = securityDatabasePath z" "securityDatabaseImageDefaultPath i = securityDatabaseImageDefaultPath z"
    "securityScriptMajor i = securityScriptMajor z"
    "withFirebirdVersionLabel i ls = withFirebirdVersionLabel z ls" "servicePort i = servicePort z"
  using assms unfolding like_fields
  by (simp_all only: own_names backupVolumeSpec_def instanceImage_def securityDatabasePath_def
      securityDatabaseFileName_def securityDatabaseImageDefaultPath_def securityScriptMajor_def
      withFirebirdVersionLabel_def servicePort_def)

lemma like_scripts:
  assumes "like z i"
  shows "securityDatabaseInitScript i = securityDatabaseInitScript z" "aliasesFile i = aliasesFile z"
    "volumeMounts i = volumeMounts z" "statefulSetVolumes i = statefulSetVolumes z"
  using assms unfolding like_fields
  by (simp_all only: securityDatabaseInitScript_def aliasesFile_def volumeMounts_def statefulSetVolumes_def
      like_names [OF assms])

lemma like_containers:
  assumes "like z i"
  shows "firebirdContainer i = firebirdContainer z" "securityInitContainer i = securityInitContainer z"
  by (simp_all only: firebirdContainer_def securityInitContainer_def like_names [OF assms] like_scripts [OF assms])

lemma like_desired:
  assumes "like z i"
  shows "desiredAliasesConfigMap i = desiredAliasesConfigMap z" "desiredService i = desiredService z"
    "desiredStatefulSet i pw = desiredStatefulSet z pw"
  using assms unfolding like_fields
  by (simp_all only: fun_eq_iff desiredAliasesConfigMap_def desiredService_def desiredStatefulSet_def
      desiredTemplate_def like_names [OF assms] like_scripts [OF assms] like_containers [OF assms] simp_thms)

text \<open>An object the server has taken over is in order.\<close>

context mutator
begin

lemma taken_over:
  assumes "ownerLaw L" and "ownerFound L"
    and "setOwner L i meta put (mutate x) = Inr y" and "keptMeta (meta y) m" and "in_key j = in_key i"
  shows "setOwner L j meta put (mutate (put m y)) = Inr (put m y)"
proof -
  obtain n where n: "lib_setControllerReference L i (meta (mutate x)) = Inr n" and y: "y = put n (mutate x)"
    using assms(3) by (auto simp: setOwner_def split: sum.splits)
  have same: "mutate (put m y) = put m y"
    using settles_stored [OF assms(1,3)] assms(4) by (simp add: keptMeta_def)
  have "om_owners m = om_owners n" "keyOf m = keyOf n" using assms(4) by (simp_all add: keptMeta_def y meta_put)
  then have "lib_setControllerReference L j m = Inr m"
    using assms(2) n assms(5) unfolding ownerFound_def by blast
  then show ?thesis unfolding same by (simp add: setOwner_def meta_put put_put)
qed

end

definition lawful :: "lib \<Rightarrow> bool" where
  "lawful L \<longleftrightarrow> ownerLaw L \<and> ownerFound L \<and> ownerKeepsKey L"

lemma createOrUpdate_brings:
  assumes "\<And>r old. remembers h fetch r \<Longrightarrow> proj r = Inr old \<Longrightarrow> P old ((fetch, r) # h)"
    and "\<And>old h. P old h \<Longrightarrow> wpa remembers (\<lambda>_ _. True) (\<lambda>r j h'. \<forall>new. r = Inr new \<longrightarrow> Q new h') (mutate old) k h"
    and "\<And>h new r x. Q new h \<Longrightarrow> remembers h (store new) r \<Longrightarrow> proj r = Inr x \<Longrightarrow> W x ((store new, r) # h)"
  shows "wpa remembers (\<lambda>_ _. True) (\<lambda>r j h'. \<forall>x. r = Inr x \<longrightarrow> W x h') (createOrUpdate fetch proj store mutate) k h"
proof -
  have "wpa remembers (\<lambda>_ _. True) (\<lambda>r j h'. \<forall>x. r = Inr x \<longrightarrow> W x h') (bindA (mutate old) (\<lambda>obj. callA (store obj) proj)) k h"
    if "P old h" for old h
    unfolding wpa_bindA wpa_callA by (rule wpa_mono [OF assms(2) [OF that]]) (use assms(3) in auto)
  then show ?thesis
    unfolding createOrUpdate_def wpa_bindA [where m = "callA _ _"] wpa_callA using assms(1) by auto
qed

text \<open>The ConfigMap and the Service.\<close>

definition aliasesKnown :: "lib \<Rightarrow> Instance \<Rightarrow> event list \<Rightarrow> bool" where
  "aliasesKnown L z h = (\<exists>cm. known h (KConfigMap, (in_namespace z, aliasesConfigMapName z)) = Some (RConfigMap cm)
     \<and> mutateAliasesConfigMap L z cm = Inr cm)"

definition serviceKnown :: "lib \<Rightarrow> Instance \<Rightarrow> event list \<Rightarrow> bool" where
  "serviceKnown L z h = (\<exists>svc. known h (KService, in_key z) = Some (RService svc) \<and> mutateService L z svc = Inr svc)"

lemma aliases_brought:
  assumes L: "lawful L" and i: "like z i"
  shows "wpa remembers (\<lambda>_ _. True) (\<lambda>r j h'. \<forall>x. r = Inr x \<longrightarrow> aliasesKnown L z h')
    (createOrUpdate (QFetchConfigMap (in_namespace i, aliasesConfigMapName i)) asConfigMap QStoreConfigMap
       (\<lambda>cm. liftA (mutateAliasesConfigMap L i cm))) k h"
proof (rule createOrUpdate_brings)
  let ?P = "\<lambda>cm h. keyOf (cm_meta cm) = (in_namespace z, aliasesConfigMapName z)"
  let ?Q = "\<lambda>new h. ?P new h \<and> (\<exists>old. mutateAliasesConfigMap L i old = Inr new)"
  show "?P old ((QFetchConfigMap (in_namespace i, aliasesConfigMapName i), r) # h)"
    if "remembers h (QFetchConfigMap (in_namespace i, aliasesConfigMapName i)) r" "asConfigMap r = Inr old" for r old
    using remembers_get [OF that(1) askedFor.simps(9)] that(2) i by (simp add: asConfigMap_Inr like_fields like_names(2) [OF i])
  show "wpa remembers (\<lambda>_ _. True) (\<lambda>r j h'. \<forall>new. r = Inr new \<longrightarrow> ?Q new h') (liftA (mutateAliasesConfigMap L i old)) k h"
    if "?P old h" for old h
    using that L mutates_keep_key(1) [of L i old] by (auto simp: wprule lawful_def)
  show "aliasesKnown L z ((QStoreConfigMap new, r) # h)"
    if Q: "?Q new h" and r: "remembers h (QStoreConfigMap new) r" "asConfigMap r = Inr x" for h new r x
  proof -
    obtain m where m: "r = RConfigMap (new\<lparr>cm_meta := m\<rparr>)" "keptMeta (cm_meta new) m"
      using r by (auto simp: remembers_def asConfigMap_Inr)
    obtain old where "mutateAliasesConfigMap L i old = Inr new" using Q by blast
    then have "mutateAliasesConfigMap L z (new\<lparr>cm_meta := m\<rparr>) = Inr (new\<lparr>cm_meta := m\<rparr>)"
      using aliases.taken_over [of L i i old new m z] m(2) L i
      by (simp add: mutateAliasesConfigMap_def lawful_def like_desired(1) [OF i] like_fields)
    then show ?thesis using Q m by (auto simp: aliasesKnown_def written_def)
  qed
qed

lemma service_brought:
  assumes L: "lawful L" and i: "like z i"
  shows "wpa remembers (\<lambda>_ _. True) (\<lambda>r j h'. \<forall>x. r = Inr x \<longrightarrow> serviceKnown L z h')
    (createOrUpdate (QFetchService (in_key i)) asService QStoreService (\<lambda>svc. liftA (mutateService L i svc))) k h"
proof (rule createOrUpdate_brings)
  let ?P = "\<lambda>svc h. keyOf (svc_meta svc) = in_key z"
  let ?Q = "\<lambda>new h. ?P new h \<and> (\<exists>old. mutateService L i old = Inr new)"
  show "?P old ((QFetchService (in_key i), r) # h)"
    if "remembers h (QFetchService (in_key i)) r" "asService r = Inr old" for r old
    using remembers_get [OF that(1) askedFor.simps(10)] that(2) i by (simp add: asService_Inr like_fields)
  show "wpa remembers (\<lambda>_ _. True) (\<lambda>r j h'. \<forall>new. r = Inr new \<longrightarrow> ?Q new h') (liftA (mutateService L i old)) k h"
    if "?P old h" for old h
    using that L mutates_keep_key(2) [of L i old] by (auto simp: wprule lawful_def)
  show "serviceKnown L z ((QStoreService new, r) # h)"
    if Q: "?Q new h" and r: "remembers h (QStoreService new) r" "asService r = Inr x" for h new r x
  proof -
    obtain m ip where m: "r = RService (new\<lparr>svc_clusterIP := ip, svc_meta := m\<rparr>)" "keptMeta (svc_meta new) m"
      using r by (auto simp: remembers_def asService_Inr)
    obtain old where "mutateService L i old = Inr new" using Q by blast
    then have "setOwner L i svc_meta (\<lambda>m o'. o'\<lparr>svc_meta := m\<rparr>) (desiredService i (old\<lparr>svc_clusterIP := ip\<rparr>))
        = Inr (new\<lparr>svc_clusterIP := ip\<rparr>)"
      by (auto simp: mutateService_def setOwner_def desiredService_def Let_def split: sum.splits)
    from service.taken_over [OF _ _ this, of m z] m(2) L i
    have "mutateService L z (new\<lparr>svc_clusterIP := ip, svc_meta := m\<rparr>) = Inr (new\<lparr>svc_clusterIP := ip, svc_meta := m\<rparr>)"
      by (simp add: mutateService_def lawful_def like_desired(2) [OF i] like_fields)
    then show ?thesis using Q m by (auto simp: serviceKnown_def written_def keptMeta_def)
  qed
qed

text \<open>The StatefulSet, with the password of the Secret that is known.\<close>

definition passwordOf :: "Secret \<Rightarrow> string" where
  "passwordOf s = mapGet (sec_data s) sysdbaSecretPasswordKey"

definition serverAsDesired :: "lib \<Rightarrow> Instance \<Rightarrow> Secret \<Rightarrow> StatefulSet \<Rightarrow> bool" where
  "serverAsDesired L z s sts \<longleftrightarrow>
     setOwner L z sts_meta (\<lambda>m o'. o'\<lparr>sts_meta := m\<rparr>) (desiredStatefulSet z (passwordOf s) sts) = Inr sts"

definition serverKnown :: "lib \<Rightarrow> Instance \<Rightarrow> StatefulSet \<Rightarrow> event list \<Rightarrow> bool" where
  "serverKnown L z sts h \<longleftrightarrow> known h (KStatefulSet, in_key z) = Some (RSts sts)
     \<and> secretKnown z (\<lambda>s. serverAsDesired L z s sts) h"

lemma password_known:
  assumes i: "like z i" and known: "secretKnown z (\<lambda>_. True) h"
  shows "wpa remembers (\<lambda>_ _. True) (\<lambda>r j h'. j = i \<and> (\<forall>pw. r = Inr pw \<longrightarrow> secretKnown z (\<lambda>s. pw = passwordOf s) h'))
    sysdbaPassword i h"
proof -
  have name: "(in_namespace i, sysdbaSecretRefName i) = sysdbaKey z"
    using i by (simp add: sysdbaKey_def like_fields like_names(1) [OF i])
  have "secretKnown z (\<lambda>s'. passwordOf s = passwordOf s') ((QGetSecret (sysdbaKey z), RSecret s) # h)"
    if "remembers h (QGetSecret (sysdbaKey z)) (RSecret s)" for s
  proof -
    obtain s0 where "known h (KSecret, sysdbaKey z) = Some (RSecret s0)" "labelled z (sec_meta s0)"
      using known by (auto simp: secretKnown_def)
    moreover from this(1) have "alike (RSecret s0) (RSecret s)" using that unfolding remembers_def by fastforce
    ultimately show ?thesis by (simp add: secretKnown_def seen_def labelled_def)
  qed
  then show ?thesis
    by (auto simp: sysdbaPassword_def wprule Let_def asSecret_Inr name passwordOf_def)
qed

lemma server_brought:
  assumes L: "lawful L" and i: "like z i" and known: "secretKnown z (\<lambda>_. True) h"
  shows "wpa remembers (\<lambda>_ _. True) (\<lambda>r j h'. \<forall>sts. r = Inr sts \<longrightarrow> serverKnown L z sts h')
    (createOrUpdate (QFetchSts (in_key i)) asSts QStoreSts (mutateStatefulSet L)) i h"
proof (rule createOrUpdate_brings)
  let ?P = "\<lambda>sts h. keyOf (sts_meta sts) = in_key z \<and> secretKnown z (\<lambda>_. True) h"
  let ?own = "\<lambda>j pw old. setOwner L j sts_meta (\<lambda>m o'. o'\<lparr>sts_meta := m\<rparr>) (desiredStatefulSet j pw old)"
  let ?Q = "\<lambda>new h. keyOf (sts_meta new) = in_key z \<and> secretKnown z (\<lambda>s. \<exists>old. ?own i (passwordOf s) old = Inr new) h"
  show "?P old ((QFetchSts (in_key i), r) # h)"
    if "remembers h (QFetchSts (in_key i)) r" "asSts r = Inr old" for r old
    using remembers_get [OF that(1) askedFor.simps(3)] that(2) i known
    by (simp add: asSts_Inr like_fields secretKnown_def)
  show "wpa remembers (\<lambda>_ _. True) (\<lambda>r j h'. \<forall>new. r = Inr new \<longrightarrow> ?Q new h') (mutateStatefulSet L old) i h"
    if P: "?P old h" for old h
  proof -
    have "?Q new h'" if "secretKnown z (\<lambda>s. pw = passwordOf s) h'" "?own i pw old = Inr new" for pw new h'
      using that P L mutates_keep_key(4) [of L i pw old new] by (auto simp: secretKnown_def lawful_def)
    then show ?thesis
      unfolding mutateStatefulSet_def wpa_withI wpa_bindA
      by (intro wpa_mono [OF password_known [OF i]]) (use P in \<open>auto simp: wprule\<close>)
  qed
  show "serverKnown L z x ((QStoreSts new, r) # h)"
    if Q: "?Q new h" and r: "remembers h (QStoreSts new) r" "asSts r = Inr x" for h new r x
  proof -
    obtain m a b where m: "r = RSts (new\<lparr>sts_statusReplicas := a, sts_readyReplicas := b, sts_meta := m\<rparr>)"
        "keptMeta (sts_meta new) m"
      using r by (auto simp: remembers_def asSts_Inr)
    have "serverAsDesired L z s (new\<lparr>sts_statusReplicas := a, sts_readyReplicas := b, sts_meta := m\<rparr>)"
      if "?own i (passwordOf s) old = Inr new" for s old
    proof -
      have "?own i (passwordOf s) (old\<lparr>sts_statusReplicas := a, sts_readyReplicas := b\<rparr>)
          = Inr (new\<lparr>sts_statusReplicas := a, sts_readyReplicas := b\<rparr>)"
        using that by (auto simp: setOwner_def desiredStatefulSet_def split: sum.splits)
      from server.taken_over [OF _ _ this, of m z] m(2) L i
      show ?thesis by (simp add: serverAsDesired_def lawful_def like_desired(3) [OF i] like_fields)
    qed
    then show ?thesis using Q m r(2) by (force simp: serverKnown_def secretKnown_def written_def keptMeta_def)
  qed
qed

text \<open>The volumes.\<close>

definition claimKnown :: "Instance \<Rightarrow> event list \<Rightarrow> string \<Rightarrow> bool" where
  "claimKnown z h name = (\<exists>p. known h (KVolumeClaim, (in_namespace z, name)) = Some (RPvc p) \<and> labelled z (pvc_meta p))"

definition claimsKnown :: "Instance \<Rightarrow> event list \<Rightarrow> bool" where
  "claimsKnown z h = (\<forall>name\<in>set (claimNames z). claimKnown z h name)"

lemma claim_brought:
  assumes i: "like z i" and version: "st_firebirdVersion (in_status z) \<noteq> []"
  shows "wpa remembers (\<lambda>_ _. True)
    (\<lambda>r j h'. j = i \<and> (r = Inr () \<longrightarrow> (\<forall>n. n = name \<or> claimKnown z h n \<longrightarrow> claimKnown z h' n))) (reconcilePVC name vol) i h"
proof -
  have get: "keyOf (pvc_meta p) = (in_namespace z, name)" if "remembers h' (QGetPvc (in_namespace z, name)) (RPvc p)" for p h'
    using remembers_get [OF that askedFor.simps(4)] by simp
  have new: "labelled z (pvc_meta (newPVC i name vol))" "keyOf (pvc_meta (newPVC i name vol)) = (in_namespace z, name)"
    using labelled_fresh [OF i version] i by (simp_all add: newPVC_def freshMeta_def like_fields)
  have st: "st_firebirdVersion (in_status i) = st_firebirdVersion (in_status z)" "in_namespace i = in_namespace z"
    using i by (simp_all add: like_fields)
  show ?thesis
    unfolding reconcilePVC_def syncFirebirdVersionLabel_def wprule Let_def
    using version new
    by (auto simp: asPvc_Inr asUnit_Inr st labelled_def claimKnown_def seen_def written_ok dest!: get)
qed

lemma claims_brought:
  assumes i: "like z i" and version: "st_firebirdVersion (in_status z) \<noteq> []"
  shows "wpa remembers (\<lambda>_ _. True) (\<lambda>r j h'. j = i \<and> (r = Inr () \<longrightarrow> claimsKnown z h')) reconcilePVCs i h"
proof -
  note claim = claim_brought [OF i version]
  have names: "claimNames z = primaryPVCName i # (if backupVolumeSpec i \<noteq> None then [backupPVCName i] else [])
     @ (if sg_shadow (sp_storage (in_spec i)) \<noteq> None then [shadowPVCName i] else [])"
    using i by (simp only: claimNames_def like_names [OF i]) (simp add: like_fields)
  show ?thesis
    unfolding reconcilePVCs_def wpa_withI wpa_thenA wpa_wrapA wpa_case_option wpa_ok
    by (rule wpa_mono [OF claim]) (auto intro!: wpa_mono [OF claim] simp: names claimsKnown_def)
qed

text \<open>The CronJobs, whose scripts also name the databases on record.\<close>

definition listsLike :: "Instance \<Rightarrow> Instance \<Rightarrow> bool" where
  "listsLike z i \<longleftrightarrow> like z i \<and> status_databases i = status_databases z"

lemma listsLike_scripts:
  assumes "listsLike z i"
  shows "backupServiceConnection i = backupServiceConnection z" "canCleanBackupHistory i = canCleanBackupHistory z"
    "writeGzip i = writeGzip z" "poolCheckLines i = poolCheckLines z" "backupImage i = backupImage z"
    "frequencyRetention i freq = frequencyRetention z freq" "frequencyWanted i freq = frequencyWanted z freq"
proof -
  have like: "like z i" using assms by (simp add: listsLike_def)
  note fields = like [unfolded like_fields]
  show "backupServiceConnection i = backupServiceConnection z" "canCleanBackupHistory i = canCleanBackupHistory z"
    "writeGzip i = writeGzip z" "poolCheckLines i = poolCheckLines z" "backupImage i = backupImage z"
    "frequencyRetention i freq = frequencyRetention z freq" "frequencyWanted i freq = frequencyWanted z freq"
    using fields
    by (simp_all only: fun_eq_iff backupServiceConnection_def canCleanBackupHistory_def writeGzip_def poolCheckLines_def
        backupImage_def frequencyRetention_def frequencyWanted_def like_names [OF like] simp_thms)
qed

lemma listsLike_cronJob:
  assumes "listsLike z i"
  shows "desiredCronJob i freq = desiredCronJob z freq"
proof -
  have like: "like z i" and dbs: "status_databases i = status_databases z" using assms by (simp_all add: listsLike_def)
  note same = listsLike_scripts [OF assms] like_names [OF like] dbs
  have pool: "poolBackupLines i = poolBackupLines z"
    by (simp only: fun_eq_iff poolBackupLines_def same simp_thms)
  have incremental: "incrementalBackupScript i = incrementalBackupScript z"
    by (simp only: fun_eq_iff incrementalBackupScript_def same pool simp_thms)
  have database: "databaseBackupLines i = databaseBackupLines z"
    using like unfolding like_fields by (simp only: fun_eq_iff databaseBackupLines_def same simp_thms)
  have "scheduledBackupScript i freq = scheduledBackupScript z freq"
    using like unfolding like_fields
    by (simp only: scheduledBackupScript_def scheduledBackupLines_def same incremental database)
  then have "backupJobPodSpec i freq = backupJobPodSpec z freq"
    using like unfolding like_fields by (simp only: backupJobPodSpec_def same)
  then show ?thesis
    using like unfolding like_fields by (simp only: fun_eq_iff desiredCronJob_def same simp_thms)
qed

definition cronJobKnown :: "lib \<Rightarrow> Instance \<Rightarrow> event list \<Rightarrow> backupFrequency \<Rightarrow> bool" where
  "cronJobKnown L z h freq =
     (if frequencyWanted z freq
      then \<exists>cj. known h (KCronJob, cronJobKey z freq) = Some (RCronJob cj) \<and> mutateScheduledBackupCronJob L z freq cj = Inr cj
      else \<exists>e. known h (KCronJob, cronJobKey z freq) = Some (RErr e) \<and> isNotFound e)"

definition otherCronJobs :: "nsname \<Rightarrow> event list \<Rightarrow> event list \<Rightarrow> bool" where
  "otherCronJobs k h h' = (\<forall>k'. k' \<noteq> k \<longrightarrow> known h' (KCronJob, k') = known h (KCronJob, k'))"

lemma cronJob_stored:
  assumes L: "lawful L" and i: "listsLike z i" and others: "otherCronJobs (cronJobKey z freq) h0 h"
  shows "wpa remembers (\<lambda>_ _. True) (\<lambda>r j h'. \<forall>x. r = Inr x \<longrightarrow> otherCronJobs (cronJobKey z freq) h0 h'
      \<and> (\<exists>cj. known h' (KCronJob, cronJobKey z freq) = Some (RCronJob cj) \<and> mutateScheduledBackupCronJob L z freq cj = Inr cj))
    (createOrUpdate (QFetchCronJob (cronJobKey z freq)) asCronJob QStoreCronJob
       (\<lambda>cj. withI (\<lambda>j. liftA (mutateScheduledBackupCronJob L j freq cj)))) i h"
proof (rule createOrUpdate_brings)
  let ?P = "\<lambda>cj h. keyOf (cj_meta cj) = cronJobKey z freq \<and> otherCronJobs (cronJobKey z freq) h0 h"
  let ?Q = "\<lambda>new h. ?P new h \<and> (\<exists>old. mutateScheduledBackupCronJob L i freq old = Inr new)"
  show "?P old ((QFetchCronJob (cronJobKey z freq), r) # h)"
    if "remembers h (QFetchCronJob (cronJobKey z freq)) r" "asCronJob r = Inr old" for r old
    using remembers_get [OF that(1) askedFor.simps(8)] that(2) others by (simp add: otherCronJobs_def del: split_paired_All)
  show "wpa remembers (\<lambda>_ _. True) (\<lambda>r j h'. \<forall>new. r = Inr new \<longrightarrow> ?Q new h')
      (withI (\<lambda>j. liftA (mutateScheduledBackupCronJob L j freq old))) i h"
    if "?P old h" for old h
    using that L mutates_keep_key(3) [of L i freq old] by (auto simp: wprule lawful_def)
  show "otherCronJobs (cronJobKey z freq) h0 ((QStoreCronJob new, r) # h)
      \<and> (\<exists>cj. known ((QStoreCronJob new, r) # h) (KCronJob, cronJobKey z freq) = Some (RCronJob cj)
           \<and> mutateScheduledBackupCronJob L z freq cj = Inr cj)"
    if Q: "?Q new h" and r: "remembers h (QStoreCronJob new) r" "asCronJob r = Inr x" for h new r x
  proof -
    obtain m where m: "r = RCronJob (new\<lparr>cj_meta := m\<rparr>)" "keptMeta (cj_meta new) m"
      using r by (auto simp: remembers_def)
    obtain old where "mutateScheduledBackupCronJob L i freq old = Inr new" using Q by blast
    then have "mutateScheduledBackupCronJob L z freq (new\<lparr>cj_meta := m\<rparr>) = Inr (new\<lparr>cj_meta := m\<rparr>)"
      using backup_job.taken_over [of L i i freq old new m z] m(2) L i
      by (simp add: mutateScheduledBackupCronJob_def lawful_def listsLike_cronJob [OF i])
        (simp add: listsLike_def like_fields)
    then show ?thesis using Q m by (auto simp: written_def otherCronJobs_def)
  qed
qed

lemma frequency_key: "f \<in> set backupFrequencies \<Longrightarrow> g \<in> set backupFrequencies \<Longrightarrow> cronJobKey z f = cronJobKey z g \<Longrightarrow> f = g"
  by (auto simp: backupFrequencies_def cronJobKey_def scheduledBackupCronJobName_def)

lemma frequency_brought:
  assumes L: "lawful L" and i: "listsLike z i" and freq: "freq \<in> set backupFrequencies"
  shows "wpa remembers (\<lambda>_ _. True) (\<lambda>r j h'. j = i \<and> (r = Inr () \<longrightarrow> cronJobKnown L z h' freq
      \<and> (\<forall>f\<in>set backupFrequencies. cronJobKnown L z h f \<longrightarrow> cronJobKnown L z h' f))) (reconcileFrequency L freq) i h"
proof -
  have key: "(in_namespace i, scheduledBackupCronJobName i (bf_name freq)) = cronJobKey z freq"
    using i by (simp add: listsLike_def like_fields cronJobKey_def scheduledBackupCronJobName_def)
  have steady: "steady (\<lambda>i. i) (reconcileFrequency L freq)"
    unfolding reconcileFrequency_def reconcileScheduledBackupCronJob_def deleteCronJob_def Let_def by (intro keep) auto
  have rest: "cronJobKnown L z h' f" if "otherCronJobs (cronJobKey z freq) h h'" "cronJobKnown L z h f"
      "f \<in> set backupFrequencies" "f \<noteq> freq" for f h'
  proof -
    have "cronJobKey z f \<noteq> cronJobKey z freq" using frequency_key [OF that(3) freq] that(4) by blast
    then have "known h' (KCronJob, cronJobKey z f) = known h (KCronJob, cronJobKey z f)"
      using that(1) unfolding otherCronJobs_def by blast
    then show ?thesis using that(2) by (simp add: cronJobKnown_def)
  qed
  have brought: "cronJobKnown L z h' freq \<and> (\<forall>f\<in>set backupFrequencies. cronJobKnown L z h f \<longrightarrow> cronJobKnown L z h' f)"
    if "cronJobKnown L z h' freq" "otherCronJobs (cronJobKey z freq) h h'" for h'
    using that rest by blast
  have idle: "otherCronJobs (cronJobKey z freq) h ((q, r) # h')"
    if "otherCronJobs (cronJobKey z freq) h h'" "target q = Some (KCronJob, cronJobKey z freq) \<or> fst (the (target q)) \<noteq> KCronJob" for q r h'
    using that by (auto simp: otherCronJobs_def)
  have "wpa remembers (\<lambda>_ _. True) (\<lambda>r j h'. \<forall>x. r = Inr x \<longrightarrow> cronJobKnown L z h' freq \<and> otherCronJobs (cronJobKey z freq) h h')
      (reconcileFrequency L freq) i h"
  proof (cases "frequencyWanted z freq")
    case True
    note store = cronJob_stored [OF L i]
    have "otherCronJobs (cronJobKey z freq) h h" by (simp add: otherCronJobs_def)
    then show ?thesis
      using True
      by (auto simp: reconcileFrequency_def reconcileScheduledBackupCronJob_def wprule Let_def key
          listsLike_scripts [OF i] cronJobKnown_def execInPod_def intro!: wpa_mono [OF store] idle)
  next
    case False
    then show ?thesis
      by (auto simp: reconcileFrequency_def deleteCronJob_def wprule Let_def key listsLike_scripts [OF i]
          cronJobKnown_def otherCronJobs_def gone_iff asUnit_Inl asUnit_Inr)
  qed
  from wpa_conj [OF this steady_remembers [OF steady]] show ?thesis
    by (rule wpa_mono) (use brought in auto)
qed

lemma schedules_brought:
  assumes L: "lawful L" and i: "listsLike z i"
  shows "wpa remembers (\<lambda>_ _. True) (\<lambda>r j h'. j = i \<and> (r = Inr () \<longrightarrow> (\<forall>freq\<in>set backupFrequencies. cronJobKnown L z h' freq)))
    (reconcileScheduledBackups L) i h"
proof -
  have loop: "wpa remembers (\<lambda>_ _. True)
      (\<lambda>r j h'. j = i \<and> (r = Inr () \<longrightarrow> (\<forall>freq\<in>set fs \<union> D. cronJobKnown L z h' freq))) (forA fs (reconcileFrequency L)) i h"
    if "set fs \<subseteq> set backupFrequencies" "D \<subseteq> set backupFrequencies" "\<forall>freq\<in>D. cronJobKnown L z h freq" for fs D h
    using that
  proof (induction fs arbitrary: D h)
    case Nil
    then show ?case by (simp add: wpa_ok)
  next
    case (Cons f fs)
    then have f: "f \<in> set backupFrequencies" by simp
    have next_pass: "wpa remembers (\<lambda>_ _. True)
        (\<lambda>r j h''. j = i \<and> (r = Inr () \<longrightarrow> (\<forall>freq\<in>set (f # fs) \<union> D. cronJobKnown L z h'' freq))) (forA fs (reconcileFrequency L)) i h'"
      if "\<forall>freq\<in>insert f D. cronJobKnown L z h' freq" for h'
      using Cons.IH [of "insert f D" h'] Cons.prems that by simp
    show ?case
      unfolding forA.simps wpa_thenA
    proof (rule wpa_mono [OF frequency_brought [OF L i f]])
      fix r :: "error + unit" and j h'
      assume "j = i \<and> (r = Inr () \<longrightarrow> cronJobKnown L z h' f
        \<and> (\<forall>g\<in>set backupFrequencies. cronJobKnown L z h g \<longrightarrow> cronJobKnown L z h' g))"
      then show "(\<forall>e. r = Inl e \<longrightarrow> j = i \<and> (Inl e = Inr () \<longrightarrow> (\<forall>freq\<in>set (f # fs) \<union> D. cronJobKnown L z h' freq)))
        \<and> (\<forall>x. r = Inr x \<longrightarrow> wpa remembers (\<lambda>_ _. True)
            (\<lambda>r j h''. j = i \<and> (r = Inr () \<longrightarrow> (\<forall>freq\<in>set (f # fs) \<union> D. cronJobKnown L z h'' freq)))
            (forA fs (reconcileFrequency L)) j h')"
        using Cons.prems next_pass [of h'] by (cases r) (simp_all add: subset_iff)
    qed auto
  qed
  from loop [of backupFrequencies "{}" h] show ?thesis by (simp add: reconcileScheduledBackups_def)
qed

text \<open>The server's version: either the pod bears the one that was known, or the status gets another.\<close>

definition podKnown :: "Instance \<Rightarrow> string \<Rightarrow> event list \<Rightarrow> bool" where
  "podKnown z v h = (\<exists>pod. known h (KPod, (in_namespace z, firebirdPodName z)) = Some (RPod pod)
     \<and> mapGet (om_labels (pod_meta pod)) firebirdVersionLabelKey = v)"

lemma detect_brought:
  assumes "keyOf (pod_meta pod) = (in_namespace z, firebirdPodName z)"
  shows "wpa remembers (\<lambda>_ _. True) (\<lambda>r j h'. j = i \<and> (\<forall>v. r = Inr v \<longrightarrow> podKnown z v h')) (detectFirebirdVersion pod) i h"
  using assms
  by (auto simp: detectFirebirdVersion_def sysdbaPassword_def execInPodOutput_def wprule Let_def asUnit_Inr written_ok
      podKnown_def split: sum.splits)

lemma version_brought:
  assumes "like z i"
  shows "wpa remembers (\<lambda>_ _. True) (\<lambda>r j h'. r = Inr () \<longrightarrow> podKnown z (st_firebirdVersion (in_status j)) h')
    reconcileFirebirdVersion i h"
proof -
  have key: "in_namespace i = in_namespace z" "firebirdPodName i = firebirdPodName z"
    using assms by (simp_all add: like_fields like_names(6) [OF assms])
  have get: "keyOf (pod_meta pod) = (in_namespace z, firebirdPodName z)"
    if "remembers h (QGetPod (in_namespace z, firebirdPodName z)) (RPod pod)" for pod
    using remembers_get [OF that askedFor.simps(6)] by simp
  have seen: "podKnown z (mapGet (om_labels (pod_meta pod)) firebirdVersionLabelKey)
      ((QGetPod (in_namespace z, firebirdPodName z), RPod pod) # h)" for pod
    by (simp add: podKnown_def seen_def)
  have [simp]: "podKnown z v ((QUpdateStatus j, r) # h') = podKnown z v h'" for v j r h'
    by (simp add: podKnown_def)
  have echoed: "j' = j" if "remembers h' (QUpdateStatus j) (RInstance j')" for j j' h'
    using remembers_echo [OF that] by simp
  show ?thesis
    unfolding reconcileFirebirdVersion_def Let_def
    by (auto simp: wprule asPod_Inr asInstance_Inr key seen simp del: prod.inject dest!: echoed
        intro!: wpa_mono [OF detect_brought, OF get])
qed

end
