(* ===== verification/Converge.thy ===== *)
theory Converge
  imports Known Versions Ready
begin

text \<open>
  Two reconciles in a row: a reconcile that has left its instance ready, and whose server still has the
  version it knew, leaves everything in order, so that the next one changes nothing.
\<close>

section \<open>A whole reconcile\<close>

lemma grownD:
  "grown K h h' \<Longrightarrow> known h t = Some x \<Longrightarrow> fst t \<in> K \<Longrightarrow> \<exists>x'. known h' t = Some x' \<and> alike x x'"
  unfolding grown_def by blast

lemma secretKnown_grown:
  assumes "secretKnown z P h" and "grown K h h'" and "KSecret \<in> K"
    and "\<And>s s'. P s \<Longrightarrow> sec_data s' = sec_data s \<Longrightarrow> P s'"
  shows "secretKnown z P h'"
proof -
  obtain s where s: "known h (KSecret, sysdbaKey z) = Some (RSecret s)" "labelled z (sec_meta s)" "P s"
    using assms(1) by (auto simp: secretKnown_def)
  from grownD [OF assms(2) s(1)] assms(3)
  obtain s' where "known h' (KSecret, sysdbaKey z) = Some (RSecret s')" "om_labels (sec_meta s') = om_labels (sec_meta s)"
      "sec_data s' = sec_data s"
    by auto
  then show ?thesis using s assms(4) by (auto simp: secretKnown_def labelled_def)
qed

lemma serverAsDesired_data: "serverAsDesired L z s sts \<Longrightarrow> sec_data s' = sec_data s \<Longrightarrow> serverAsDesired L z s' sts"
  by (simp add: serverAsDesired_def passwordOf_def)

lemma known_grown:
  assumes "grown K h h'"
  shows "KSecret \<in> K \<Longrightarrow> secretKnown z (\<lambda>_. True) h \<Longrightarrow> secretKnown z (\<lambda>_. True) h'"
    and "KConfigMap \<in> K \<Longrightarrow> aliasesKnown L z h \<Longrightarrow> aliasesKnown L z h'"
    and "KService \<in> K \<Longrightarrow> serviceKnown L z h \<Longrightarrow> serviceKnown L z h'"
    and "KVolumeClaim \<in> K \<Longrightarrow> claimsKnown z h \<Longrightarrow> claimsKnown z h'"
    and "KStatefulSet \<in> K \<Longrightarrow> KSecret \<in> K \<Longrightarrow> serverKnown L z sts h \<Longrightarrow> serverKnown L z sts h'"
    and "KCronJob \<in> K \<Longrightarrow> known h (KCronJob, k) = Some (RCronJob cj) \<Longrightarrow> known h' (KCronJob, k) = Some (RCronJob cj)"
    and "KPod \<in> K \<Longrightarrow> podKnown z v h \<Longrightarrow> podKnown z v h'"
proof -
  note grown = grownD [OF assms]
  show "KSecret \<in> K \<Longrightarrow> secretKnown z (\<lambda>_. True) h \<Longrightarrow> secretKnown z (\<lambda>_. True) h'"
    by (rule secretKnown_grown [OF _ assms])
  show "KConfigMap \<in> K \<Longrightarrow> aliasesKnown L z h \<Longrightarrow> aliasesKnown L z h'"
    by (auto simp: aliasesKnown_def dest!: grown)
  show "KService \<in> K \<Longrightarrow> serviceKnown L z h \<Longrightarrow> serviceKnown L z h'"
    by (auto simp: serviceKnown_def dest!: grown)
  show "KVolumeClaim \<in> K \<Longrightarrow> claimsKnown z h \<Longrightarrow> claimsKnown z h'"
    by (fastforce simp: claimsKnown_def claimKnown_def labelled_def dest: grown)
  show "KStatefulSet \<in> K \<Longrightarrow> KSecret \<in> K \<Longrightarrow> serverKnown L z sts h \<Longrightarrow> serverKnown L z sts h'"
    by (auto simp: serverKnown_def dest!: grown intro: secretKnown_grown [OF _ assms] serverAsDesired_data)
  show "KCronJob \<in> K \<Longrightarrow> known h (KCronJob, k) = Some (RCronJob cj) \<Longrightarrow> known h' (KCronJob, k) = Some (RCronJob cj)"
    by (auto dest!: grown)
  show "KPod \<in> K \<Longrightarrow> podKnown z v h \<Longrightarrow> podKnown z v h'"
    by (auto simp: podKnown_def dest!: grown)
qed

lemma framed:
  assumes "steady essence m" and "emits (spares K) m" and "like z i"
    and "wpa remembers (\<lambda>_ _. True) Q m i h"
  shows "wpa remembers (\<lambda>_ _. True) (\<lambda>r j h'. like z j \<and> grown K h h' \<and> Q r j h') m i h"
  by (rule wpa_mono [OF wpa_conj [OF wpa_conj [OF steady_remembers [OF assms(1)] emits_grown [OF assms(2)]] assms(4)]])
    (use assms(3) in \<open>auto simp: like_def\<close>)

definition ownedKnown :: "lib \<Rightarrow> Instance \<Rightarrow> StatefulSet \<Rightarrow> event list \<Rightarrow> bool" where
  "ownedKnown L z sts h \<longleftrightarrow> aliasesKnown L z h \<and> serviceKnown L z h \<and> claimsKnown z h \<and> serverKnown L z sts h"

lemma owned_brought:
  assumes L: "lawful L" and i: "like z i" and version: "st_firebirdVersion (in_status z) \<noteq> []"
    and secret: "secretKnown z (\<lambda>_. True) h"
  shows "wpa remembers (\<lambda>_ _. True) (\<lambda>r j h'. like z j \<and> (\<forall>sts. r = Inr sts \<longrightarrow> ownedKnown L z sts h')) (reconcileOwned L) i h"
proof -
  let ?cm = "createOrUpdate (QFetchConfigMap (in_namespace i, aliasesConfigMapName i)) asConfigMap QStoreConfigMap
    (\<lambda>cm. liftA (mutateAliasesConfigMap L i cm))"
  let ?svc = "createOrUpdate (QFetchService (in_key i)) asService QStoreService (\<lambda>svc. liftA (mutateService L i svc))"
  let ?sts = "createOrUpdate (QFetchSts (in_key i)) asSts QStoreSts (mutateStatefulSet L)"
  let ?T = "\<lambda>_ _. True"
  have cm: "wpa remembers ?T (\<lambda>r j h'. like z j \<and> grown {KSecret} h0 h' \<and> (\<forall>x. r = Inr x \<longrightarrow> aliasesKnown L z h')) ?cm j h0"
    if "like z j" for j h0
    by (rule framed [OF _ _ that aliases_brought [OF L i]]) ((intro keep | intro emit); auto simp: spares_def)+
  have svc: "wpa remembers ?T (\<lambda>r j h'. like z j \<and> grown {KSecret, KConfigMap} h0 h'
      \<and> (\<forall>x. r = Inr x \<longrightarrow> serviceKnown L z h')) ?svc j h0"
    if "like z j" for j h0
    by (rule framed [OF _ _ that service_brought [OF L i]]) ((intro keep | intro emit); auto simp: spares_def)+
  have pvcs: "wpa remembers ?T (\<lambda>r j h'. like z j \<and> grown {KSecret, KConfigMap, KService} h0 h'
      \<and> (j = k \<and> (r = Inr () \<longrightarrow> claimsKnown z h'))) reconcilePVCs k h0"
    if "like z k" for k h0
    by (rule framed [OF _ _ that claims_brought [OF that version]]) ((intro keep | intro emit); auto simp: spares_def)+
  have sts: "wpa remembers ?T (\<lambda>r j h'. like z j \<and> grown {KSecret, KConfigMap, KService, KVolumeClaim} h0 h'
      \<and> (\<forall>sts. r = Inr sts \<longrightarrow> serverKnown L z sts h')) ?sts k h0"
    if "like z k" "secretKnown z (\<lambda>_. True) h0" for k h0
  proof -
    have "in_key k = in_key i" using that(1) i by (simp add: like_fields)
    then show ?thesis
      using framed [OF _ _ that(1) server_brought [OF L that], of "{KSecret, KConfigMap, KService, KVolumeClaim}"]
      by (simp add: steady_createOrUpdate steady_mutateStatefulSet emits_createOrUpdate emits_mutateStatefulSet spares_def)
  qed
  have last: "wpa remembers ?T (\<lambda>r j h'. like z j \<and> (\<forall>sts. r = Inr sts \<longrightarrow> ownedKnown L z sts h')) ?sts k h0"
    if "like z k" "secretKnown z (\<lambda>_. True) h0" "aliasesKnown L z h0" "serviceKnown L z h0" "claimsKnown z h0" for k h0
    by (rule wpa_mono [OF sts [OF that(1,2)]]) (use that known_grown in \<open>auto simp: ownedKnown_def\<close>)
  have volumes: "wpa remembers ?T (\<lambda>r j h'. like z j \<and> (\<forall>sts. r = Inr sts \<longrightarrow> ownedKnown L z sts h'))
      (thenA reconcilePVCs (wrapA pre ?sts)) k h0"
    if "like z k" "secretKnown z (\<lambda>_. True) h0" "aliasesKnown L z h0" "serviceKnown L z h0" for k h0 pre
    unfolding wpa_thenA wpa_wrapA
    by (rule wpa_mono [OF pvcs [OF that(1)]])
      (use that known_grown in \<open>auto intro!: wpa_mono [OF last]\<close>)
  have service: "wpa remembers ?T (\<lambda>r j h'. like z j \<and> (\<forall>sts. r = Inr sts \<longrightarrow> ownedKnown L z sts h'))
      (bindA (wrapA pre' ?svc) (\<lambda>_. thenA reconcilePVCs (wrapA pre ?sts))) k h0"
    if "like z k" "secretKnown z (\<lambda>_. True) h0" "aliasesKnown L z h0" for k h0 pre pre'
    unfolding wpa_bindA wpa_wrapA
    by (rule wpa_mono [OF svc [OF that(1)]])
      (use that known_grown in \<open>auto intro!: volumes\<close>)
  show ?thesis
    unfolding reconcileOwned_def wpa_withI wpa_bindA [where m = "wrapA _ ?cm"] wpa_wrapA [where m = ?cm]
    by (rule wpa_mono [OF cm [OF i]]) (use secret known_grown in \<open>auto intro!: service\<close>)
qed

text \<open>After the owned objects. The databases on record are the last that a CronJob depends on; the version may
  turn out to be another one.\<close>

definition recorded :: "Instance \<Rightarrow> nsname \<times> InstanceSpec \<times> string list" where
  "recorded i = (in_key i, in_spec i, status_databases i)"

definition servedKnown :: "lib \<Rightarrow> Instance \<Rightarrow> StatefulSet \<Rightarrow> Instance \<Rightarrow> event list \<Rightarrow> bool" where
  "servedKnown L z sts j h \<longleftrightarrow> in_key j = in_key z \<and> in_spec j = in_spec z \<and> ownedKnown L z sts h
     \<and> podKnown z (st_firebirdVersion (in_status j)) h
     \<and> (\<exists>k. like z k \<and> recorded j = recorded k \<and> (\<forall>freq\<in>set backupFrequencies. cronJobKnown L k h freq))"

lemma owned_grown:
  "grown K h h' \<Longrightarrow> {KSecret, KConfigMap, KService, KVolumeClaim, KStatefulSet} \<subseteq> K \<Longrightarrow> ownedKnown L z sts h
   \<Longrightarrow> ownedKnown L z sts h'"
  using known_grown [of K h h'] by (simp add: ownedKnown_def)

lemma cronJob_grown:
  assumes "grown K h h'" and "KCronJob \<in> K" and "cronJobKnown L k h freq"
  shows "cronJobKnown L k h' freq"
proof (cases "frequencyWanted k freq")
  case True
  then obtain cj where "known h (KCronJob, cronJobKey k freq) = Some (RCronJob cj)"
      "mutateScheduledBackupCronJob L k freq cj = Inr cj"
    using assms(3) by (auto simp: cronJobKnown_def)
  with True show ?thesis using known_grown(6) [OF assms(1,2)] unfolding cronJobKnown_def by metis
next
  case False
  then obtain e where e: "known h (KCronJob, cronJobKey k freq) = Some (RErr e)" "isNotFound e"
    using assms(3) by (auto simp: cronJobKnown_def)
  from grownD [OF assms(1) e(1)] assms(2) e(2) False show ?thesis by (auto simp: cronJobKnown_def)
qed

lemma served_grown:
  assumes "servedKnown L z sts j h" and "grown UNIV h h'"
    and "recorded j' = recorded j" and "st_firebirdVersion (in_status j') = st_firebirdVersion (in_status j)"
  shows "servedKnown L z sts j' h'"
proof -
  obtain k where "like z k" "recorded j = recorded k" "\<forall>freq\<in>set backupFrequencies. cronJobKnown L k h freq"
    using assms(1) by (auto simp: servedKnown_def)
  then have "\<exists>k. like z k \<and> recorded j' = recorded k \<and> (\<forall>freq\<in>set backupFrequencies. cronJobKnown L k h' freq)"
    using cronJob_grown [OF assms(2)] assms(3) by auto
  then show ?thesis
    using assms known_grown(7) [OF assms(2)] owned_grown [OF assms(2)]
    unfolding servedKnown_def by (simp add: recorded_def)
qed

lemma server_served:
  assumes L: "lawful L" and i: "like z i" and owned: "ownedKnown L z sts h" and ready: "stsReady sts"
  shows "wpa remembers (\<lambda>_ _. True) (\<lambda>r j h'. r = Inr () \<longrightarrow> servedKnown L z sts j h') (reconcileServer L sts) i h"
proof -
  let ?T = "\<lambda>_ _. True"
  let ?report = "withI (\<lambda>i. if stsReady sts \<and> length (spec_databases i) \<le> length (status_databases i)
    then reportReady L else reportNotReady L)"
  have databases: "wpa remembers ?T (\<lambda>r j h'. like z j \<and> grown UNIV h h' \<and> True) (reconcileDatabases n) i h" for n
    by (rule framed [OF _ _ i wpa_trivial])
      ((intro keep | intro emit); auto simp: spares_def essence_def recordDatabases_def Let_def)+
  have schedules: "wpa remembers ?T (\<lambda>r j h'. like z j \<and> grown (UNIV - {KCronJob}) h0 h'
      \<and> (j = k \<and> (r = Inr () \<longrightarrow> (\<forall>freq\<in>set backupFrequencies. cronJobKnown L k h' freq)))) (reconcileScheduledBackups L) k h0"
    if "like z k" for k h0
  proof -
    have self: "listsLike k k" by (simp add: listsLike_def like_def)
    show ?thesis
      by (rule framed [OF _ _ that schedules_brought [OF L self]]) ((intro keep | intro emit); auto simp: spares_def)+
  qed
  have version: "wpa remembers ?T (\<lambda>r j h'. recorded j = recorded k \<and> grown (UNIV - {KPod}) h0 h'
      \<and> (r = Inr () \<longrightarrow> podKnown z (st_firebirdVersion (in_status j)) h')) reconcileFirebirdVersion k h0"
    if "like z k" for k h0
  proof -
    have steady: "steady recorded reconcileFirebirdVersion" by (intro keep) (simp add: recorded_def)
    have emits: "emits (spares (UNIV - {KPod})) reconcileFirebirdVersion" by (intro emit) (auto simp: spares_def)
    show ?thesis
      by (rule wpa_mono [OF wpa_conj [OF wpa_conj [OF steady_remembers [OF steady] emits_grown [OF emits]]
          version_brought [OF that]]]) auto
  qed
  have report: "wpa remembers ?T (\<lambda>r j h'. r = Inr () \<longrightarrow> servedKnown L z sts j h') ?report k h0"
    if "servedKnown L z sts k h0" for k h0
  proof -
    let ?f = "\<lambda>i. (recorded i, st_firebirdVersion (in_status i))"
    have steady: "steady ?f ?report"
      unfolding reportReady_def reportNotReady_def finishMajorUpgrade_def
      by (intro keep) (auto simp: recorded_def availableEdit_def)
    have emits: "emits (spares UNIV) ?report"
      unfolding reportReady_def reportNotReady_def finishMajorUpgrade_def by (intro emit) (auto simp: spares_def)
    show ?thesis
      by (rule wpa_mono [OF wpa_conj [OF steady_remembers [OF steady] emits_grown [OF emits]]])
        (auto intro: served_grown [OF that])
  qed
  have served: "servedKnown L z sts j h'"
    if "like z k" "ownedKnown L z sts h0" "\<forall>freq\<in>set backupFrequencies. cronJobKnown L k h0 freq"
      "recorded j = recorded k" "grown (UNIV - {KPod}) h0 h'" "podKnown z (st_firebirdVersion (in_status j)) h'" for k j h0 h'
    using that owned_grown [OF that(5)] cronJob_grown [OF that(5)]
    by (auto simp: servedKnown_def recorded_def like_fields)
  have versioned: "wpa remembers ?T (\<lambda>r j h'. r = Inr () \<longrightarrow> servedKnown L z sts j h') reconcileFirebirdVersion k h0"
    if "like z k" "ownedKnown L z sts h0" "\<forall>freq\<in>set backupFrequencies. cronJobKnown L k h0 freq" for k h0
    by (rule wpa_mono [OF version [OF that(1)]]) (use served [OF that] in auto)
  have finish: "wpa remembers ?T (\<lambda>r j h'. r = Inr () \<longrightarrow> servedKnown L z sts j h')
      (thenA (thenA (reconcileScheduledBackups L) reconcileFirebirdVersion) ?report) k h0"
    if "like z k" "ownedKnown L z sts h0" for k h0
    unfolding wpa_thenA
    by (rule wpa_mono [OF schedules [OF that(1)]])
      (use that owned_grown in \<open>auto intro!: wpa_mono [OF versioned] report\<close>)
  show ?thesis
    unfolding reconcileServer_def wpa_thenA [where m = "reconcileDatabases _"] whenA_def if_P [OF ready]
    by (rule wpa_mono [OF databases]) (use owned owned_grown in \<open>auto intro!: finish\<close>)
qed

text \<open>What the status says at the end. A condition that was set is found again.\<close>

definition conditionFound :: "lib \<Rightarrow> bool" where
  "conditionFound L \<longleftrightarrow> (\<forall>cs c. lib_setStatusCondition L (fst (lib_setStatusCondition L cs c)) c
     = (fst (lib_setStatusCondition L cs c), False))"

definition conditionSettled :: "lib \<Rightarrow> Instance \<Rightarrow> bool" where
  "conditionSettled L i \<longleftrightarrow> lib_setStatusCondition L (st_conditions (in_status i))
      (availableCondition ''True'' ''StatefulSetReady'' ''Firebird instance is ready'' i) = (st_conditions (in_status i), False)"

lemma report_settles:
  assumes "conditionFound L"
  shows "wpa remembers (\<lambda>_ _. True)
    (\<lambda>r j h'. r = Inr () \<and> st_phase (in_status j) = phaseReady \<longrightarrow> conditionSettled L j \<and> ready)
    (if ready \<and> b then reportReady L else reportNotReady L) i h"
proof -
  have condition: "wpa remembers (\<lambda>_ _. True) (\<lambda>r j h'. r = Inr () \<longrightarrow> conditionSettled L j)
      (setAvailable L ''True'' ''StatefulSetReady'' ''Firebird instance is ready'') k h0" for k h0
    using assms
    by (auto simp: available.wpa_writer asInstance_Inr conditionSettled_def conditionFound_def availableEdit_def
        availableCondition_def dest!: remembers_echo)
  have ready: "wpa remembers (\<lambda>_ _. True) (\<lambda>r j h'. r = Inr () \<longrightarrow> conditionSettled L j) (reportReady L) i h"
    unfolding reportReady_def wpa_thenA
    by (rule wpa_mono [OF wpa_trivial]) (auto intro!: wpa_mono [OF wpa_trivial] wpa_mono [OF condition])
  have keep: "wpa remembers (\<lambda>_ _. True) (\<lambda>r j h'. st_phase (in_status j) = st_phase (in_status k))
      (setAvailable L st rs msg) k h0" for st rs msg k h0
    by (rule steady_remembers) (intro keep, simp add: availableEdit_def)
  have phase: "wpa remembers (\<lambda>_ _. True) (\<lambda>r j h'. r = Inr () \<longrightarrow> st_phase (in_status j) = p) (setPhase p) k h0" for p k h0
    by (auto simp: phase.wpa_writer asInstance_Inr dest!: remembers_echo)
  have "wpa remembers (\<lambda>_ _. True) (\<lambda>r j h'. r = Inr () \<longrightarrow> st_phase (in_status j) \<noteq> phaseReady) (reportNotReady L) i h"
    unfolding reportNotReady_def wpa_withI wpa_thenA
    by (rule wpa_mono [OF phase])
      (auto simp: phaseReady_def phaseUpgrading_def phaseProvisioning_def split: if_splits intro!: wpa_mono [OF keep])
  then show ?thesis
    by (cases "ready \<and> b") (auto intro: wpa_mono [OF ready] elim: wpa_mono)
qed

lemma server_settles:
  assumes "conditionFound L"
  shows "wpa remembers (\<lambda>_ _. True)
    (\<lambda>r j h'. r = Inr () \<and> st_phase (in_status j) = phaseReady \<longrightarrow> conditionSettled L j \<and> stsReady sts)
    (reconcileServer L sts) i h"
  unfolding reconcileServer_def wpa_thenA [where n = "thenA _ _"] wpa_thenA [where n = "withI _"] wpa_withI
  by (rule wpa_mono [OF wpa_trivial])
    (auto intro!: wpa_mono [OF wpa_trivial] report_settles [OF assms])

lemma upgrade_goes_on:
  "wpa remembers (\<lambda>_ _. True) (\<lambda>r j h'. \<forall>handled. r = Inr handled \<longrightarrow> \<not> handled) (reconcileMajorUpgrade L) i h"
proof -
  have on: "wpa remembers (\<lambda>_ _. True) (\<lambda>r j h'. \<forall>handled. r = Inr handled \<longrightarrow> \<not> handled) (continueUpgrade L sts) k h0" for sts k h0
    unfolding continueUpgrade_def withUpgrade_def
    by (auto simp: wpa_withI wpa_case_option wpa_failA wpa_If wpa_thenA wpa_bindA wpa_ok intro!: wpa_mono [OF wpa_trivial])
  have "wpa remembers (\<lambda>_ _. True) (\<lambda>r j h'. \<forall>handled. r = Inr handled \<longrightarrow> \<not> handled)
      (bindA (startMajorUpgrade sts) (\<lambda>started. if \<not> started then ok False else continueUpgrade L sts)) k h0" for sts k h0
    unfolding wpa_bindA by (rule wpa_mono [OF wpa_trivial]) (auto simp: wpa_ok on)
  with on show ?thesis
    unfolding reconcileMajorUpgrade_def
    by (auto simp: wpa_withI wpa_tryA wpa_callA wpa_case_sum wpa_If wpa_ok wpa_failA wpa_case_option)
qed

definition leftReady :: "lib \<Rightarrow> Instance \<Rightarrow> Instance \<Rightarrow> event list \<Rightarrow> bool" where
  "leftReady L z j h \<longleftrightarrow> conditionSettled L j \<and> (\<exists>sts. stsReady sts \<and> servedKnown L z sts j h)"

lemma instance_left:
  assumes L: "lawful L" and "conditionFound L" and i: "like z i" and version: "st_firebirdVersion (in_status z) \<noteq> []"
  shows "wpa remembers (\<lambda>_ _. True) (\<lambda>r j h'. r = Inr () \<and> st_phase (in_status j) = phaseReady \<longrightarrow> leftReady L z j h')
    (reconcileInstance L fuel) i h"
proof -
  let ?T = "\<lambda>_ _. True"
  let ?Q = "\<lambda>r j h'. r = Inr () \<and> st_phase (in_status j) = phaseReady \<longrightarrow> leftReady L z j h'"
  have server: "wpa remembers ?T ?Q (reconcileServer L sts) k h0" if "like z k" "ownedKnown L z sts h0" for sts k h0
  proof (cases "stsReady sts")
    case True
    show ?thesis
      by (rule wpa_mono [OF wpa_conj [OF server_settles [OF assms(2)] server_served [OF L that True]]])
        (use True in \<open>auto simp: leftReady_def\<close>)
  qed (rule wpa_mono [OF server_settles [OF assms(2), of sts]], auto)
  have owned: "wpa remembers ?T ?Q (bindA (reconcileOwned L) (reconcileServer L)) k h0"
    if "like z k" "secretKnown z (\<lambda>_. True) h0" for k h0
    unfolding wpa_bindA by (rule wpa_mono [OF owned_brought [OF L that(1) version that(2)]]) (auto intro: server)
  have upgrade: "wpa remembers ?T (\<lambda>r j h'. like z j \<and> grown {KSecret} h0 h' \<and> (\<forall>handled. r = Inr handled \<longrightarrow> \<not> handled))
      (reconcileMajorUpgrade L) k h0" if "like z k" for k h0
    by (rule framed [OF _ _ that upgrade_goes_on])
      ((intro keep | intro emit); auto simp: spares_def essence_def clearDatabases_def beginUpgrade_def)+
  have "wpa remembers ?T ?Q (bindA (reconcileMajorUpgrade L) (\<lambda>handled.
      if handled then ok () else bindA (reconcileOwned L) (reconcileServer L))) k h0"
    if "like z k" "secretKnown z (\<lambda>_. True) h0" for k h0
    unfolding wpa_bindA [where m = "reconcileMajorUpgrade L"]
  proof (rule wpa_mono [OF upgrade [OF that(1)]])
    fix r :: "error + bool" and j h'
    assume "like z j \<and> grown {KSecret} h0 h' \<and> (\<forall>handled. r = Inr handled \<longrightarrow> \<not> handled)"
    then show "(\<forall>e. r = Inl e \<longrightarrow> ?Q (Inl e) j h') \<and> (\<forall>handled. r = Inr handled \<longrightarrow>
        wpa remembers ?T ?Q (if handled then ok () else bindA (reconcileOwned L) (reconcileServer L)) j h')"
      using known_grown(1) [of "{KSecret}" h0 h' z] that(2) owned [of j h'] by auto
  qed auto
  then show ?thesis
    unfolding reconcileInstance_def wpa_thenA
    by (intro bringsD [OF secret_brought [OF version] i]) auto
qed

section \<open>What the first reconcile leaves\<close>

definition finalizerLaw :: "lib \<Rightarrow> bool" where
  "finalizerLaw L \<longleftrightarrow> (\<forall>fs f. lib_containsFinalizer L (lib_addFinalizer L fs f) f)"

text \<open>The cluster as a reconcile that can run undisturbed finds it.\<close>

definition undisturbed :: "lib \<Rightarrow> Instance \<Rightarrow> event list \<Rightarrow> request \<Rightarrow> answer \<Rightarrow> bool" where
  "undisturbed L i h q r \<longleftrightarrow> remembers h q r \<and> obliging L (current i) 0 h q r"

definition leftInOrder :: "lib \<Rightarrow> Instance \<Rightarrow> Instance \<Rightarrow> event list \<Rightarrow> bool" where
  "leftInOrder L z k h \<longleftrightarrow> inOrder L k \<and> (\<exists>sts. stsReady sts \<and> servedKnown L z sts k h)"

lemma undisturbed_remembers:
  "wpa remembers G Q m i h \<Longrightarrow> wpa (undisturbed L z) G Q m i h"
  unfolding wpa_def by (erule wp_stronger_answers) (simp add: undisturbed_def)

lemma undisturbed_obliging:
  "wpa (obliging L (current z) 0) G Q m i h \<Longrightarrow> wpa (undisturbed L z) G Q m i h"
  unfolding wpa_def by (erule wp_stronger_answers) (simp add: undisturbed_def)

definition alive :: "lib \<Rightarrow> Instance \<Rightarrow> bool" where
  "alive L i \<longleftrightarrow> \<not> in_deleting i \<and> lib_containsFinalizer L (in_finalizers i) finalizerName"

lemma steady_lifetime: "steady (\<lambda>i. (in_deleting i, in_finalizers i)) (reconcileInstance L fuel)"
  unfolding reconcileInstance_def reconcileServer_def reconcileOwned_def reportReady_def
    reportNotReady_def finishMajorUpgrade_def
  by (intro keep) (auto simp: clearDatabases_def beginUpgrade_def recordDatabases_def availableEdit_def Let_def)

lemma instance_leaves:
  assumes "lawful L" and "conditionFound L" and "conditionLaw L"
    and "nearlyThere z" and "distinct (map db_name (spec_databases z))" and "st_firebirdVersion (in_status z) \<noteq> []"
    and "like z i" and "sameAs z z D i h" and "alive L i"
  shows "wpa (undisturbed L z) (\<lambda>_ _. True)
    (\<lambda>r j h'. r = Inr () \<and> reportedReady z z j h' \<and> alive L j \<and> leftReady L z j h') (reconcileInstance L fuel) i h"
proof -
  note goes = undisturbed_obliging [OF instance_goes [OF assms(5,3,4) mayMake_0 assms(8)]]
  note left = undisturbed_remembers [OF instance_left [OF assms(1,2,7,6)]]
  note life = undisturbed_remembers [OF steady_remembers [OF steady_lifetime]]
  show ?thesis
    by (rule wpa_mono [OF wpa_conj [OF wpa_conj [OF goes left] life]])
      (use assms(9) in \<open>auto simp: reportedReady_def alive_def\<close>)
qed

text \<open>The last step clears the error.\<close>

lemma declared_done: "declared i \<Longrightarrow> pendingDatabases i = [] \<and> removedDatabases i = []"
  by (auto simp: declared_def pendingDatabases_def removedDatabases_def filter_empty_conv)

lemma cleared_inOrder:
  assumes "reportedReady z z j h" and "alive L j" and "conditionSettled L j" and "st_firebirdVersion (in_status j) \<noteq> []"
  shows "inOrder L (errorEdit L None j)"
proof -
  have "declared j" "upgrade_of j = None" "st_phase (in_status j) = phaseReady"
    using assms(1) by (simp_all add: reportedReady_def served_def)
  moreover from this(1) have "length (spec_databases j) \<le> length (status_databases j)" by (simp add: declared_def)
  ultimately show ?thesis
    using assms declared_done [of j] reconcile_error.settles [of L None j]
    by (simp add: inOrder_def alive_def conditionSettled_def errorEdit_def availableCondition_def
        pendingDatabases_def removedDatabases_def)
qed

lemma conclude_leaves:
  assumes ready: "reportedReady z z j h" and "alive L j" and left: "leftReady L z j h"
    and version: "st_firebirdVersion (in_status z) \<noteq> []"
  shows "wpa (undisturbed L z) (\<lambda>_ _. True)
    (\<lambda>r k h'. st_firebirdVersion (in_status (stored z h')) = st_firebirdVersion (in_status z) \<longrightarrow> leftInOrder L z (stored z h') h')
    (conclude L (Inr ())) j h"
proof -
  let ?k = "errorEdit L None j"
  obtain sts where sts: "stsReady sts" "servedKnown L z sts j h" and condition: "conditionSettled L j"
    using left by (auto simp: leftReady_def)
  have same: "recorded ?k = recorded j" "st_firebirdVersion (in_status ?k) = st_firebirdVersion (in_status j)"
    by (simp_all add: recorded_def errorEdit_def)
  have kept: "leftInOrder L z ?k h'" if "grown UNIV h h'" "st_firebirdVersion (in_status ?k) = st_firebirdVersion (in_status z)" for h'
    using cleared_inOrder [OF ready assms(2) condition] served_grown [OF sts(2) that(1) same] sts(1) that(2) version same(2)
    by (auto simp: leftInOrder_def)
  have sent: "grown UNIV h ((QUpdateStatus ?k, r) # h)" if "undisturbed L z h (QUpdateStatus ?k) r" for r
    using that by (intro grown_event) (auto simp: spares_def undisturbed_def)
  have idle: "?k = j" if "errorSettled L None j" using that by (rule reconcile_error.settled_edit)
  show ?thesis
    using ready kept [OF grown_refl] kept [OF sent] idle
    by (auto simp: conclude_def errorOf_def wprule reconcile_error.wpa_writer reportedReady_def undisturbed_def)
qed

lemma found_leaves:
  assumes "lawful L" and "conditionFound L" and "conditionLaw L" and "finalizerLaw L"
    and "\<not> in_deleting z" and "nearlyThere z" and "distinct (map db_name (spec_databases z))"
    and "st_firebirdVersion (in_status z) \<noteq> []"
  shows "wpa (undisturbed L z) (\<lambda>_ _. True)
    (\<lambda>r k h'. st_firebirdVersion (in_status (stored z h')) = st_firebirdVersion (in_status z) \<longrightarrow> leftInOrder L z (stored z h') h')
    (reconcileFound L fuel) z []" (is "wpa _ _ ?Q _ _ _")
proof -
  have finalizer: "wpa (undisturbed L z) (\<lambda>_ _. True)
      (\<lambda>r j h. r = Inr () \<and> like z j \<and> sameAs z z (\<lambda>_. True) j h \<and> alive L j) (ensureFinalizer L) z []"
    using assms(4,5)
    by (auto simp: ensureFinalizer_def wprule sameAs_def alive_def finalizerLaw_def like_fields undisturbed_def)
  have rest: "wpa (undisturbed L z) (\<lambda>_ _. True) ?Q (tryA (reconcileInstance L fuel) (conclude L)) j h"
    if "like z j" "sameAs z z (\<lambda>_. True) j h" "alive L j" for j h
    unfolding wpa_tryA
    by (rule wpa_mono [OF instance_leaves [OF assms(1-3,6-8) that]]) (auto intro!: conclude_leaves [OF _ _ _ assms(8)])
  show ?thesis
    using assms(5) unfolding reconcileFound_def
    by (simp add: wpa_withI wpa_thenA) (rule wpa_mono [OF finalizer], use rest in auto)
qed

end
