(* ===== verification/Settling.thy ===== *)
theory Settling
  imports Converge
begin

text \<open>
  The second reconcile: when everything it needs is known to be as it should be, each request it makes
  changes nothing, so that all of it stays known; and so it comes to rest.
\<close>

section \<open>Everything at hand\<close>

definition upToDate :: "Instance \<Rightarrow> StatefulSet \<Rightarrow> bool" where
  "upToDate k sts \<longleftrightarrow> stsReady sts
     \<and> decideUpgrade (statefulSetFirebirdVersion sts) (version_of k) (backupVolumeSpec k \<noteq> None) = NoUpgrade"

definition atHand :: "lib \<Rightarrow> Instance \<Rightarrow> Secret \<Rightarrow> event list \<Rightarrow> bool" where
  "atHand L k sec h \<longleftrightarrow> secretKnown k (\<lambda>s. sec_data s = sec_data sec) h
     \<and> aliasesKnown L k h \<and> serviceKnown L k h \<and> claimsKnown k h
     \<and> (\<exists>sts. upToDate k sts \<and> serverAsDesired L k sec sts \<and> known h (KStatefulSet, in_key k) = Some (RSts sts))
     \<and> podKnown k (st_firebirdVersion (in_status k)) h
     \<and> (\<forall>freq\<in>set backupFrequencies. cronJobKnown L k h freq)"

lemma atHand_grown:
  assumes "atHand L k sec h" and "grown UNIV h h'"
  shows "atHand L k sec h'"
proof -
  obtain sts where sts: "upToDate k sts" "serverAsDesired L k sec sts" "known h (KStatefulSet, in_key k) = Some (RSts sts)"
    using assms(1) by (auto simp: atHand_def)
  from grownD [OF assms(2) sts(3)] have "known h' (KStatefulSet, in_key k) = Some (RSts sts)" by auto
  with sts assms(1) show ?thesis
    unfolding atHand_def
    by (auto intro!: known_grown [OF assms(2)] cronJob_grown [OF assms(2)] intro: secretKnown_grown [OF _ assms(2)])
qed

text \<open>An object in order for one instance is in order for another one that is like it.\<close>

context mutator
begin

lemma in_order_too:
  assumes "ownerLaw L" and "ownerFound L" and "setOwner L i meta put (mutate x) = Inr x" and "in_key j = in_key i"
  shows "setOwner L j meta put (mutate x) = Inr x"
proof -
  obtain n where "put n (mutate x) = x" using assms(3) by (auto simp: setOwner_def split: sum.splits)
  then have "put (meta x) x = x" by (metis meta_put put_put)
  with taken_over [OF assms(1,2,3) _ assms(4), of "meta x"] show ?thesis by (simp add: keptMeta_def)
qed

end

lemma like_known:
  assumes L: "lawful L" and k: "like z k"
  shows "secretKnown k P = secretKnown z P" and "claimsKnown k = claimsKnown z" and "podKnown k = podKnown z"
    and "aliasesKnown L z h \<Longrightarrow> aliasesKnown L k h" and "serviceKnown L z h \<Longrightarrow> serviceKnown L k h"
    and "serverAsDesired L z sec sts \<Longrightarrow> serverAsDesired L k sec sts"
proof -
  have key: "in_key k = in_key z" "in_namespace k = in_namespace z" and version: "st_firebirdVersion (in_status k) = st_firebirdVersion (in_status z)"
    using k by (simp_all add: like_fields)
  have labels: "labelled k = labelled z" by (simp only: fun_eq_iff labelled_def version simp_thms)
  have names: "claimNames k = claimNames z"
    using k unfolding claimNames_def like_fields by (simp only: like_names [OF k])
  show "secretKnown k P = secretKnown z P"
    by (simp only: fun_eq_iff secretKnown_def sysdbaKey_def key labels like_names [OF k] simp_thms)
  show "claimsKnown k = claimsKnown z"
    by (simp only: fun_eq_iff claimsKnown_def claimKnown_def key labels names simp_thms)
  show "podKnown k = podKnown z"
    by (simp only: fun_eq_iff podKnown_def key like_names [OF k] simp_thms)
  note laws = L [unfolded lawful_def, THEN conjunct1] L [unfolded lawful_def, THEN conjunct2, THEN conjunct1]
  show "aliasesKnown L z h \<Longrightarrow> aliasesKnown L k h"
    using aliases.in_order_too [OF laws, of z z] key
    by (auto simp: aliasesKnown_def mutateAliasesConfigMap_def like_names [OF k] like_desired [OF k])
  show "serviceKnown L z h \<Longrightarrow> serviceKnown L k h"
    using service.in_order_too [OF laws, of z z] key
    by (auto simp: serviceKnown_def mutateService_def like_desired [OF k])
  show "serverAsDesired L z sec sts \<Longrightarrow> serverAsDesired L k sec sts"
    using server.in_order_too [OF laws, of z z] key
    by (auto simp: serverAsDesired_def like_desired [OF k])
qed

lemma cronJob_too:
  assumes L: "lawful L" and k: "listsLike z k" and cronJob: "cronJobKnown L z h freq"
  shows "cronJobKnown L k h freq"
proof -
  have like: "like z k" and key: "in_key k = in_key z" "in_namespace k = in_namespace z"
    using k by (simp_all add: listsLike_def like_fields)
  have "cronJobKey k freq = cronJobKey z freq" by (simp add: cronJobKey_def like_names [OF like] key)
  moreover have "mutateScheduledBackupCronJob L k freq cj = Inr cj" if "mutateScheduledBackupCronJob L z freq cj = Inr cj" for cj
    using that backup_job.in_order_too [of L z z freq cj k] L key
    by (simp add: mutateScheduledBackupCronJob_def lawful_def listsLike_cronJob [OF k])
  ultimately show ?thesis
    using cronJob unfolding cronJobKnown_def by (auto simp: listsLike_scripts [OF k] split: if_splits)
qed

lemma left_atHand:
  assumes L: "lawful L" and left: "leftInOrder L z k h"
    and version: "st_firebirdVersion (in_status k) = st_firebirdVersion (in_status z)"
    and tag: "CHR '':'' \<notin> set (sp_version (in_spec z))" "CHR ''/'' \<notin> set (sp_version (in_spec z))"
  shows "\<exists>sec. atHand L k sec h"
proof -
  obtain sts j where ready: "stsReady sts" and same: "in_key k = in_key z" "in_spec k = in_spec z"
    and owned: "ownedKnown L z sts h" and pod: "podKnown z (st_firebirdVersion (in_status k)) h"
    and j: "like z j" "recorded k = recorded j" "\<forall>freq\<in>set backupFrequencies. cronJobKnown L j h freq"
    using left by (auto simp: leftInOrder_def servedKnown_def)
  have like: "like z k" using same version by (simp add: like_fields)
  obtain sec where sec: "secretKnown z (\<lambda>s. sec_data s = sec_data sec) h" "serverAsDesired L z sec sts"
    using owned by (auto simp: ownedKnown_def serverKnown_def secretKnown_def)
  have "listsLike j k" using j like by (simp add: listsLike_def like_fields recorded_def)
  moreover have "upToDate k sts"
  proof -
    have any: "statefulSetFirebirdVersion (s\<lparr>sts_meta := n\<rparr>) = statefulSetFirebirdVersion s" for s n
      by (simp add: statefulSetFirebirdVersion_def)
    obtain n where "(desiredStatefulSet z (passwordOf sec) sts)\<lparr>sts_meta := n\<rparr> = sts"
      using sec(2) by (auto simp: serverAsDesired_def setOwner_def split: sum.splits)
    with any have "statefulSetFirebirdVersion sts = statefulSetFirebirdVersion (desiredStatefulSet z (passwordOf sec) sts)"
      by metis
    then show ?thesis
      using server_version_of [OF tag] same by (simp add: upToDate_def ready same_version_stays)
  qed
  ultimately show ?thesis
    using owned pod sec j(3) same(1) cronJob_too [OF L]
    by (auto simp: atHand_def ownedKnown_def serverKnown_def like_known [OF L like])
qed

section \<open>Quiet requests\<close>

text \<open>What has been fetched is known.\<close>

definition rigid :: "answer \<Rightarrow> bool" where
  "rigid x \<longleftrightarrow> (\<forall>r. alike x r \<longrightarrow> r = x)"

definition fetchedKnown :: "event list \<Rightarrow> event list \<Rightarrow> bool" where
  "fetchedKnown h H \<longleftrightarrow> (\<forall>q r. (q, r) \<in> set h \<and> fetches q
     \<longrightarrow> keyed q r \<and> rigid r \<and> known H (the (target q)) = Some r)"

lemma fetchedKnownD:
  "fetchedKnown h H \<Longrightarrow> (q, r) \<in> set h \<Longrightarrow> fetches q \<Longrightarrow> keyed q r \<and> rigid r \<and> known H (the (target q)) = Some r"
  unfolding fetchedKnown_def by blast

lemma store_fetched:
  assumes "quiet k h q" and "storing q = Some x"
  shows "\<exists>f. fetches f \<and> (f, x) \<in> set h \<and> (keyed f x \<longrightarrow> target q = target f)"
proof -
  have fetched: "\<exists>f. fetches f \<and> (f, x) \<in> set h \<and> (keyed f x \<longrightarrow> target q = target f)"
    if "\<exists>k. (mk k, x) \<in> set h" "\<And>k. fetches (mk k)" "\<And>k. keyed (mk k) x \<Longrightarrow> target q = target (mk k)" for mk :: "nsname \<Rightarrow> request"
    using that by blast
  show ?thesis
  proof (cases q)
    case (QStoreSts s)
    then show ?thesis by (intro fetched [of QFetchSts]) (use assms in \<open>auto simp: keyed_def simp del: split_paired_Ex\<close>)
  next
    case (QStoreCronJob c)
    then show ?thesis by (intro fetched [of QFetchCronJob]) (use assms in \<open>auto simp: keyed_def simp del: split_paired_Ex\<close>)
  next
    case (QStoreConfigMap c)
    then show ?thesis by (intro fetched [of QFetchConfigMap]) (use assms in \<open>auto simp: keyed_def simp del: split_paired_Ex\<close>)
  next
    case (QStoreService s)
    then show ?thesis by (intro fetched [of QFetchService]) (use assms in \<open>auto simp: keyed_def simp del: split_paired_Ex\<close>)
  qed (use assms in auto)
qed

lemma store_known:
  assumes "fetchedKnown h H" and "quiet k h q" and "storing q = Some x"
  shows "\<exists>t. target q = Some t \<and> known H t = Some x"
proof -
  obtain f where f: "fetches f" "(f, x) \<in> set h" "keyed f x \<longrightarrow> target q = target f"
    using store_fetched [OF assms(2,3)] by blast
  moreover have "\<exists>t. target f = Some t" using f(1) by (cases f) auto
  ultimately show ?thesis using fetchedKnownD [OF assms(1) f(2,1)] by auto
qed

lemma gone_known:
  assumes "atHand L k sec H" and "quiet k h (QDeleteCronJob k')"
  shows "\<exists>e. known H (KCronJob, k') = Some (RErr e) \<and> isNotFound e"
  using assms by (auto simp: atHand_def cronJobKnown_def split: if_splits)

text \<open>So a quiet request is answered as at rest.\<close>

lemma known_answer:
  "remembers H q r \<Longrightarrow> target q = Some t \<Longrightarrow> known H t = Some x \<Longrightarrow> reads q \<Longrightarrow> \<nexists>k. q = QDeleteCronJob k \<Longrightarrow> alike x r"
  unfolding remembers_def by blast

lemma known_fetch:
  "remembers H q r \<Longrightarrow> target q = Some t \<Longrightarrow> known H t = Some x \<Longrightarrow> fetches q \<Longrightarrow> \<not> isError x \<Longrightarrow> alike x r"
  unfolding remembers_def by blast

lemma known_store: "remembers H q r \<Longrightarrow> target q = Some t \<Longrightarrow> known H t = Some x \<Longrightarrow> storing q = Some x \<Longrightarrow> r = x"
  unfolding remembers_def by blast

lemma quiet_atRest:
  assumes hand: "atHand L k sec H" and fetched: "fetchedKnown h H" and quiet: "quiet k h q" and r: "remembers H q r"
  shows "atRest L k sec q r"
proof (cases q)
  case (QGetSecret k')
  with known_answer [OF r] hand show ?thesis
    by (fastforce simp: atHand_def secretKnown_def sysdbaKey_def labelled_def)
next
  case (QGetPvc k')
  with known_answer [OF r] hand show ?thesis
    by (cases k') (fastforce simp: atHand_def claimsKnown_def claimKnown_def labelled_def)
next
  case (QGetSts k')
  with known_answer [OF r] hand show ?thesis
    by (fastforce simp: atHand_def upToDate_def)
next
  case (QGetPod k')
  with known_answer [OF r] hand show ?thesis
    by (fastforce simp: atHand_def podKnown_def labelled_def)
next
  case (QGetCronJob k')
  with known_answer [OF r] hand show ?thesis
    by (fastforce simp: atHand_def cronJobKnown_def)
next
  case (QFetchConfigMap k')
  with known_fetch [OF r] hand show ?thesis
    by (fastforce simp: atHand_def aliasesKnown_def)
next
  case (QFetchService k')
  with known_fetch [OF r] hand show ?thesis
    by (fastforce simp: atHand_def serviceKnown_def)
next
  case (QFetchSts k')
  with known_fetch [OF r] hand show ?thesis
    by (fastforce simp: atHand_def upToDate_def serverAsDesired_def passwordOf_def)
next
  case (QFetchCronJob k')
  with known_fetch [OF r] hand show ?thesis
    by (fastforce simp: atHand_def cronJobKnown_def)
next
  case (QDeleteCronJob k')
  with gone_known [OF hand] quiet obtain e where "known H (KCronJob, k') = Some (RErr e)" "isNotFound e" by blast
  with r QDeleteCronJob have "alike (RErr e) r" unfolding remembers_def by fastforce
  with \<open>isNotFound e\<close> QDeleteCronJob show ?thesis by auto
qed (use store_known [OF fetched quiet] known_store [OF r] in auto)

text \<open>It leaves what is known.\<close>

lemma grownI:
  assumes "\<And>t x. target q = Some t \<Longrightarrow> known H t = Some x \<Longrightarrow> \<exists>x'. learn q r (Some x) = Some x' \<and> alike x x'"
  shows "grown K H ((q, r) # H)"
  unfolding grown_def using assms alike_refl by (auto simp del: split_paired_All)

lemma quiet_grown:
  assumes hand: "atHand L k sec H" and fetched: "fetchedKnown h H" and quiet: "quiet k h q" and r: "remembers H q r"
  shows "grown UNIV H ((q, r) # H)"
proof (cases "changes q")
  case False
  then show ?thesis using grown_event [OF _ r, of UNIV] by (simp add: spares_def)
next
  case True
  then consider (store) x where "storing q = Some x" | (delete) k' where "q = QDeleteCronJob k'"
    using quiet by (cases q) auto
  then show ?thesis
  proof cases
    case store
    then obtain t where t: "target q = Some t" "known H t = Some x" using store_known [OF fetched quiet] by blast
    then have "r = x" using known_store [OF r] store by blast
    then have "learn q r (Some x) = Some x" using store by (cases q) (auto simp: written_def)
    then show ?thesis using t by (intro grownI) (auto intro: alike_refl)
  next
    case (delete k')
    with gone_known [OF hand] quiet obtain e where "known H (KCronJob, k') = Some (RErr e)" "isNotFound e" by blast
    moreover from this r delete have "alike (RErr e) r" unfolding remembers_def by fastforce
    ultimately show ?thesis by (intro grownI) (auto simp: delete gone_iff)
  qed
qed

lemma fetch_known:
  assumes "atHand L k sec H" and "quiet k h q" and "fetches q"
  shows "\<exists>t x. target q = Some t \<and> known H t = Some x \<and> rigid x \<and> \<not> isError x"
  using assms
  by (cases q)
    (auto simp: atHand_def aliasesKnown_def serviceKnown_def cronJobKnown_def rigid_def split: if_splits)

lemma fetchedKnown_event:
  assumes hand: "atHand L k sec H" and fetched: "fetchedKnown h H" and quiet: "quiet k h q" and r: "remembers H q r"
  shows "fetchedKnown ((q, r) # h) ((q, r) # H)"
proof -
  have "known ((q, r) # H) (the (target q')) = Some r'" if "(q', r') \<in> set h" "fetches q'" for q' r'
    using fetchedKnownD [OF fetched that] grownD [OF quiet_grown [OF assms], of "the (target q')" r']
    by (auto simp: rigid_def simp del: known.simps)
  moreover have "keyed q r \<and> rigid r \<and> known ((q, r) # H) (the (target q)) = Some r" if f: "fetches q"
  proof -
    obtain t x where x: "target q = Some t" "known H t = Some x" "rigid x" "\<not> isError x"
      using fetch_known [OF hand quiet f] by blast
    then have "r = x" using known_fetch [OF r x(1,2) f x(4)] by (simp add: rigid_def)
    moreover have "learn q r y = y" for y using f by (cases q) auto
    ultimately show ?thesis using x r by (simp add: remembers_def)
  qed
  ultimately show ?thesis
    unfolding fetchedKnown_def
    using fetchedKnownD [OF fetched] by (auto simp del: known.simps)
qed

section \<open>At rest after one reconcile\<close>

lemma answered_after: "answered A (h @ h0) tr \<longleftrightarrow> answered (\<lambda>h. A (h @ h0)) h tr"
proof (induction tr arbitrary: h)
  case (Cons ev tr)
  then show ?case by (cases ev) (metis append_Cons answered.simps(2))
qed simp

lemma found_settles:
  assumes order: "inOrder L k" and hand: "atHand L k sec h0"
  shows "wpa (\<lambda>h. remembers (h @ h0)) (quiet k) (\<lambda>r j h. r = Inr reconciled) (reconcileFound L fuel) k []"
  unfolding wpa_def
proof (rule wp_under [where I = "\<lambda>h. atHand L k sec (h @ h0) \<and> fetchedKnown h (h @ h0)"])
  have "wpa (\<lambda>h. atRest L k sec) (quiet k) (\<lambda>r j h. r = Inr reconciled) (reconcileFound L fuel) k []"
    by (rule restsD [OF found_rests [OF order]]) simp
  then show "wp (\<lambda>h. atRest L k sec) (quiet k) (\<lambda>(r, j) h. r = Inr reconciled) (reconcileFound L fuel k) []"
    by (simp add: wpa_def)
  show "atHand L k sec ([] @ h0) \<and> fetchedKnown [] ([] @ h0)" using hand by (simp add: fetchedKnown_def)
  fix h q r
  assume I: "atHand L k sec (h @ h0) \<and> fetchedKnown h (h @ h0)" and quiet: "quiet k h q" and r: "remembers (h @ h0) q r"
  note here = conjunct1 [OF I] conjunct2 [OF I] quiet r
  show "atRest L k sec q r \<and> atHand L k sec (((q, r) # h) @ h0) \<and> fetchedKnown ((q, r) # h) (((q, r) # h) @ h0)"
    using quiet_atRest [OF here] atHand_grown [OF here(1) quiet_grown [OF here]] fetchedKnown_event [OF here] by simp
qed

end
