(* ===== verification/Settled.thy ===== *)
theory Settled
  imports Settling
begin

text \<open>
  Reconciling comes to an end: one undisturbed reconcile and then one that changes nothing. It is seen at an
  instance whose upgrade has come to the restore, in a cluster that remembers what was written to it.
\<close>

section \<open>At rest after one reconcile\<close>

text \<open>C13: Reconciling comes to an end: when one reconcile of a live instance can run undisturbed (the cluster
  takes writes over, the Secret and the pod are there, other objects are there or can be made, the server
  comes up and every command works, and nobody else writes to the objects of the instance), and the server still has the version on record, then
  the next reconcile of the instance as it was left, whose reads find the objects as they were left, makes
  no request that changes anything, and returns without an error and without asking for another run. This
  also covers a restore at the end of a major upgrade; objects are compared by what the operator
  sets in them, since the server adds to them.\<close>

theorem reconciles_settle:
  assumes "steps (Reconcile L fuel req) ((QGetInstance req, RInstance i) # tr) (Ret res)"
    and "steps (Reconcile L fuel' req) ((QGetInstance req, RInstance (stored i (rev tr))) # tr') p"
    and "answered (undisturbed L i) [] tr" and "answered remembers (rev tr) tr'"
    and "lawful L" and "conditionFound L" and "conditionLaw L" and "finalizerLaw L"
    and "\<not> in_deleting i" and "nearlyThere i" and "distinct (map db_name (spec_databases i))"
    and "CHR '':'' \<notin> set (sp_version (in_spec i))" and "CHR ''/'' \<notin> set (sp_version (in_spec i))"
    and "st_firebirdVersion (in_status i) \<noteq> []"
    and "st_firebirdVersion (in_status (stored i (rev tr))) = st_firebirdVersion (in_status i)"
  shows "(\<forall>pre q a post. tr' = pre @ (q, a) # post \<longrightarrow> quiet (stored i (rev tr)) (rev pre) q)
    \<and> (\<forall>res'. p = Ret res' \<longrightarrow> res' = (None, None))"
proof -
  let ?k = "stored i (rev tr)" and ?A = "\<lambda>h. remembers (h @ rev tr)"
  note left = found_leaves [OF assms(5-11,14)]
  from Reconcile_result [OF assms(1), where Q = "\<lambda>res h. st_firebirdVersion (in_status (stored i h))
      = st_firebirdVersion (in_status i) \<longrightarrow> leftInOrder L i (stored i h) h", OF left assms(3)]
  have k: "leftInOrder L i ?k (rev tr)" using assms(15) by simp
  then obtain sec where "atHand L ?k sec (rev tr)" using left_atHand [OF assms(5) _ assms(15,12,13)] by blast
  with k have settles: "wpa ?A (quiet ?k) (\<lambda>r j h. r = Inr reconciled) (reconcileFound L fuel') ?k []"
    using found_settles by (simp add: leftInOrder_def)
  have calm: "answered ?A [] tr'" using assms(4) answered_after [of remembers "[]" "rev tr" tr'] by simp
  have "quiet ?k (rev pre) q" if "tr' = pre @ (q, a) # post" for pre q a post
    using Reconcile_guard [OF assms(2) [unfolded that] wpa_mono [OF settles]] calm that by simp
  moreover have "wpa ?A (\<lambda>_ _. True) (\<lambda>r j h. resultOf r = (None, None)) (reconcileFound L fuel') ?k []"
    by (rule wpa_mono [OF settles]) (auto simp: resultOf_def reconciled_def)
  then have "res' = (None, None)" if "p = Ret res'" for res'
    using Reconcile_result [OF assms(2) [unfolded that], of ?A "\<lambda>res h. res = (None, None)"] calm by simp
  ultimately show ?thesis by blast
qed

section \<open>A cluster with a memory\<close>

definition metaAt :: "nsname \<Rightarrow> ObjectMeta" where
  "metaAt k = noMeta\<lparr>om_namespace := fst k, om_name := snd k\<rparr>"

text \<open>The databases are to be restored, and there is to be a daily backup.\<close>

definition restoredInstance :: Instance where
  "restoredInstance = (sampleInstance ''5.0'')\<lparr>in_finalizers := [],
     in_spec := (sampleSpec ''5.0'')\<lparr>sp_backup := sampleBackup\<lparr>bk_retention := noRetentionSpec\<lparr>rt_day := ''7d''\<rparr>\<rparr>\<rparr>,
     in_status := sampleStatus\<lparr>st_databases := [], st_databaseCount := 0, st_phase := phaseUpgrading,
       st_firebirdVersion := ''5.0.2'',
       st_upgrade := Some \<lparr>up_fromVersion = ''4.0'', up_toVersion = ''5.0'', up_stage = Restoring\<rparr>\<rparr>\<rparr>"

text \<open>What a request is answered with when nothing is known of its object.\<close>

fun fresh :: "request \<Rightarrow> answer" where
  "fresh (QGetInstance k) = RInstance (restoredInstance\<lparr>in_namespace := fst k, in_name := snd k\<rparr>)"
| "fresh (QUpdateInstance j) = RInstance j"
| "fresh (QUpdateStatus j) = RInstance j"
| "fresh (QGetSecret k) =
     RSecret \<lparr>sec_meta = metaAt k, sec_data = [sysdbaSecretPasswordKey \<mapsto> ''masterkey''], sec_stringData = Map.empty\<rparr>"
| "fresh (QGetPod k) = RPod ((finishedPod ''Running'')\<lparr>pod_meta := (metaAt k)\<lparr>om_labels := [firebirdVersionLabelKey \<mapsto> ''5.0.2'']\<rparr>\<rparr>)"
| "fresh (QGetSts k) = RErr (ApiNotFound [])"
| "fresh (QGetPvc k) = RErr (ApiNotFound [])"
| "fresh (QGetCronJob k) = RErr (ApiNotFound [])"
| "fresh (QDeleteCronJob k) = RErr (ApiNotFound [])"
| "fresh (QFetchConfigMap k) = RConfigMap \<lparr>cm_meta = metaAt k, cm_data = Map.empty\<rparr>"
| "fresh (QFetchService k) = RService \<lparr>svc_meta = metaAt k, svc_type = [],
     svc_selector = Map.empty, svc_ports = [], svc_clusterIP = []\<rparr>"
| "fresh (QFetchSts k) = RSts ((sampleSts [] 0)\<lparr>sts_meta := metaAt k\<rparr>)"
| "fresh (QFetchCronJob k) = RCronJob (plainCronJob\<lparr>cj_meta := metaAt k\<rparr>)"
| "fresh (QStoreConfigMap cm) = RConfigMap cm"
| "fresh (QStoreService svc) = RService svc"
| "fresh (QStoreSts sts) = RSts (sts\<lparr>sts_readyReplicas := 1\<rparr>)"
| "fresh (QStoreCronJob cj) = RCronJob cj"
| "fresh (QUpdateSts sts) = RSts sts"
| "fresh (QExec ns p cmd s) =
     (if hd cmd = ''test'' then RExec [] [] (Some (CodeExit 1 []))
      else RExec ''Server version: LI-V5.0.2.1613 Firebird 5.0'' [] None)"
| "fresh q = RUnit"

fun memory :: "event list \<Rightarrow> request \<Rightarrow> answer" where
  "memory h (QDeleteCronJob k) =
     (case known h (KCronJob, k) of Some (RCronJob c) \<Rightarrow> RUnit | _ \<Rightarrow> RErr (ApiNotFound []))"
| "memory h q =
     (if reads q \<or> fetches q
      then (case known h (the (target q)) of Some x \<Rightarrow> if isError x then fresh q else x | None \<Rightarrow> fresh q)
      else fresh q)"

section \<open>What it remembers\<close>

fun fits :: "objectKind \<Rightarrow> nsname \<Rightarrow> answer \<Rightarrow> bool" where
  "fits KStatefulSet k x = (case x of RSts s \<Rightarrow> keyOf (sts_meta s) = k \<and> sts_readyReplicas s = 1 | _ \<Rightarrow> False)"
| "fits KVolumeClaim k x = (case x of RPvc p \<Rightarrow> keyOf (pvc_meta p) = k | _ \<Rightarrow> False)"
| "fits KSecret k x = (case x of RSecret s \<Rightarrow> keyOf (sec_meta s) = k | _ \<Rightarrow> False)"
| "fits KPod k x = (case x of RPod p \<Rightarrow> keyOf (pod_meta p) = k
       \<and> mapGet (om_labels (pod_meta p)) firebirdVersionLabelKey = ''5.0.2'' | _ \<Rightarrow> False)"
| "fits KCronJob k x = (case x of RCronJob c \<Rightarrow> keyOf (cj_meta c) = k | RErr e \<Rightarrow> isNotFound e | _ \<Rightarrow> False)"
| "fits KConfigMap k x = (case x of RConfigMap c \<Rightarrow> keyOf (cm_meta c) = k | _ \<Rightarrow> False)"
| "fits KService k x = (case x of RService s \<Rightarrow> keyOf (svc_meta s) = k | _ \<Rightarrow> False)"
| "fits KInstance k x = False"

definition orderly :: "event list \<Rightarrow> bool" where
  "orderly h \<longleftrightarrow> (\<forall>kind k x. known h (kind, k) = Some x \<longrightarrow> fits kind k x)"

text \<open>Requests that do not relabel the pod, and keep the version on record and the instance alive.\<close>

definition lasting :: "Instance \<Rightarrow> bool \<times> string" where
  "lasting i = (in_deleting i, st_firebirdVersion (in_status i))"

definition calm :: "request \<Rightarrow> bool" where
  "calm q \<longleftrightarrow> sameIn lasting (False, ''5.0.2'') q \<and> (\<forall>p p'. q \<noteq> QPatchPod p p')"

lemma orderlyD: "orderly h \<Longrightarrow> known h (kind, k) = Some x \<Longrightarrow> fits kind k x"
  unfolding orderly_def by blast

lemma orderly_event:
  assumes "orderly h" and "\<And>kind k x. target q = Some (kind, k) \<Longrightarrow> learn q r (known h (kind, k)) = Some x \<Longrightarrow> fits kind k x"
  shows "orderly ((q, r) # h)"
  using assms by (auto simp: orderly_def)

lemma fits_cases:
  "fits KStatefulSet k x \<longleftrightarrow> (\<exists>s. x = RSts s \<and> keyOf (sts_meta s) = k \<and> sts_readyReplicas s = 1)"
  "fits KVolumeClaim k x \<longleftrightarrow> (\<exists>p. x = RPvc p \<and> keyOf (pvc_meta p) = k)"
  "fits KSecret k x \<longleftrightarrow> (\<exists>s. x = RSecret s \<and> keyOf (sec_meta s) = k)"
  "fits KPod k x \<longleftrightarrow> (\<exists>p. x = RPod p \<and> keyOf (pod_meta p) = k
     \<and> mapGet (om_labels (pod_meta p)) firebirdVersionLabelKey = ''5.0.2'')"
  "fits KCronJob k x \<longleftrightarrow> (\<exists>c. x = RCronJob c \<and> keyOf (cj_meta c) = k) \<or> (\<exists>e. x = RErr e \<and> isNotFound e)"
  "fits KConfigMap k x \<longleftrightarrow> (\<exists>c. x = RConfigMap c \<and> keyOf (cm_meta c) = k)"
  "fits KService k x \<longleftrightarrow> (\<exists>s. x = RService s \<and> keyOf (svc_meta s) = k)"
  "\<not> fits KInstance k x"
  by (cases x; simp)+

declare fits.simps [simp del]

lemma metaAt_simps [simp]: "om_namespace (metaAt k) = fst k" "om_name (metaAt k) = snd k"
  by (simp_all add: metaAt_def)

lemma mapGet_singleton: "mapGet [k \<mapsto> v] k = v"
  by (simp add: mapGet_def)

lemma memory_orderly:
  assumes "orderly h" and "calm q"
  shows "orderly ((q, memory h q) # h)"
proof (rule orderly_event [OF assms(1)])
  fix kind k x
  assume "target q = Some (kind, k)" "learn q (memory h q) (known h (kind, k)) = Some x"
  then show "fits kind k x"
    using orderlyD [OF assms(1), of kind k] assms(2)
    by (cases q) (auto simp: calm_def seen_def written_def gone_def kept_def fits_cases mapGet_singleton
        split: option.splits answer.splits if_splits)
qed

lemma memory_reads:
  assumes "orderly h" and "reads q \<or> fetches q" and "\<nexists>k. q = QDeleteCronJob k"
  shows "memory h q = (case known h (the (target q)) of Some x \<Rightarrow> if isError x then fresh q else x | None \<Rightarrow> fresh q)"
  using assms(2,3) by (cases q) auto

lemma memory_keyed:
  assumes "orderly h"
  shows "keyed q (memory h q)"
  by (cases q) (auto dest!: orderlyD [OF assms] simp: keyed_def echo_def fits_cases restoredInstance_def split: option.splits answer.splits)

lemma taken:
  "takesOver (QStoreSts s) (RSts (s\<lparr>sts_readyReplicas := n\<rparr>))" "takesOver (QStoreCronJob c) (RCronJob c)"
  "takesOver (QStoreConfigMap cm) (RConfigMap cm)" "takesOver (QStoreService svc) (RService svc)"
proof -
  have "s\<lparr>sts_readyReplicas := n\<rparr> = s\<lparr>sts_statusReplicas := sts_statusReplicas s, sts_readyReplicas := n, sts_meta := sts_meta s\<rparr>"
    "c = c\<lparr>cj_meta := cj_meta c\<rparr>" "cm = cm\<lparr>cm_meta := cm_meta cm\<rparr>"
    "svc = svc\<lparr>svc_clusterIP := svc_clusterIP svc, svc_meta := svc_meta svc\<rparr>"
    by simp_all
  moreover have "keptMeta m m" for m by (simp add: keptMeta_def)
  ultimately show "takesOver (QStoreSts s) (RSts (s\<lparr>sts_readyReplicas := n\<rparr>))" "takesOver (QStoreCronJob c) (RCronJob c)"
    "takesOver (QStoreConfigMap cm) (RConfigMap cm)" "takesOver (QStoreService svc) (RService svc)"
    unfolding takesOver.simps by blast+
qed

lemma memory_takesOver: "takesOver q (memory h q)"
  by (cases q) (simp_all add: taken del: takesOver.simps(1-4))

lemma memory_remembers:
  assumes "orderly h"
  shows "remembers h q (memory h q)"
  unfolding remembers_def
proof (intro conjI allI impI memory_keyed memory_takesOver assms)
  fix t x assume t: "target q = Some t \<and> known h t = Some x"
  obtain kind k where kind: "t = (kind, k)" by (cases t)
  have x: "fits kind k x" using orderlyD [OF assms] t kind by blast
  show "alike x (memory h q)" if "reads q \<and> ((\<exists>k. q = QDeleteCronJob k) \<longrightarrow> isError x)"
    using that t x kind by (cases q) (auto simp: fits_cases alike_refl)
  show "alike x (memory h q)" if "fetches q \<and> \<not> isError x"
    using that t x kind by (cases q) (auto simp: fits_cases alike_refl)
  show "memory h q = x" if "storing q = Some x"
    using that t x kind by (cases q) (auto simp: fits_cases)
qed

lemma memory_obliges:
  assumes "orderly h"
  shows "obliging sampleLib (current restoredInstance) 0 h q (memory h q)"
  by (cases q) (auto dest!: orderlyD [OF assms] simp: fits_cases absent_def exitsNonZero_def sample_ownable stsReady_def version_named current_def
      restoredInstance_def split: option.splits answer.splits simp del: findVersion.simps not_None_eq)

section \<open>The version stays on record\<close>

definition servedPod :: "event list \<Rightarrow> request \<Rightarrow> answer \<Rightarrow> bool" where
  "servedPod h q r \<longleftrightarrow> echo q r
     \<and> (\<forall>k. q = QGetPod k \<longrightarrow> (\<exists>pod. r = RPod pod \<and> mapGet (om_labels (pod_meta pod)) firebirdVersionLabelKey = ''5.0.2''))"

definition settledVersion :: "'a act \<Rightarrow> bool" where
  "settledVersion m \<longleftrightarrow> (\<forall>i h. lasting i = (False, ''5.0.2'')
     \<longrightarrow> wpa servedPod (\<lambda>_. calm) (\<lambda>r j h'. lasting j = (False, ''5.0.2'')) m i h)"

lemma settled_steady:
  assumes "steady lasting m" and "emits (\<lambda>q. \<forall>p p'. q \<noteq> QPatchPod p p') m"
  shows "settledVersion m"
  unfolding settledVersion_def
proof (intro allI impI)
  fix i h assume i: "lasting i = (False, ''5.0.2'')"
  have "wpa servedPod (\<lambda>_. sameIn lasting (lasting i)) (\<lambda>r j h'. lasting j = lasting i) m i h"
    using assms(1) [unfolded steady_def, rule_format, of i h] unfolding wpa_def
    by (rule wp_stronger_answers) (simp add: servedPod_def)
  from wpa_conj [OF this emits_wpa [OF assms(2)]]
  show "wpa servedPod (\<lambda>_. calm) (\<lambda>r j h'. lasting j = (False, ''5.0.2'')) m i h"
    by (rule wpa_mono) (use i in \<open>auto simp: calm_def\<close>)
qed

lemma settled_tryA:
  assumes "settledVersion m" and "\<And>r. settledVersion (f r)"
  shows "settledVersion (tryA m f)"
  unfolding settledVersion_def wpa_tryA
  by (intro allI impI, rule wpa_mono [OF assms(1) [unfolded settledVersion_def, rule_format]])
    (use assms(2) in \<open>auto simp: settledVersion_def\<close>)

lemma settled_ok: "settledVersion (ok x)" and settled_failA: "settledVersion (failA e)"
  by (simp_all add: settledVersion_def wprule)

lemma settled_bindA: "settledVersion m \<Longrightarrow> (\<And>x. settledVersion (f x)) \<Longrightarrow> settledVersion (bindA m f)"
  unfolding bindA_def by (rule settled_tryA) (auto intro: settled_failA split: sum.split)

lemma settled_thenA: "settledVersion m \<Longrightarrow> settledVersion n \<Longrightarrow> settledVersion (thenA m n)"
  unfolding thenA_def by (rule settled_bindA)

lemma settled_withI: "(\<And>i. settledVersion (f i)) \<Longrightarrow> settledVersion (withI f)"
  by (simp add: settledVersion_def wprule)

lemma settled_whenA: "settledVersion m \<Longrightarrow> settledVersion (whenA b m)"
  by (simp add: whenA_def settled_ok)

lemma settled_version: "settledVersion reconcileFirebirdVersion"
  by (auto simp: settledVersion_def reconcileFirebirdVersion_def wprule Let_def servedPod_def calm_def lasting_def asPod_Inr)

lemma settled_instance: "settledVersion (reconcileInstance L fuel)"
proof -
  have plain: "settledVersion (reconcileSysdbaSecret fuel)" "settledVersion (reconcileMajorUpgrade L)"
      "settledVersion (reconcileOwned L)" "settledVersion (reconcileDatabases n)" "settledVersion (reconcileScheduledBackups L)"
      "settledVersion (reportReady L)" "settledVersion (reportNotReady L)" for n
    unfolding reportReady_def reportNotReady_def finishMajorUpgrade_def reconcileOwned_def
    by (rule settled_steady; (intro keep | intro emit);
        auto simp: lasting_def clearDatabases_def beginUpgrade_def recordDatabases_def availableEdit_def Let_def)+
  have "settledVersion (reconcileServer L sts)" for sts
    unfolding reconcileServer_def
    by (intro settled_thenA settled_whenA settled_withI plain settled_version) (auto intro: plain)
  then show ?thesis
    unfolding reconcileInstance_def by (intro settled_thenA settled_bindA plain) (auto intro: settled_ok settled_bindA plain)
qed

lemma settled_found:
  assumes "lasting i = (False, ''5.0.2'')"
  shows "wpa servedPod (\<lambda>_. calm) (\<lambda>r j h'. True) (reconcileFound L fuel) i h"
proof -
  have "settledVersion (ensureFinalizer L)" "settledVersion (conclude L r)" for r
    unfolding ensureFinalizer_def conclude_def
    by (rule settled_steady; (intro keep | intro emit); auto simp: lasting_def errorEdit_def split: option.splits intro!: keep emit)+
  then have "settledVersion (thenA (ensureFinalizer L) (tryA (reconcileInstance L fuel) (conclude L)))"
    by (intro settled_thenA settled_tryA settled_instance)
  note body = this [unfolded settledVersion_def, rule_format, OF assms]
  have "\<not> in_deleting i" using assms by (simp add: lasting_def)
  then show ?thesis
    unfolding reconcileFound_def wpa_withI by simp (rule wpa_mono [OF body], simp_all)
qed

section \<open>Two reconciles\<close>

definition keepsMemory :: "event list \<Rightarrow> bool" where
  "keepsMemory h \<longleftrightarrow> orderly h \<and> lasting (stored restoredInstance h) = (False, ''5.0.2'')"

lemma memory_event:
  assumes "keepsMemory h" and "calm q"
  shows "servedPod h q (memory h q) \<and> undisturbed sampleLib restoredInstance h q (memory h q) \<and> keepsMemory ((q, memory h q) # h)"
proof (intro conjI)
  have orderly: "orderly h" using assms(1) by (simp add: keepsMemory_def)
  note remembers = memory_remembers [OF orderly, of q]
  show "undisturbed sampleLib restoredInstance h q (memory h q)"
    using remembers memory_obliges [OF orderly] by (simp add: undisturbed_def)
  show "servedPod h q (memory h q)"
    using remembers_echo [OF remembers]
    by (auto dest!: orderlyD [OF orderly] simp: servedPod_def fits_cases mapGet_singleton split: option.splits)
  show "keepsMemory ((q, memory h q) # h)"
    using memory_orderly [OF orderly assms(2)] assms
      stored_step [OF remembers_echo [OF remembers], of lasting "(False, ''5.0.2'')" restoredInstance h]
    by (simp add: keepsMemory_def calm_def del: stored.simps)
qed

lemma memory_run:
  assumes "keepsMemory h" and "lasting i = (False, ''5.0.2'')"
  shows "\<exists>tr res. steps (Reconcile sampleLib 1 req) ((QGetInstance req, RInstance i) # tr) (Ret res)
    \<and> answered (undisturbed sampleLib restoredInstance) h tr \<and> keepsMemory (rev tr @ h)"
proof -
  let ?p = "bindIO (reconcileFound sampleLib 1 i) (\<lambda>(res, j). Ret (resultOf res))"
  have "wp servedPod (\<lambda>_. calm) (\<lambda>_ _. True) ?p h"
    unfolding wp_bindIO by (rule wp_mono [OF settled_found [OF assms(2), unfolded wpa_def]]) auto
  from wp_run [OF this, where I = keepsMemory and env = memory and B = "undisturbed sampleLib restoredInstance", OF assms(1) memory_event]
  obtain tr res where "steps ?p tr (Ret res)" "answered (undisturbed sampleLib restoredInstance) h tr" "keepsMemory (rev tr @ h)"
    by blast
  moreover from this(1) have "steps (Reconcile sampleLib 1 req) ((QGetInstance req, RInstance i) # tr) (Ret res)"
    unfolding Reconcile_def by (intro steps.call) simp
  ultimately show ?thesis by blast
qed

text \<open>The library finds again what it has set.\<close>

lemma putCondition_found: "putCondition (fst (putCondition cs c)) c = (fst (putCondition cs c), False)"
  by (induction cs) (auto simp: Let_def split: prod.splits if_splits)

lemma sample_laws:
  "lawful sampleLib" "conditionFound sampleLib" "finalizerLaw sampleLib"
proof -
  show "lawful sampleLib"
    by (auto simp: lawful_def ownerLaw_def ownerFound_def ownerKeepsKey_def sampleLib_def)
  show "conditionFound sampleLib"
    using putCondition_found by (simp add: conditionFound_def sampleLib_def)
  show "finalizerLaw sampleLib"
    by (simp add: finalizerLaw_def sampleLib_def)
qed

lemma undisturbed_answers: "answered (undisturbed L i) h tr \<Longrightarrow> answered remembers h tr"
  by (induction tr arbitrary: h) (auto simp: undisturbed_def)

theorem reconciles_settle_witness:
  "\<exists>tr tr' res. steps sampleReconcile ((QGetInstance (''ns'', ''db''), RInstance restoredInstance) # tr) (Ret res)
    \<and> steps sampleReconcile ((QGetInstance (''ns'', ''db''), RInstance (stored restoredInstance (rev tr))) # tr') (Ret (None, None))"
proof -
  let ?req = "(''ns'', ''db'')"
  have start: "keepsMemory []" "lasting restoredInstance = (False, ''5.0.2'')"
    by (simp_all add: keepsMemory_def orderly_def lasting_def restoredInstance_def sample_defs)
  obtain tr res where run: "steps sampleReconcile ((QGetInstance ?req, RInstance restoredInstance) # tr) (Ret res)"
    and tr: "answered (undisturbed sampleLib restoredInstance) [] tr" and kept: "keepsMemory (rev tr)"
    using memory_run [OF start, of ?req] by auto
  let ?k = "stored restoredInstance (rev tr)"
  have k: "lasting ?k = (False, ''5.0.2'')" using kept by (simp add: keepsMemory_def)
  obtain tr' res' where again: "steps sampleReconcile ((QGetInstance ?req, RInstance ?k) # tr') (Ret res')"
    and tr': "answered (undisturbed sampleLib restoredInstance) (rev tr) tr'"
    using memory_run [OF kept k, of ?req] by auto
  have "res' = (None, None)"
  proof (rule reconciles_settle [OF run again tr undisturbed_answers [OF tr'] sample_laws(1,2) sample_conditionLaw sample_laws(3),
        THEN conjunct2, rule_format, OF _ _ _ _ _ _ _ refl])
    show "st_firebirdVersion (in_status ?k) = st_firebirdVersion (in_status restoredInstance)"
      using k start(2) by (simp add: lasting_def)
  qed (simp_all add: restoredInstance_def nearlyThere_def sample_defs)
  with run again show ?thesis by blast
qed

end
