(* ===== verification/Spec2Isabelle.thy ===== *)
theory Spec2Isabelle
  imports Lifecycle Provisioning Progress Composition Outcome Retention Versions Names
    Claims Pools Seeding Scheme Copies Upgraded WellFormed Budget Sharing Settled
begin

text \<open>
  Kubebird is a Kubernetes operator for the Firebird database. A custom resource \<open>Instance\<close> declares
  a server: its image and version, its databases, its volumes and its backups. The operator's
  reconciler reads it and drives the cluster towards it. This library models the program in
  \<open>api/v1\<close>, \<open>internal/controller\<close> and \<open>cmd/main.go\<close> and proves what it promises: above all that no data
  is lost, neither by an upgrade nor by a deletion nor by provisioning.

  \<^bold>\<open>How an effectful method is modelled.\<close> A method of the Go program that talks to the cluster is a
  tree \<open>'a io\<close> of requests: a finished computation or a request with a continuation for every answer
  (theory Effects). The cluster, the API server, the server pods and the random source are whoever
  gives the answers; nothing is assumed of them but what a theorem names. A method with an
  \<open>*Instance\<close> argument is an \<open>'a act\<close>: it takes the object and returns the outcome, an error or a
  value, together with the object it leaves, because a status write decodes the server's reply into it.
  \<open>steps p tr p'\<close> says that the run \<open>tr\<close> leads from \<open>p\<close> to \<open>p'\<close>; a run may stop anywhere, which is how a
  crash of the operator is covered. Errors are values, with wrapping and the \<open>errors.As\<close> tests of the
  code; a nil dereference is the value \<open>Panicked\<close>.

  \<^bold>\<open>The parts.\<close>
  \<^item> Prelude, GoStd, GoCrypto: the pieces of Go's standard library the program calls on values
    (strings, strconv, path, fmt's quoting, base64, SHA-256).
  \<^item> Api: the custom resource of \<open>api/v1/instance_types.go\<close>, with the validation markers as predicates.
  \<^item> Kube: the Kubernetes objects with the fields the program uses, and the errors. Helpers of
    controller-runtime on values are a parameter, the record \<open>lib\<close>.
  \<^item> Effects: requests, answers, programs, weakest preconditions over runs, and the rules by which the
    component theories prove what their methods ask for and leave as it is.
  \<^item> Layout: names, labels, paths, images and constants.
  \<^item> Status, Exec, Version, SecurityDb, Objects, Databases, Backup, Upgrade, Schedule, Controller: one
    theory for each part of \<open>internal/controller\<close>, definition by definition in the order of the code,
    with the same names (\<open>instance_controller.go\<close> is split into Status, Backup and Controller).
  \<^item> Manager: the process of \<open>cmd/main.go\<close>: its options, and the calls that set up the manager and the
    controller (\<open>SetupWithManager\<close>) and run it.
  \<^item> Scheme: the registration of the resource's Go types (\<open>api/v1/groupversion_info.go\<close> and the \<open>init\<close>
    functions), and the process from its initialisation on. The schemes and scheme builders of the API
    machinery are a parameter, the record \<open>machinery\<close>, with what they promise in \<open>machineryLaws\<close>; the
    scheme reaches the manager through the options of theory Manager.
  \<^item> Memory, DeepCopy: the generated deep copies of \<open>api/v1/zz_generated.deepcopy.go\<close>, over a memory of cells
    with pointers and slices into them. The other theories treat a resource as a value; these say what a
    copy of the pointer structure does. The deep copies of the API machinery's own structs (metadata,
    quantities, conditions) are a parameter, the record \<open>library\<close>.
  \<^item> Samples: concrete instances and clusters on which the theorems are exercised.

  \<^bold>\<open>The theorems.\<close>
  \<^item> Deletion: order and completeness of a deletion: backup, release, finalizer.
  \<^item> Staging: the upgrade as a state machine (\<open>advance\<close>), which every status write of a reconcile
    refines; what may be released and which version may be started when.
  \<^item> Lifecycle: the same over any number of reconciles of an instance, with crashes, failed writes and
    edits of the spec in between (\<open>life\<close>): no volume is deleted before its backup.
  \<^item> Progress: a cluster that does its part gets an upgrade from each stage to the next.
  \<^item> Provisioning: databases are never overwritten, and reconciling converges.
  \<^item> Desired: the objects the operator owns: selectors, mounts, idempotence, creation at most once.
  \<^item> Composition: the parts in one reconcile: the server is asked for once everything it mounts is there,
    and a changed Secret restarts the servers that use it.
  \<^item> Success: steps that cannot fail, as a rule system over the way the code is put together; Rest and
    Ready use it. Ready: with a cluster that goes along (\<open>obliging\<close>, which depends on the history: a Secret
    may be missing until the operator makes it), one reconcile of a live instance, or of one whose upgrade
    has only the restore left, leaves it \<open>Ready\<close> with the declared databases; Upgraded puts this and
    Progress together: one reconcile can take an upgrade from any stage to its end. Rest: a reconcile of an
    instance in order changes nothing.
  \<^item> Known, Converge, Settling, Settled: these two put together: after one undisturbed reconcile the next one
    changes nothing. Known: what a history tells about the objects (\<open>known\<close>), an environment in which nobody
    else writes to them (\<open>remembers\<close>), and what each step leaves known. Converge: what a whole
    reconcile leaves known; Settling: the next one keeps it all and comes to rest; Settled: the theorem.
  \<^item> WellFormed: an invariant of every status the operator writes, whatever the cluster answers (the
    databases on record and their count, the phase, and that an instance is not ready during an upgrade).
  \<^item> Budget: a reconcile ends: a bound on its requests, counted method by method.
  \<^item> Own: whatever a reconcile asks for concerns an object of its own instance, and two instances have
    none in common but a Secret both name. It is proved method by method with \<open>keepsTo\<close>, a contract on actions.
    Sharing: what becomes of such a Secret, as a step relation on its label and the work queue: between
    servers of different versions it never comes to rest.
  \<^item> Copies: each deep copy stands for the same value as its original and shares no memory with it. The
    contract is the locale \<open>copier\<close> of theory Memory; pointers, slices and structs of copiers are copiers.
  \<^item> Outcome: the result of a reconcile and the status it records agree.
  \<^item> Retention, Versions, Names: how the program reads and writes retentions, versions and file names:
    round trips, what validation promises to the code behind it, files that never meet.
  \<^item> Manager and Scheme also hold how the process starts, with which options and with which types.

  \<^bold>\<open>The scripts.\<close> The shell scripts are modelled twice: as the text the program renders, character by
  character (SecurityDb, Schedule, Backup), and as what a shell does with their lines:
  \<^item> Timestamps: the timestamps as moments; their order as strings is the order in time.
  \<^item> Claims: any number of concurrent runs of a frequency's script, killed or failing anywhere, as a step
    relation; two runs never use one timestamp, unless the retention has passed it meanwhile.
  \<^item> Pruning and Pools: a run of the script over the frequency's directory, without and with the
    incremental mode; just what is left of the backups, claims and pools, and what a failed run leaves.
  \<^item> Seeding: the init container's script over the primary volume, interrupted anywhere; where the
    security database comes from, and from where not for a tag that names no number.

  \<^bold>\<open>Fuel.\<close> The password loop is the only loop of the Go code without a bound. \<open>generateRandomPassword\<close>
  takes a number of draws as fuel, and a theorem says that it gives up only when every draw started
  with a dash. The bound of theory Budget on the requests of a reconcile counts that fuel.

  \<^bold>\<open>Not modelled.\<close> Log lines; what controller-runtime does once it is started (watches, caches, the work
  queue): a reconcile is a call of \<open>Reconcile\<close> (theory Sharing has the queue for one Secret);
  deployment manifests and tests. The records of the Kubernetes objects have the fields the program
  uses, not those the API server fills in by default: whether CreateOrUpdate finds an object changed by
  them is not seen, so \<open>createOrUpdate\<close> always stores. In the scripts, gbak, nbackup, isql and
  fbsvcmgr are given by their outcome, and \<open>date\<close> by the cutoff it prints, of which nothing is assumed;
  deleting a file is taken to work; a run that waits for a lock or for the next second is not timed.
\<close>

end
